(* ===== verification/Prelude.thy ===== *)
theory Prelude
  imports Main "HOL-Library.AList" "HOL-Library.Multiset" "HOL-Library.Code_Target_Numeral"
begin

text \<open>
  What every theory of the development shares: Python's data (text as a list of code points,
  dictionaries as insertion-ordered association lists, exceptions as values), the result type of
  code that may raise, and generic lemmas on lists and maps that the component proofs use through
  the collections \<open>dict_simps\<close> and \<open>res_simps\<close>.
\<close>

named_theorems dict_simps \<open>lookup and key facts of insertion-ordered dictionaries\<close>
named_theorems res_simps \<open>unfolding of the result type's operations\<close>

section \<open>Text\<close>

text \<open>
  A Python \<open>str\<close> is a sequence of Unicode code points; \<open>len\<close> and slices count code points.
  ASCII literals are written with \<open>lit\<close>, other literals (the Korean messages) as code points.
\<close>

type_synonym pystr = "nat list"

definition lit :: "string \<Rightarrow> pystr" where
  "lit s = map of_char s"

lemma lit_simps [simp]:
  "lit [] = []"
  "lit (c # cs) = of_char c # lit cs"
  by (simp_all add: lit_def)

lemma length_lit: "length (lit s) = length s"
  by (simp add: lit_def)

section \<open>Exceptions and results\<close>

text \<open>
  The exceptions the modelled code raises or lets through. \<open>DbError\<close> stands for any error of the
  database driver, \<open>NetworkError\<close> for any \<open>httpx\<close> exception, \<open>RunnerError\<close> for whatever the RCA
  runner raises.
\<close>

datatype exc =
    TypeError
  | ValueError pystr
  | AttributeError
  | ZeroDivisionError
  | OverflowError
  | IndexError
  | OSError
  | AssertionError
  | KeyError
  | SignalsMissing pystr
  | ValidationError pystr
  | RcaResultInvalid pystr
  | TimeoutError
  | RunnerError pystr
  | DbError pystr
  | DeliveryPermanentError nat pystr
  | DeliveryTransientError nat pystr
  | NetworkError pystr
  | HTTPException nat pystr

type_synonym 'a res = "exc + 'a"

fun rbind :: "'a res \<Rightarrow> ('a \<Rightarrow> 'b res) \<Rightarrow> 'b res" where
  "rbind (Inl e) f = Inl e"
| "rbind (Inr x) f = f x"

fun rmap :: "('a \<Rightarrow> 'b res) \<Rightarrow> 'a list \<Rightarrow> 'b list res" where
  "rmap f [] = Inr []"
| "rmap f (x # xs) = rbind (f x) (\<lambda>y. rbind (rmap f xs) (\<lambda>ys. Inr (y # ys)))"

lemma rbind_Inr_iff [res_simps]: "rbind r f = Inr y \<longleftrightarrow> (\<exists>x. r = Inr x \<and> f x = Inr y)"
  by (cases r) auto

lemma rbind_Inl_iff [res_simps]:
  "rbind r f = Inl e \<longleftrightarrow> r = Inl e \<or> (\<exists>x. r = Inr x \<and> f x = Inl e)"
  by (cases r) auto

lemma rmap_length: "rmap f xs = Inr ys \<Longrightarrow> length ys = length xs"
  by (induction xs arbitrary: ys) (auto simp: res_simps)

lemma rmap_nth: "rmap f xs = Inr ys \<Longrightarrow> i < length xs \<Longrightarrow> f (xs ! i) = Inr (ys ! i)"
proof (induction xs arbitrary: ys i)
  case (Cons x xs)
  then show ?case by (cases i) (auto simp: res_simps)
qed simp

lemma rmap_Inl: "rmap f xs = Inl e \<Longrightarrow> \<exists>x\<in>set xs. f x = Inl e"
  by (induction xs) (auto simp: res_simps)

lemma rmap_raises: "x \<in> set xs \<Longrightarrow> f x = Inl e \<Longrightarrow> \<exists>e'. rmap f xs = Inl e'"
proof (induction xs)
  case (Cons y ys)
  show ?case
  proof (cases "f y")
    case (Inr z)
    then have "x \<in> set ys" using Cons.prems by auto
    then obtain e' where "rmap f ys = Inl e'" using Cons by blast
    with Inr show ?thesis by simp
  qed simp
qed simp

lemma rmap_total: "(\<And>x. x \<in> set xs \<Longrightarrow> f x = Inr (g x)) \<Longrightarrow> rmap f xs = Inr (map g xs)"
  by (induction xs) auto

section \<open>Dictionaries\<close>

text \<open>
  A \<open>dict\<close> keeps insertion order and has each key once: an association list. Assigning to a
  present key keeps its place, assigning to a new key appends, which is \<open>AList.update\<close>.
\<close>

type_synonym ('k, 'v) dict = "('k \<times> 'v) list"

abbreviation dget :: "('k, 'v) dict \<Rightarrow> 'k \<Rightarrow> 'v option" where
  "dget \<equiv> map_of"

abbreviation dset :: "'k \<Rightarrow> 'v \<Rightarrow> ('k, 'v) dict \<Rightarrow> ('k, 'v) dict" where
  "dset \<equiv> AList.update"

abbreviation dkeys :: "('k, 'v) dict \<Rightarrow> 'k list" where
  "dkeys d \<equiv> map fst d"

definition wf_dict :: "('k, 'v) dict \<Rightarrow> bool" where
  "wf_dict d = distinct (dkeys d)"

text \<open>\<open>{**d, **e}\<close>: the entries of \<open>e\<close> assigned over those of \<open>d\<close>, in order.\<close>

definition dmerge :: "('k, 'v) dict \<Rightarrow> ('k, 'v) dict \<Rightarrow> ('k, 'v) dict" where
  "dmerge d e = fold (\<lambda>(k, v) acc. dset k v acc) e d"

lemma dget_dset [dict_simps]: "dget (dset k v d) k' = (if k' = k then Some v else dget d k')"
  by (simp add: update_conv)

lemma dkeys_dset [dict_simps]:
  "dkeys (dset k v d) = (if k \<in> set (dkeys d) then dkeys d else dkeys d @ [k])"
  by (simp add: update_keys)

lemma wf_dset [dict_simps]: "wf_dict d \<Longrightarrow> wf_dict (dset k v d)"
  by (simp add: wf_dict_def distinct_update)

lemma wf_dict_Nil [simp]: "wf_dict []"
  by (simp add: wf_dict_def)

lemma dmerge_Nil [simp]: "dmerge d [] = d"
  by (simp add: dmerge_def)

lemma dmerge_Cons [simp]: "dmerge d ((k, v) # e) = dmerge (dset k v d) e"
  by (simp add: dmerge_def)

lemma wf_dmerge [dict_simps]: "wf_dict d \<Longrightarrow> wf_dict (dmerge d e)"
  by (induction e arbitrary: d) (auto simp: dict_simps)

lemma dget_dmerge [dict_simps]:
  "wf_dict e \<Longrightarrow> dget (dmerge d e) k = (case dget e k of Some v \<Rightarrow> Some v | None \<Rightarrow> dget d k)"
proof (induction e arbitrary: d)
  case (Cons p e)
  obtain a b where p: "p = (a, b)" by fastforce
  with Cons.prems have fresh: "a \<notin> set (dkeys e)" and wf: "wf_dict e"
    by (auto simp: wf_dict_def)
  then have "dget e a = None" by (auto simp: map_of_eq_None_iff)
  then show ?case
    by (auto simp: p Cons.IH [OF wf] dget_dset split: option.splits)
qed (simp split: option.splits)

lemma dget_SomeD: "dget d k = Some v \<Longrightarrow> (k, v) \<in> set d"
  by (rule map_of_SomeD)

lemma dget_wf_iff: "wf_dict d \<Longrightarrow> dget d k = Some v \<longleftrightarrow> (k, v) \<in> set d"
  by (simp add: wf_dict_def)

text \<open>\<open>{k: v for k, v in d.items() if P k}\<close>.\<close>

lemma dget_filter_key [dict_simps]:
  "dget (filter (\<lambda>(k, v). P k) d) k = (if P k then dget d k else None)"
  by (induction d) auto

lemma wf_dict_filter [dict_simps]: "wf_dict d \<Longrightarrow> wf_dict (filter P d)"
  by (induction d) (auto simp: wf_dict_def)

section \<open>Lists\<close>

lemma sum_list_count_le: "(\<And>x. x \<in> set xs \<Longrightarrow> f x \<le> g x) \<Longrightarrow> sum_list (map f xs) \<le> sum_list (map g xs)"
  for f g :: "'a \<Rightarrow> nat"
  by (induction xs) (auto intro: add_mono)

lemma distinct_concat_mset: "distinct (concat xss) \<longleftrightarrow> (\<forall>i. count (mset (concat xss)) i \<le> 1)"
  using distinct_count_atmost_1 [of "concat xss"] by (auto simp: le_Suc_eq)

lemma nth_map_sorted_key:
  assumes "sorted (map f xs)" and "i \<le> j" and "j < length xs"
  shows "f (xs ! i) \<le> f (xs ! j)"
  using sorted_nth_mono [OF assms(1), of i j] assms(2,3) by simp

end
