(* ===== verification/Py_Text.thy ===== *)
theory Py_Text
  imports Prelude
begin

text \<open>
  Python's text operations and the \<open>re\<close> subset the program uses. A pattern is a term of type \<open>rx\<close>;
  \<open>rx_match\<close> lists all ways to match at a position in the order the backtracking matcher of \<open>re\<close> tries
  them (alternatives left to right, quantifiers greedy), so the first one is the match \<open>re\<close> reports.
  Character classes follow \<open>re\<close> on Unicode text: \<open>\<backslash>w\<close> and \<open>\<backslash>b\<close> use \<open>is_word\<close>, which is exact on ASCII and
  covers the letter blocks listed at \<open>is_letter_block\<close>; \<open>\<backslash>s\<close> is \<open>str.isspace\<close>, \<open>\<backslash>d\<close> is read over ASCII.
\<close>

section \<open>Characters\<close>

definition is_digit :: "nat \<Rightarrow> bool" where
  "is_digit c \<longleftrightarrow> 48 \<le> c \<and> c \<le> 57"

definition is_upper :: "nat \<Rightarrow> bool" where
  "is_upper c \<longleftrightarrow> 65 \<le> c \<and> c \<le> 90"

definition is_lower :: "nat \<Rightarrow> bool" where
  "is_lower c \<longleftrightarrow> 97 \<le> c \<and> c \<le> 122"

definition is_alpha :: "nat \<Rightarrow> bool" where
  "is_alpha c \<longleftrightarrow> is_upper c \<or> is_lower c"

definition is_space :: "nat \<Rightarrow> bool" where
  "is_space c \<longleftrightarrow> (9 \<le> c \<and> c \<le> 13) \<or> (28 \<le> c \<and> c \<le> 32) \<or> c = 0x85 \<or> c = 0xA0 \<or> c = 0x1680 \<or>
     (0x2000 \<le> c \<and> c \<le> 0x200A) \<or> c = 0x2028 \<or> c = 0x2029 \<or> c = 0x202F \<or> c = 0x205F \<or> c = 0x3000"

text \<open>Latin, Greek, Cyrillic, kana, CJK ideographs and Hangul.\<close>

definition is_letter_block :: "nat \<Rightarrow> bool" where
  "is_letter_block c \<longleftrightarrow>
     c = 0xAA \<or> c = 0xB5 \<or> c = 0xBA \<or> (0xC0 \<le> c \<and> c \<le> 0x2C1 \<and> c \<noteq> 0xD7 \<and> c \<noteq> 0xF7) \<or>
     (0x388 \<le> c \<and> c \<le> 0x481) \<or> (0x48A \<le> c \<and> c \<le> 0x52F) \<or>
     (0x3041 \<le> c \<and> c \<le> 0x3096) \<or> (0x30A1 \<le> c \<and> c \<le> 0x30FA) \<or>
     (0x3131 \<le> c \<and> c \<le> 0x318E) \<or> (0x3400 \<le> c \<and> c \<le> 0x4DBF) \<or>
     (0x4E00 \<le> c \<and> c \<le> 0x9FFF) \<or> (0xAC00 \<le> c \<and> c \<le> 0xD7A3)"

definition is_alnum :: "nat \<Rightarrow> bool" where
  "is_alnum c \<longleftrightarrow> is_digit c \<or> is_alpha c \<or> is_letter_block c"

definition is_word :: "nat \<Rightarrow> bool" where
  "is_word c \<longleftrightarrow> is_alnum c \<or> c = 95"

text \<open>
  \<open>lower\<close> and \<open>upper\<close> on ASCII letters and on the code points that \<open>re\<close> matches to one of them when
  ignoring case (capital mu; dotless i and long s); other code points are left as they are.
\<close>

definition lower_char :: "nat \<Rightarrow> nat" where
  "lower_char c = (if is_upper c then c + 32 else if c = 0x39C then 0x3BC else c)"

definition upper_char :: "nat \<Rightarrow> nat" where
  "upper_char c = (if is_lower c then c - 32 else if c = 0x131 then 73 else if c = 0x17F then 83 else c)"

definition str_lower :: "pystr \<Rightarrow> pystr" where
  "str_lower s = map lower_char s"

definition str_upper :: "pystr \<Rightarrow> pystr" where
  "str_upper s = map upper_char s"

lemmas char_defs = is_digit_def is_upper_def is_lower_def is_alpha_def is_space_def
  is_letter_block_def is_alnum_def is_word_def lower_char_def upper_char_def

lemma length_case [simp]:
  "length (str_lower s) = length s" "length (str_upper s) = length s"
  by (simp_all add: str_lower_def str_upper_def)

section \<open>String methods\<close>

fun starts_with :: "pystr \<Rightarrow> pystr \<Rightarrow> bool" where
  "starts_with _ [] = True"
| "starts_with [] (p # ps) = False"
| "starts_with (c # cs) (p # ps) = (c = p \<and> starts_with cs ps)"

lemma starts_with_iff: "starts_with s p \<longleftrightarrow> (\<exists>t. s = p @ t)"
  by (induction s p rule: starts_with.induct) auto

definition ends_with :: "pystr \<Rightarrow> pystr \<Rightarrow> bool" where
  "ends_with s p = starts_with (rev s) (rev p)"

text \<open>\<open>s.find(p)\<close>: index of the leftmost occurrence, \<open>None\<close> for \<open>-1\<close>.\<close>

fun str_find :: "pystr \<Rightarrow> pystr \<Rightarrow> nat option" where
  "str_find p [] = (if p = [] then Some 0 else None)"
| "str_find p (c # cs) =
     (if starts_with (c # cs) p then Some 0 else map_option Suc (str_find p cs))"

lemma str_find_SomeD: "str_find p s = Some i \<Longrightarrow> i \<le> length s \<and> (\<exists>t. drop i s = p @ t)"
  by (induction s arbitrary: i) (auto simp: starts_with_iff split: if_splits)

text \<open>\<open>s.split(sep)\<close> on a one-character separator: never empty.\<close>

fun split_on :: "nat \<Rightarrow> pystr \<Rightarrow> pystr list" where
  "split_on sep [] = [[]]"
| "split_on sep (c # cs) =
     (if c = sep then [] # split_on sep cs
      else case split_on sep cs of [] \<Rightarrow> [[c]] | w # ws \<Rightarrow> (c # w) # ws)"

definition str_strip :: "(nat \<Rightarrow> bool) \<Rightarrow> pystr \<Rightarrow> pystr" where
  "str_strip P s = rev (dropWhile P (rev (dropWhile P s)))"

definition str_rstrip :: "(nat \<Rightarrow> bool) \<Rightarrow> pystr \<Rightarrow> pystr" where
  "str_rstrip P s = rev (dropWhile P (rev s))"

fun str_join :: "pystr \<Rightarrow> pystr list \<Rightarrow> pystr" where
  "str_join sep [] = []"
| "str_join sep [w] = w"
| "str_join sep (w # ws) = w @ sep @ str_join sep ws"

lemma length_str_join:
  "length (str_join sep ws) = sum_list (map length ws) + length sep * (length ws - 1)"
  by (induction sep ws rule: str_join.induct) auto

text \<open>\<open>s.replace(old, new)\<close> for a non-empty \<open>old\<close>: leftmost occurrences, without overlap.\<close>

function str_replace :: "pystr \<Rightarrow> pystr \<Rightarrow> pystr \<Rightarrow> pystr" where
  "str_replace old new [] = []"
| "str_replace old new (c # cs) =
     (if old \<noteq> [] \<and> starts_with (c # cs) old then new @ str_replace old new (drop (length old) (c # cs))
      else c # str_replace old new cs)"
  by pat_completeness auto
termination
  by (relation "measure (\<lambda>(old, new, s). length s)") (auto simp: neq_Nil_conv)

section \<open>Numbers in decimal\<close>

definition digit_char :: "nat \<Rightarrow> nat" where
  "digit_char d = 48 + d"

definition digit_val :: "nat \<Rightarrow> nat" where
  "digit_val c = c - 48"

definition nat_of_digits :: "pystr \<Rightarrow> nat" where
  "nat_of_digits s = foldl (\<lambda>n c. 10 * n + digit_val c) 0 s"

fun str_of_nat :: "nat \<Rightarrow> pystr" where
  "str_of_nat n = (if n < 10 then [digit_char n] else str_of_nat (n div 10) @ [digit_char (n mod 10)])"

declare str_of_nat.simps [simp del]

definition str_of_int :: "int \<Rightarrow> pystr" where
  "str_of_int i = (if i < 0 then [45] else []) @ str_of_nat (nat \<bar>i\<bar>)"

text \<open>\<open>f"{n:0wd}"\<close> for \<open>n\<close> of at most \<open>w\<close> digits.\<close>

fun pad :: "nat \<Rightarrow> nat \<Rightarrow> pystr" where
  "pad 0 n = []"
| "pad (Suc w) n = pad w (n div 10) @ [digit_char (n mod 10)]"

lemma length_pad [simp]: "length (pad w n) = w"
  by (induction w arbitrary: n) auto

lemma pad_digits: "c \<in> set (pad w n) \<Longrightarrow> is_digit c"
  by (induction w arbitrary: n) (auto simp: digit_char_def is_digit_def)

lemma nat_of_digits_snoc: "nat_of_digits (s @ [c]) = 10 * nat_of_digits s + digit_val c"
  by (simp add: nat_of_digits_def)

lemma nat_of_digits_pad: "n < 10 ^ w \<Longrightarrow> nat_of_digits (pad w n) = n"
proof (induction w arbitrary: n)
  case (Suc w)
  then have "n div 10 < 10 ^ w" by (simp add: less_mult_imp_div_less mult.commute)
  with Suc.IH show ?case
    by (simp add: nat_of_digits_snoc digit_val_def digit_char_def)
qed (simp add: nat_of_digits_def)

lemma nat_of_digits_str_of_nat: "nat_of_digits (str_of_nat n) = n"
proof (induction n rule: str_of_nat.induct)
  case (1 n)
  then show ?case
    by (subst str_of_nat.simps)
      (auto simp: nat_of_digits_snoc digit_val_def digit_char_def nat_of_digits_def)
qed

lemma str_of_nat_digits: "c \<in> set (str_of_nat n) \<Longrightarrow> is_digit c"
proof (induction n rule: str_of_nat.induct)
  case (1 n)
  then show ?case
    by (subst (asm) (2) str_of_nat.simps) (auto simp: digit_char_def is_digit_def split: if_splits)
qed

lemma str_of_nat_nonempty [simp]: "str_of_nat n \<noteq> []"
  by (subst str_of_nat.simps) simp

section \<open>Regular expressions\<close>

text \<open>
  A matcher state is the character before the position (for \<open>\<backslash>b\<close> and \<open>^\<close>), the text from the position on
  and the captured groups.
\<close>

datatype rx =
    Eps
  | Cls "nat \<Rightarrow> bool"
  | Many "nat \<Rightarrow> bool"
  | Seq rx rx
  | Alt rx rx
  | Grp nat rx
  | WordB
  | AtStart
  | AtEnd

record rx_state =
  rx_prev :: "nat option"
  rx_rest :: pystr
  rx_groups :: "(nat \<times> pystr) list"

fun rx_word_side :: "nat option \<Rightarrow> bool" where
  "rx_word_side None = False"
| "rx_word_side (Some c) = is_word c"

definition rx_take :: "nat \<Rightarrow> rx_state \<Rightarrow> rx_state" where
  "rx_take n st = st\<lparr>rx_prev := (if n = 0 then rx_prev st else Some (rx_rest st ! (n - 1))),
                    rx_rest := drop n (rx_rest st)\<rparr>"

fun rx_match :: "rx \<Rightarrow> rx_state \<Rightarrow> rx_state list" where
  "rx_match Eps st = [st]"
| "rx_match (Cls P) st =
     (case rx_rest st of [] \<Rightarrow> [] | c # cs \<Rightarrow> if P c then [rx_take 1 st] else [])"
| "rx_match (Many P) st =
     map (\<lambda>n. rx_take n st) (rev [0..<Suc (length (takeWhile P (rx_rest st)))])"
| "rx_match (Seq a b) st = concat (map (rx_match b) (rx_match a st))"
| "rx_match (Alt a b) st = rx_match a st @ rx_match b st"
| "rx_match (Grp n a) st =
     map (\<lambda>st'. st'\<lparr>rx_groups :=
            AList.update n (take (length (rx_rest st) - length (rx_rest st')) (rx_rest st)) (rx_groups st')\<rparr>)
       (rx_match a st)"
| "rx_match WordB st =
     (if rx_word_side (rx_prev st) \<noteq> rx_word_side (case rx_rest st of [] \<Rightarrow> None | c # _ \<Rightarrow> Some c)
      then [st] else [])"
| "rx_match AtStart st = (if rx_prev st = None then [st] else [])"
| "rx_match AtEnd st = (if rx_rest st = [] \<or> rx_rest st = [10] then [st] else [])"

text \<open>Sequences, \<open>a?\<close>, \<open>P+\<close>, \<open>P{n}\<close>, and words matched as written or ignoring case.\<close>

fun rx_seq :: "rx list \<Rightarrow> rx" where
  "rx_seq [] = Eps"
| "rx_seq [r] = r"
| "rx_seq (r # rs) = Seq r (rx_seq rs)"

fun rx_alt :: "rx list \<Rightarrow> rx" where
  "rx_alt [] = Cls (\<lambda>_. False)"
| "rx_alt [r] = r"
| "rx_alt (r # rs) = Alt r (rx_alt rs)"

definition rx_opt :: "rx \<Rightarrow> rx" where
  "rx_opt r = Alt r Eps"

definition rx_plus :: "(nat \<Rightarrow> bool) \<Rightarrow> rx" where
  "rx_plus P = Seq (Cls P) (Many P)"

definition rx_times :: "nat \<Rightarrow> (nat \<Rightarrow> bool) \<Rightarrow> rx" where
  "rx_times n P = rx_seq (replicate n (Cls P))"

definition rx_chr :: "nat \<Rightarrow> rx" where
  "rx_chr c = Cls (\<lambda>d. d = c)"

definition rx_word :: "string \<Rightarrow> rx" where
  "rx_word w = rx_seq (map rx_chr (lit w))"

text \<open>
  Ignoring case, \<open>re\<close> also lets the long s, the Kelvin sign and the dotless and dotted i match
  \<open>s\<close>, \<open>k\<close> and \<open>i\<close>, and the Greek letter mu match the micro sign.
\<close>

definition ci_eq :: "nat \<Rightarrow> nat \<Rightarrow> bool" where
  "ci_eq p c \<longleftrightarrow> lower_char c = lower_char p \<or> (lower_char p = 115 \<and> c = 0x17F) \<or>
     (lower_char p = 107 \<and> c = 0x212A) \<or> (lower_char p = 105 \<and> (c = 0x130 \<or> c = 0x131)) \<or>
     (p = 0xB5 \<and> (c = 0x3BC \<or> c = 0x39C))"

definition rx_text_ci :: "pystr \<Rightarrow> rx" where
  "rx_text_ci w = rx_seq (map (\<lambda>p. Cls (ci_eq p)) w)"

definition rx_word_ci :: "string \<Rightarrow> rx" where
  "rx_word_ci w = rx_text_ci (lit w)"

text \<open>\<open>re.match\<close> at the start of the text and \<open>re.search\<close> at the leftmost position.\<close>

record rx_hit =
  hit_start :: nat
  hit_text :: pystr
  hit_rest :: pystr
  hit_groups :: "(nat \<times> pystr) list"

definition rx_at :: "rx \<Rightarrow> nat option \<Rightarrow> pystr \<Rightarrow> nat \<Rightarrow> rx_hit option" where
  "rx_at r prev s i =
     (case rx_match r \<lparr>rx_prev = prev, rx_rest = s, rx_groups = []\<rparr> of
        [] \<Rightarrow> None
      | st # _ \<Rightarrow> Some \<lparr>hit_start = i, hit_text = take (length s - length (rx_rest st)) s,
                       hit_rest = rx_rest st, hit_groups = rx_groups st\<rparr>)"

fun rx_search_from :: "rx \<Rightarrow> nat option \<Rightarrow> pystr \<Rightarrow> nat \<Rightarrow> rx_hit option" where
  "rx_search_from r prev [] i = rx_at r prev [] i"
| "rx_search_from r prev (c # cs) i =
     (case rx_at r prev (c # cs) i of Some h \<Rightarrow> Some h | None \<Rightarrow> rx_search_from r (Some c) cs (Suc i))"

definition re_match :: "rx \<Rightarrow> pystr \<Rightarrow> rx_hit option" where
  "re_match r s = rx_at r None s 0"

definition re_search :: "rx \<Rightarrow> pystr \<Rightarrow> rx_hit option" where
  "re_search r s = rx_search_from r None s 0"

definition hit_group :: "nat \<Rightarrow> rx_hit \<Rightarrow> pystr" where
  "hit_group n h = (case map_of (hit_groups h) n of Some t \<Rightarrow> t | None \<Rightarrow> [])"

text \<open>A match is a substring of the text.\<close>

lemma rx_match_suffix: "st' \<in> set (rx_match r st) \<Longrightarrow> \<exists>t. rx_rest st = t @ rx_rest st'"
proof (induction r arbitrary: st st')
  case (Cls P)
  then show ?case
    by (auto simp: rx_take_def split: list.splits if_splits intro: exI [of _ "take 1 (rx_rest st)"])
next
  case (Many P)
  then obtain n where "st' = rx_take n st" by auto
  then have "rx_rest st = take n (rx_rest st) @ rx_rest st'" by (simp add: rx_take_def)
  then show ?case by blast
next
  case (Seq a b)
  then obtain m where m: "m \<in> set (rx_match a st)" "st' \<in> set (rx_match b m)" by auto
  then obtain u v where "rx_rest st = u @ rx_rest m" "rx_rest m = v @ rx_rest st'"
    using Seq.IH by blast
  then show ?case by auto
qed (fastforce split: if_splits)+

lemma rx_at_substring:
  assumes "rx_at r prev s i = Some h"
  shows "s = hit_text h @ hit_rest h" and "hit_start h = i"
proof -
  let ?st = "\<lparr>rx_prev = prev, rx_rest = s, rx_groups = []\<rparr>"
  from assms obtain st sts where m: "rx_match r ?st = st # sts"
    by (auto simp: rx_at_def split: list.splits)
  then have st: "st \<in> set (rx_match r ?st)" by simp
  have h: "hit_text h = take (length s - length (rx_rest st)) s" "hit_rest h = rx_rest st"
      "hit_start h = i"
    using assms m by (auto simp: rx_at_def)
  from rx_match_suffix [OF st] h show "s = hit_text h @ hit_rest h" and "hit_start h = i" by auto
qed

lemma rx_search_from_substring:
  "rx_search_from r prev s i = Some h \<Longrightarrow>
     \<exists>u. s = u @ hit_text h @ hit_rest h \<and> hit_start h = i + length u"
proof (induction r prev s i rule: rx_search_from.induct)
  case (1 r prev i)
  then show ?case using rx_at_substring [of r prev "[]" i h] by auto
next
  case (2 r prev c cs i)
  show ?case
  proof (cases "rx_at r prev (c # cs) i")
    case None
    with 2 obtain u where "cs = u @ hit_text h @ hit_rest h" "hit_start h = Suc i + length u"
      by auto
    then show ?thesis by (intro exI [of _ "c # u"]) simp
  next
    case (Some h')
    with 2 show ?thesis using rx_at_substring [of r prev "c # cs" i h] by auto
  qed
qed

lemma re_search_substring:
  "re_search r s = Some h \<Longrightarrow> \<exists>u. s = u @ hit_text h @ hit_rest h \<and> hit_start h = length u"
  using rx_search_from_substring [of r None s 0 h] by (simp add: re_search_def)

text \<open>
  \<open>re.findall\<close>: the leftmost match, then the rest of the text after it; an empty match moves on by one
  character.
\<close>

function re_findall_from :: "rx \<Rightarrow> nat option \<Rightarrow> pystr \<Rightarrow> rx_hit list" where
  "re_findall_from r prev s =
     (case rx_search_from r prev s 0 of
        None \<Rightarrow> []
      | Some h \<Rightarrow>
          if hit_rest h = [] then [h]
          else if hit_text h = [] then h # re_findall_from r (Some (hd (hit_rest h))) (tl (hit_rest h))
          else h # re_findall_from r (Some (last (hit_text h))) (hit_rest h))"
  by pat_completeness auto
termination
proof (relation "measure (\<lambda>(r, prev, s). length s)", goal_cases)
  case (2 r prev s h)
  with rx_search_from_substring [of r prev s 0 h] show ?case by (cases "hit_rest h") auto
next
  case (3 r prev s h)
  with rx_search_from_substring [of r prev s 0 h] show ?case by (cases "hit_text h") auto
qed simp

definition re_findall :: "rx \<Rightarrow> pystr \<Rightarrow> rx_hit list" where
  "re_findall r s = re_findall_from r None s"

end
