(* ===== verification/Timestamps.thy ===== *)
theory Timestamps
  imports Py_Text
begin

text \<open>
  Timestamps: \<open>datetime.fromisoformat\<close> as documented for Python 3.11 and later (calendar and week dates,
  basic and extended times, \<open>Z\<close> or a numeric offset), and the functions of the program on top of it:
  \<open>parse_ts\<close> and \<open>short_ts\<close> (bundle_compression.py), the ISO-8601 validator (contracts.py), the sort key
  \<open>_chron\<close> (signal_selector.py) and \<open>_to_spring_ts\<close> (spring_client.py). CPython also accepts a few
  malformed strings beyond the documented grammar, such as characters between a full time and the
  offset; the model rejects them.
\<close>

section \<open>Calendar\<close>

definition is_leap :: "nat \<Rightarrow> bool" where
  "is_leap y \<longleftrightarrow> 4 dvd y \<and> (\<not> 100 dvd y \<or> 400 dvd y)"

definition days_in_month :: "nat \<Rightarrow> nat \<Rightarrow> nat" where
  "days_in_month y m =
     (if m = 2 then (if is_leap y then 29 else 28) else if m \<in> {4, 6, 9, 11} then 30 else 31)"

definition days_before_year :: "nat \<Rightarrow> int" where
  "days_before_year y =
     (let p = int y - 1 in p * 365 + p div 4 - p div 100 + p div 400)"

definition days_before_month :: "nat \<Rightarrow> nat \<Rightarrow> nat" where
  "days_before_month y m = sum_list (map (days_in_month y) [1..<m])"

definition ymd2ord :: "nat \<Rightarrow> nat \<Rightarrow> nat \<Rightarrow> int" where
  "ymd2ord y m d = days_before_year y + int (days_before_month y m) + int d"

definition valid_date :: "nat \<Rightarrow> nat \<Rightarrow> nat \<Rightarrow> bool" where
  "valid_date y m d \<longleftrightarrow> 1 \<le> y \<and> y \<le> 9999 \<and> 1 \<le> m \<and> m \<le> 12 \<and> 1 \<le> d \<and> d \<le> days_in_month y m"

text \<open>The next and the previous day; the arithmetic of \<open>datetime\<close> raises outside years 1 to 9999.\<close>

definition next_day :: "nat \<times> nat \<times> nat \<Rightarrow> nat \<times> nat \<times> nat" where
  "next_day = (\<lambda>(y, m, d).
     if d < days_in_month y m then (y, m, d + 1)
     else if m < 12 then (y, m + 1, 1) else (y + 1, 1, 1))"

definition prev_day :: "nat \<times> nat \<times> nat \<Rightarrow> nat \<times> nat \<times> nat" where
  "prev_day = (\<lambda>(y, m, d).
     if 1 < d then (y, m, d - 1)
     else if 1 < m then (y, m - 1, days_in_month y (m - 1)) else (y - 1, 12, 31))"

lemma days_before_month_Suc:
  "1 \<le> m \<Longrightarrow> days_before_month y (Suc m) = days_before_month y m + days_in_month y m"
  by (simp add: days_before_month_def)

lemma days_before_month_1 [simp]: "days_before_month y (Suc 0) = 0"
  by (simp add: days_before_month_def)

lemma days_of_year: "days_before_month y 12 + days_in_month y 12 = (if is_leap y then 366 else 365)"
  by (simp add: days_before_month_def days_in_month_def upt_conv_Cons numeral_2_eq_2 [symmetric])

lemma int_div_pred:
  assumes "1 \<le> y"
  shows "int y div int k = (int y - 1) div int k + (if k dvd y then 1 else 0)"
proof -
  obtain p where y: "y = Suc p" using assms by (cases y) auto
  then have "(int y - 1) div int k = int (p div k)" and "int y div int k = int (Suc p div k)"
    by (simp_all only: of_nat_div of_nat_Suc add_diff_cancel_left' add_diff_cancel_right')
  then show ?thesis by (simp add: div_Suc y dvd_eq_mod_eq_0)
qed

lemma days_before_year_Suc:
  assumes "1 \<le> y"
  shows "days_before_year (Suc y) = days_before_year y + (if is_leap y then 366 else 365)"
proof -
  define a where "a k = (int y - 1) div k" for k
  define b :: "nat \<Rightarrow> int" where "b k = (if k dvd y then 1 else 0)" for k
  have d: "int y div 4 = a 4 + b 4" "int y div 100 = a 100 + b 100" "int y div 400 = a 400 + b 400"
    using int_div_pred [OF assms, of 4] int_div_pred [OF assms, of 100] int_div_pred [OF assms, of 400]
    by (simp_all add: a_def b_def)
  have "400 dvd y \<Longrightarrow> 100 dvd y" and "100 dvd y \<Longrightarrow> 4 dvd y"
    by (rule dvd_trans [of 100 400], simp_all, rule dvd_trans [of 4 100], simp_all)
  then have "(if is_leap y then 366 else 365) = 365 + b 4 - b 100 + b 400"
    unfolding is_leap_def b_def by (cases "4 dvd y"; cases "100 dvd y"; cases "400 dvd y") simp_all
  moreover have "days_before_year y = (int y - 1) * 365 + a 4 - a 100 + a 400"
    by (simp add: days_before_year_def Let_def a_def)
  moreover have "days_before_year (Suc y) =
      int y * 365 + (a 4 + b 4) - (a 100 + b 100) + (a 400 + b 400)"
  proof -
    have "int (Suc y) - 1 = int y" by simp
    then show ?thesis unfolding days_before_year_def Let_def by (simp only: d)
  qed
  ultimately show ?thesis by (simp only: algebra_simps)
qed

lemma next_day_ord:
  assumes "valid_date y m d" and "next_day (y, m, d) = (y', m', d')"
  shows "ymd2ord y' m' d' = ymd2ord y m d + 1"
proof -
  consider "d < days_in_month y m" | "d = days_in_month y m" "m < 12"
    | "d = days_in_month y m" "m = 12"
    using assms(1) by (auto simp: valid_date_def le_less)
  then show ?thesis
  proof cases
    case 1
    with assms show ?thesis by (auto simp: next_day_def ymd2ord_def)
  next
    case 2
    with assms show ?thesis
      by (auto simp: next_day_def ymd2ord_def valid_date_def days_before_month_Suc)
  next
    case 3
    with assms days_of_year [of y] show ?thesis
      by (auto simp: next_day_def ymd2ord_def valid_date_def days_before_year_Suc split: if_splits)
  qed
qed

lemma days_in_month_pos [simp]: "0 < days_in_month y m" "Suc 0 \<le> days_in_month y m"
  by (simp_all add: days_in_month_def)

lemma days_in_month_1 [simp]: "days_in_month y (Suc 0) = 31" "days_in_month y 12 = 31"
  by (simp_all add: days_in_month_def)

lemma next_day_valid:
  assumes "valid_date y m d" and "next_day (y, m, d) = (y', m', d')" and "y' \<le> 9999"
  shows "valid_date y' m' d'"
  using assms by (auto simp: next_day_def valid_date_def split: if_splits)

lemma prev_day_valid:
  assumes "valid_date y m d" and "prev_day (y, m, d) = (y', m', d')" and "1 \<le> y'"
  shows "valid_date y' m' d'"
  using assms by (auto simp: prev_day_def valid_date_def split: if_splits)

lemma next_prev_day:
  assumes "valid_date y m d" and "prev_day (y, m, d) = (y', m', d')" and "1 \<le> y'"
  shows "next_day (y', m', d') = (y, m, d)"
  using assms by (auto simp: prev_day_def next_day_def valid_date_def split: if_splits)

lemma prev_day_ord:
  assumes "valid_date y m d" and "prev_day (y, m, d) = (y', m', d')" and "1 \<le> y'"
  shows "ymd2ord y' m' d' = ymd2ord y m d - 1"
  using next_day_ord [OF prev_day_valid [OF assms] next_prev_day [OF assms]] by simp

section \<open>Datetimes\<close>

text \<open>\<open>dt_tz\<close> is the offset from UTC in microseconds, \<open>None\<close> for a naive value.\<close>

record datetime =
  dt_year :: nat
  dt_month :: nat
  dt_day :: nat
  dt_hour :: nat
  dt_minute :: nat
  dt_second :: nat
  dt_micro :: nat
  dt_tz :: "int option"

definition day_us :: int where
  "day_us = 86400000000"

definition wf_datetime :: "datetime \<Rightarrow> bool" where
  "wf_datetime t \<longleftrightarrow> valid_date (dt_year t) (dt_month t) (dt_day t) \<and>
     dt_hour t < 24 \<and> dt_minute t < 60 \<and> dt_second t < 60 \<and> dt_micro t < 1000000 \<and>
     (case dt_tz t of None \<Rightarrow> True | Some off \<Rightarrow> \<bar>off\<bar> < day_us)"

definition day_time :: "datetime \<Rightarrow> int" where
  "day_time t =
     ((int (dt_hour t) * 60 + int (dt_minute t)) * 60 + int (dt_second t)) * 1000000 + int (dt_micro t)"

text \<open>The wall-clock value and the instant, in microseconds; a naive value is read as UTC.\<close>

definition wall :: "datetime \<Rightarrow> int" where
  "wall t = ymd2ord (dt_year t) (dt_month t) (dt_day t) * day_us + day_time t"

definition instant :: "datetime \<Rightarrow> int" where
  "instant t = wall t - (case dt_tz t of None \<Rightarrow> 0 | Some off \<Rightarrow> off)"

text \<open>\<open>a < b\<close>: naive with naive, aware with aware; a mixture raises \<open>TypeError\<close>.\<close>

definition dt_less :: "datetime \<Rightarrow> datetime \<Rightarrow> bool res" where
  "dt_less a b =
     (if (dt_tz a = None) = (dt_tz b = None) then Inr (instant a < instant b) else Inl TypeError)"

section \<open>Parsing\<close>

definition take_digits :: "nat \<Rightarrow> pystr \<Rightarrow> (nat \<times> pystr) option" where
  "take_digits n s =
     (if n \<le> length s \<and> list_all is_digit (take n s)
      then Some (nat_of_digits (take n s), drop n s) else None)"

text \<open>Where the date ends in a text of at least 7 characters (the heuristic of CPython).\<close>

definition date_end :: "pystr \<Rightarrow> nat option" where
  "date_end s =
     (if length s = 7 then Some 7
      else if s ! 4 = 45 then
        (if s ! 5 = 87 then
           (if 8 < length s \<and> s ! 8 = 45 then
              (if length s = 9 then None
               else if 10 < length s \<and> is_digit (s ! 10) then Some 8 else Some 10)
            else Some 8)
         else Some 10)
      else if s ! 4 = 87 then
        (let idx = 7 + length (takeWhile is_digit (drop 7 s))
         in if idx < 9 then Some idx else if even idx then Some 7 else Some 8)
      else Some 8)"

text \<open>ISO weeks: Monday of week 1 is the Monday of the week that holds 4 January.\<close>

definition week1_monday :: "nat \<Rightarrow> int" where
  "week1_monday y =
     (let first = ymd2ord y 1 1; wd = (first + 6) mod 7; mon = first - wd
      in if 3 < wd then mon + 7 else mon)"

fun month_of_yday :: "nat \<Rightarrow> nat list \<Rightarrow> nat \<Rightarrow> nat \<times> nat" where
  "month_of_yday y [] d = (12, d)"
| "month_of_yday y (m # ms) d =
     (if d \<le> days_in_month y m then (m, d) else month_of_yday y ms (d - days_in_month y m))"

definition date_of_ord_near :: "nat \<Rightarrow> int \<Rightarrow> nat \<times> nat \<times> nat" where
  "date_of_ord_near y n =
     (let y' = (if n \<le> days_before_year y then y - 1
                else if n \<le> days_before_year (y + 1) then y else y + 1)
      in (y', month_of_yday y' [1..<13] (nat (n - days_before_year y'))))"

definition date_of_week :: "nat \<Rightarrow> nat \<Rightarrow> nat \<Rightarrow> (nat \<times> nat \<times> nat) option" where
  "date_of_week y w d =
     (if 1 \<le> y \<and> y \<le> 9999 \<and> 1 \<le> w \<and> 1 \<le> d \<and> d \<le> 7 \<and>
         int w \<le> (week1_monday (y + 1) - week1_monday y) div 7
      then Some (date_of_ord_near y (week1_monday y + (int w - 1) * 7 + (int d - 1)))
      else None)"

definition parse_iso_date :: "pystr \<Rightarrow> (nat \<times> nat \<times> nat) option" where
  "parse_iso_date s =
     Option.bind (take_digits 4 s) (\<lambda>(y, s1).
       let sep = (case s1 of c # _ \<Rightarrow> c = 45 | [] \<Rightarrow> False);
           s2 = (if sep then tl s1 else s1)
       in case s2 of
            [] \<Rightarrow> None
          | c # s3 \<Rightarrow>
              if c = 87 then
                Option.bind (take_digits 2 s3) (\<lambda>(w, s4).
                  case s4 of
                    [] \<Rightarrow> date_of_week y w 1
                  | e # s5 \<Rightarrow>
                      if (e = 45) \<noteq> sep then None
                      else Option.bind (take_digits 1 (if sep then s5 else s4)) (\<lambda>(d, s6).
                        if s6 = [] then date_of_week y w d else None))
              else
                Option.bind (take_digits 2 s2) (\<lambda>(m, s4).
                  case s4 of
                    [] \<Rightarrow> None
                  | e # s5 \<Rightarrow>
                      if (e = 45) \<noteq> sep then None
                      else Option.bind (take_digits 2 (if sep then s5 else s4)) (\<lambda>(d, s6).
                        if s6 = [] then Some (y, m, d) else None)))"

text \<open>The fraction of a second: at least one digit, the first six count.\<close>

definition parse_fraction :: "pystr \<Rightarrow> nat option" where
  "parse_fraction s =
     (case s of
        [] \<Rightarrow> Some 0
      | c # ds \<Rightarrow>
          if (c = 46 \<or> c = 44) \<and> ds \<noteq> [] \<and> list_all is_digit ds
          then Some (nat_of_digits (take 6 (ds @ replicate 6 48))) else None)"

definition parse_clock :: "pystr \<Rightarrow> (nat \<times> nat \<times> nat \<times> nat) option" where
  "parse_clock s =
     Option.bind (take_digits 2 s) (\<lambda>(h, s1).
       if s1 = [] then Some (h, 0, 0, 0)
       else let ext = (hd s1 = 58) in
         Option.bind (take_digits 2 (if ext then tl s1 else s1)) (\<lambda>(mi, s2).
           if s2 = [] then Some (h, mi, 0, 0)
           else if ext \<and> hd s2 \<noteq> 58 then None
           else Option.bind (take_digits 2 (if ext then tl s2 else s2)) (\<lambda>(sec, s3).
             map_option (\<lambda>us. (h, mi, sec, us)) (parse_fraction s3))))"

definition is_tz_char :: "nat \<Rightarrow> bool" where
  "is_tz_char c \<longleftrightarrow> c = 43 \<or> c = 45 \<or> c = 90"

definition parse_tz :: "pystr \<Rightarrow> int option option" where
  "parse_tz s =
     (case s of
        [] \<Rightarrow> Some None
      | c # r \<Rightarrow>
          if c = 90 then (if r = [] then Some (Some 0) else None)
          else map_option (\<lambda>(h, mi, sec, us).
                 Some ((if c = 45 then -1 else 1) *
                       (((int h * 60 + int mi) * 60 + int sec) * 1000000 + int us))) (parse_clock r))"

definition fromisoformat :: "pystr \<Rightarrow> datetime option" where
  "fromisoformat s =
     (if length s < 7 then None
      else Option.bind (date_end s) (\<lambda>n.
        Option.bind (parse_iso_date (take n s)) (\<lambda>(y, m, d).
          let ts = drop (Suc n) s in
          Option.bind
            (if length s \<le> n then Some ((0, 0, 0, 0), None)
             else Option.bind (parse_clock (takeWhile (Not \<circ> is_tz_char) ts)) (\<lambda>clk.
                    map_option (Pair clk) (parse_tz (dropWhile (Not \<circ> is_tz_char) ts))))
            (\<lambda>((h, mi, sec, us), tz).
               let t = \<lparr>dt_year = y, dt_month = m, dt_day = d, dt_hour = h, dt_minute = mi,
                        dt_second = sec, dt_micro = us, dt_tz = tz\<rparr>
               in if wf_datetime t then Some t else None))))"

lemma fromisoformat_wf: "fromisoformat s = Some t \<Longrightarrow> wf_datetime t"
  by (auto simp: fromisoformat_def Let_def bind_eq_Some_conv split: if_splits prod.splits)

section \<open>The program's functions\<close>

definition parse_ts :: "pystr \<Rightarrow> datetime option" where
  "parse_ts ts = fromisoformat ts"

definition valid_iso8601 :: "pystr \<Rightarrow> bool" where
  "valid_iso8601 v \<longleftrightarrow> fromisoformat v \<noteq> None"

text \<open>\<open>_chron\<close>: aware values compare by instant, naive ones are UTC, unparsable ones are first.\<close>

definition unknown_time :: int where
  "unknown_time = ymd2ord 1 1 1 * day_us"

definition chron :: "pystr \<Rightarrow> int" where
  "chron ts = (case parse_ts ts of None \<Rightarrow> unknown_time | Some t \<Rightarrow> instant t)"

definition rx_hms :: rx where
  "rx_hms = rx_seq [rx_times 2 is_digit, rx_chr 58, rx_times 2 is_digit, rx_chr 58,
                    rx_times 2 is_digit]"

definition rx_short_ts :: rx where
  "rx_short_ts = rx_seq [rx_hms, rx_opt (rx_seq [rx_chr 46, rx_plus is_digit])]"

definition short_ts :: "pystr \<Rightarrow> pystr" where
  "short_ts ts = (case re_search rx_short_ts ts of Some h \<Rightarrow> hit_text h | None \<Rightarrow> ts)"

text \<open>\<open>dt.astimezone(timezone.utc)\<close> on an aware value.\<close>

definition to_utc :: "datetime \<Rightarrow> int \<Rightarrow> datetime res" where
  "to_utc t off =
     (let w = day_time t - off; k = w div day_us; r = nat (w mod day_us);
          (y, m, d) = (if k < 0 then prev_day else if 0 < k then next_day else id)
                        (dt_year t, dt_month t, dt_day t)
      in if y < 1 \<or> 9999 < y then Inl OverflowError
         else Inr \<lparr>dt_year = y, dt_month = m, dt_day = d,
                  dt_hour = r div 3600000000, dt_minute = r div 60000000 mod 60,
                  dt_second = r div 1000000 mod 60, dt_micro = r mod 1000000, dt_tz = Some 0\<rparr>)"

text \<open>\<open>isoformat\<close> with \<open>timespec\<close> microseconds or seconds, on a UTC value.\<close>

definition isoformat_utc :: "datetime \<Rightarrow> pystr" where
  "isoformat_utc t =
     pad 4 (dt_year t) @ 45 # pad 2 (dt_month t) @ 45 # pad 2 (dt_day t) @ 84 #
     pad 2 (dt_hour t) @ 58 # pad 2 (dt_minute t) @ 58 # pad 2 (dt_second t) @
     (if dt_micro t = 0 then [] else 46 # pad 6 (dt_micro t)) @ lit ''+00:00''"

definition to_spring_ts :: "pystr \<Rightarrow> pystr res" where
  "to_spring_ts value =
     (case parse_ts value of
        None \<Rightarrow> Inl (ValueError value)
      | Some t \<Rightarrow>
          rbind (case dt_tz t of None \<Rightarrow> Inr (t\<lparr>dt_tz := Some 0\<rparr>) | Some off \<Rightarrow> to_utc t off)
            (\<lambda>u. Inr (str_replace (lit ''+00:00'') (lit ''Z'') (isoformat_utc u))))"

section \<open>Conversion to UTC keeps the instant\<close>

lemma hms_us_split:
  "((r div 3600000000 * 60 + r div 60000000 mod 60) * 60 + r div 1000000 mod 60) * 1000000
     + r mod 1000000 = r" for r :: nat
proof -
  have h: "r div 3600000000 = r div 60000000 div 60" and m: "r div 60000000 = r div 1000000 div 60"
    by (simp_all flip: div_mult2_eq)
  have "r div 3600000000 * 60 + r div 60000000 mod 60 = r div 60000000"
    unfolding h by (rule div_mult_mod_eq)
  moreover have "r div 60000000 * 60 + r div 1000000 mod 60 = r div 1000000"
    unfolding m by (rule div_mult_mod_eq)
  ultimately show ?thesis by simp
qed

lemma to_utc_day:
  assumes "wf_datetime t" and "dt_tz t = Some off" and "k = (day_time t - off) div day_us"
  shows "k \<in> {-1, 0, 1}"
proof -
  have "day_time t < day_us" and "0 \<le> day_time t" and "\<bar>off\<bar> < day_us"
    using assms(1,2) by (auto simp: wf_datetime_def day_time_def day_us_def)
  then have "- day_us < day_time t - off" and "day_time t - off < 2 * day_us" by linarith+
  then show ?thesis using assms(3) unfolding day_us_def by auto
qed

lemma to_utc_correct:
  assumes wf: "wf_datetime t" and tz: "dt_tz t = Some off" and u: "to_utc t off = Inr u"
  shows "wf_datetime u" and "dt_tz u = Some 0" and "instant u = instant t"
proof -
  define w where "w = day_time t - off"
  define k where "k = w div day_us"
  define r where "r = nat (w mod day_us)"
  obtain y m d where ymd: "(if k < 0 then prev_day else if 0 < k then next_day else id)
      (dt_year t, dt_month t, dt_day t) = (y, m, d)" by (metis prod_cases3)
  have y: "1 \<le> y" "y \<le> 9999"
    and ueq: "u = \<lparr>dt_year = y, dt_month = m, dt_day = d,
                  dt_hour = r div 3600000000, dt_minute = r div 60000000 mod 60,
                  dt_second = r div 1000000 mod 60, dt_micro = r mod 1000000, dt_tz = Some 0\<rparr>"
    using u ymd by (auto simp: to_utc_def Let_def w_def k_def r_def split: if_splits)
  have r: "int r = w mod day_us" by (simp add: r_def day_us_def)
  then have r24: "r < 86400000000" by (simp add: day_us_def)
  have vd: "valid_date (dt_year t) (dt_month t) (dt_day t)" using wf by (simp add: wf_datetime_def)
  have "k \<in> {-1, 0, 1}" using to_utc_day [OF wf tz] by (simp add: k_def w_def)
  then have ord: "ymd2ord y m d = ymd2ord (dt_year t) (dt_month t) (dt_day t) + k"
    and vd': "valid_date y m d"
    using ymd y vd next_day_ord [OF vd] prev_day_ord [OF vd] next_day_valid [OF vd] prev_day_valid [OF vd]
    by (auto split: if_splits)
  have "r div 3600000000 < 24" using r24 by (simp add: less_mult_imp_div_less)
  then show "wf_datetime u" using vd' by (simp add: wf_datetime_def ueq day_us_def)
  show "dt_tz u = Some 0" by (simp add: ueq)
  have "day_time u = int (((r div 3600000000 * 60 + r div 60000000 mod 60) * 60
      + r div 1000000 mod 60) * 1000000 + r mod 1000000)"
    by (simp add: day_time_def ueq)
  then have dt: "day_time u = w mod day_us" by (simp only: hms_us_split r)
  have wd: "w = k * day_us + w mod day_us" by (simp add: k_def)
  have "wall u = (ymd2ord (dt_year t) (dt_month t) (dt_day t) + k) * day_us + w mod day_us"
    unfolding wall_def dt by (simp add: ueq ord)
  also have "\<dots> = ymd2ord (dt_year t) (dt_month t) (dt_day t) * day_us + w"
    using wd by (simp add: distrib_right)
  finally show "instant u = instant t"
    using \<open>dt_tz u = Some 0\<close> by (simp add: instant_def tz wall_def [of t] w_def)
qed

section \<open>Reading back what is printed\<close>

lemma take_digits_pad: "n < 10 ^ w \<Longrightarrow> take_digits w (pad w n @ s) = Some (n, s)"
  by (auto simp: take_digits_def nat_of_digits_pad list_all_iff dest: pad_digits)

lemma take_digits_pad_Nil: "n < 10 ^ w \<Longrightarrow> take_digits w (pad w n) = Some (n, [])"
  using take_digits_pad [of n w "[]"] by simp

lemma pad_not_tz: "c \<in> set (pad w n) \<Longrightarrow> \<not> is_tz_char c"
  by (auto dest!: pad_digits simp: is_digit_def is_tz_char_def)

text \<open>The time part as printed, and the whole text.\<close>

definition clock_text :: "datetime \<Rightarrow> pystr" where
  "clock_text t = pad 2 (dt_hour t) @ 58 # pad 2 (dt_minute t) @ 58 # pad 2 (dt_second t) @
     (if dt_micro t = 0 then [] else 46 # pad 6 (dt_micro t))"

definition spring_text :: "datetime \<Rightarrow> pystr" where
  "spring_text t =
     pad 4 (dt_year t) @ 45 # pad 2 (dt_month t) @ 45 # pad 2 (dt_day t) @ 84 # clock_text t @ [90]"

lemma str_replace_skip:
  "old \<noteq> [] \<Longrightarrow> hd old \<notin> set u \<Longrightarrow> str_replace old new (u @ v) = u @ str_replace old new v"
proof (induction u)
  case (Cons c u)
  then have "\<not> starts_with (c # u @ v) old" by (cases old) auto
  with Cons show ?case by simp
qed simp

lemma clock_text_plain: "c \<in> set (clock_text t) \<Longrightarrow> is_digit c \<or> c = 58 \<or> c = 46"
  by (auto simp: clock_text_def dest: pad_digits split: if_splits)

lemma isoformat_replace:
  "str_replace (lit ''+00:00'') (lit ''Z'') (isoformat_utc t) = spring_text t"
proof -
  let ?u = "pad 4 (dt_year t) @ 45 # pad 2 (dt_month t) @ 45 # pad 2 (dt_day t) @ 84 # clock_text t"
  have iso: "isoformat_utc t = ?u @ lit ''+00:00''"
    by (simp add: isoformat_utc_def clock_text_def)
  have "(43::nat) \<notin> set ?u"
    by (auto simp: is_digit_def dest: pad_digits clock_text_plain)
  then have "str_replace (lit ''+00:00'') (lit ''Z'') (isoformat_utc t)
      = ?u @ str_replace (lit ''+00:00'') (lit ''Z'') (lit ''+00:00'')"
    unfolding iso by (intro str_replace_skip) simp_all
  then show ?thesis by (simp add: spring_text_def)
qed

lemma parse_fraction_pad:
  "us < 1000000 \<Longrightarrow> parse_fraction (if us = 0 then [] else 46 # pad 6 us) = Some us"
proof -
  assume us: "us < 1000000"
  have "list_all is_digit (pad 6 us)" by (auto simp: list_all_iff dest: pad_digits)
  moreover have "pad 6 us \<noteq> []" using length_pad [of 6 us] by (metis list.size(3) zero_neq_numeral)
  moreover have "nat_of_digits (pad 6 us) = us" using us by (intro nat_of_digits_pad) simp
  ultimately show ?thesis by (simp add: parse_fraction_def)
qed

lemma parse_clock_text:
  assumes "wf_datetime t"
  shows "parse_clock (clock_text t) = Some (dt_hour t, dt_minute t, dt_second t, dt_micro t)"
proof -
  have "dt_hour t < 10 ^ 2" "dt_minute t < 10 ^ 2" "dt_second t < 10 ^ 2" "dt_micro t < 1000000"
    using assms by (auto simp: wf_datetime_def)
  then show ?thesis
    using parse_fraction_pad [of "dt_micro t"]
    by (simp add: parse_clock_def clock_text_def take_digits_pad)
qed

lemma parse_iso_date_pad:
  assumes "valid_date y m d"
  shows "parse_iso_date (pad 4 y @ 45 # pad 2 m @ 45 # pad 2 d) = Some (y, m, d)"
proof -
  have "days_in_month y m \<le> 31" by (simp add: days_in_month_def)
  then have lt: "y < 10 ^ 4" "m < 10 ^ 2" "d < 10 ^ 2" using assms by (auto simp: valid_date_def)
  have tens: "pad 2 m = [digit_char (m div 10 mod 10), digit_char (m mod 10)]"
    by (simp add: numeral_2_eq_2)
  have "take_digits 2 (digit_char (m div 10 mod 10) # digit_char (m mod 10) # s) = Some (m, s)" for s
    using take_digits_pad [OF lt(2), of s] by (simp add: tens)
  moreover have "digit_char (m div 10 mod 10) \<noteq> 87"
    using mod_less_divisor [of 10 "m div 10"] by (simp add: digit_char_def del: mod_less_divisor)
  ultimately show ?thesis
    by (simp add: parse_iso_date_def tens take_digits_pad [OF lt(1)] take_digits_pad_Nil [OF lt(3)])
qed

lemma parse_spring_text:
  assumes wf: "wf_datetime t" and tz: "dt_tz t = Some 0"
  shows "parse_ts (spring_text t) = Some t"
proof -
  let ?d = "pad 4 (dt_year t) @ 45 # pad 2 (dt_month t) @ 45 # pad 2 (dt_day t)"
  have s: "spring_text t = ?d @ 84 # clock_text t @ [90]" by (simp add: spring_text_def)
  have len: "length ?d = 10" by simp
  have tens: "pad 2 (dt_month t) = [digit_char (dt_month t div 10 mod 10), digit_char (dt_month t mod 10)]"
    by (simp add: numeral_2_eq_2)
  have "spring_text t ! 4 = 45" and s5: "spring_text t ! 5 = digit_char (dt_month t div 10 mod 10)"
    by (simp_all add: s nth_append tens)
  moreover have "digit_char (dt_month t div 10 mod 10) \<noteq> 87"
    using mod_less_divisor [of 10 "dt_month t div 10"] by (simp add: digit_char_def del: mod_less_divisor)
  moreover have long: "length (spring_text t) > 11" using len by (simp add: s clock_text_def)
  ultimately have "date_end (spring_text t) = Some 10" by (simp add: date_end_def)
  moreover have "parse_iso_date (take 10 (spring_text t)) = Some (dt_year t, dt_month t, dt_day t)"
    using wf len by (simp add: s parse_iso_date_pad wf_datetime_def del: append_assoc)
  moreover have drop: "drop (Suc 10) (spring_text t) = clock_text t @ [90]"
    using len by (simp add: s del: append_assoc)
  moreover have plain: "\<forall>c\<in>set (clock_text t). \<not> is_tz_char c"
    by (auto simp: is_digit_def is_tz_char_def dest: clock_text_plain)
  then have "takeWhile (Not \<circ> is_tz_char) (clock_text t @ [90]) = clock_text t"
    and "dropWhile (Not \<circ> is_tz_char) (clock_text t @ [90]) = [90]"
    by (simp_all add: takeWhile_append2 dropWhile_append2 is_tz_char_def)
  moreover have "\<lparr>dt_year = dt_year t, dt_month = dt_month t, dt_day = dt_day t, dt_hour = dt_hour t,
      dt_minute = dt_minute t, dt_second = dt_second t, dt_micro = dt_micro t, dt_tz = Some 0\<rparr> = t"
    using tz by (cases t) simp
  ultimately show ?thesis
    using long wf
    by (simp add: parse_ts_def fromisoformat_def parse_clock_text [OF wf] parse_tz_def Let_def)
qed

text \<open>What \<open>_to_spring_ts\<close> returns: the text of a UTC value with the same instant.\<close>

lemma to_spring_ts_Inr:
  assumes "to_spring_ts v = Inr s"
  obtains t u where "parse_ts v = Some t" and "wf_datetime u" and "dt_tz u = Some 0"
    and "instant u = instant t" and "s = spring_text u"
proof -
  from assms obtain t u where t: "parse_ts v = Some t"
    and u: "(case dt_tz t of None \<Rightarrow> Inr (t\<lparr>dt_tz := Some 0\<rparr>) | Some off \<Rightarrow> to_utc t off) = Inr u"
    and s: "s = str_replace (lit ''+00:00'') (lit ''Z'') (isoformat_utc u)"
    by (auto simp: to_spring_ts_def res_simps split: option.splits simp del: lit_simps)
  have wf: "wf_datetime t" using t fromisoformat_wf by (auto simp: parse_ts_def)
  have "wf_datetime u \<and> dt_tz u = Some 0 \<and> instant u = instant t"
  proof (cases "dt_tz t")
    case None
    with u wf show ?thesis
      by (auto simp: wf_datetime_def instant_def wall_def day_time_def day_us_def)
  next
    case (Some off)
    with u to_utc_correct [OF wf Some, of u] show ?thesis by simp
  qed
  with t s show ?thesis by (intro that [of t u]) (auto simp: isoformat_replace simp del: lit_simps)
qed

section \<open>Properties\<close>

text \<open>C33. \<open>_to_spring_ts\<close> changes the notation and never the moment: what it returns parses to a UTC value with
  the instant of the input (a value without offset is taken as UTC), and it is itself in the format it
  produces, ending in \<open>Z\<close>.\<close>

theorem to_spring_ts_same_instant:
  assumes "to_spring_ts v = Inr s"
  shows "\<exists>t u. parse_ts v = Some t \<and> parse_ts s = Some u \<and> dt_tz u = Some 0 \<and> instant u = instant t \<and>
           s = spring_text u"
proof -
  from assms obtain t u where "parse_ts v = Some t" "wf_datetime u" "dt_tz u = Some 0"
    "instant u = instant t" "s = spring_text u" by (rule to_spring_ts_Inr)
  then show ?thesis by (auto intro!: exI [of _ t] exI [of _ u] simp: parse_spring_text)
qed

lemma to_spring_ts_example:
  "to_spring_ts (lit ''2026-07-24T11:33:23.5+09:00'') = Inr (lit ''2026-07-24T02:33:23.500000Z'')"
  by code_simp

theorem to_spring_ts_same_instant_witness:
  "\<exists>t u. parse_ts (lit ''2026-07-24T11:33:23.5+09:00'') = Some t \<and>
     parse_ts (lit ''2026-07-24T02:33:23.500000Z'') = Some u \<and> dt_tz u = Some 0 \<and> instant u = instant t \<and>
     lit ''2026-07-24T02:33:23.500000Z'' = spring_text u"
  by (rule to_spring_ts_same_instant) (rule to_spring_ts_example)

end
