(* ===== verification/Floats.thy ===== *)
theory Floats
  imports Complex_Main Py_Text
begin

text \<open>
  Python's \<open>float\<close>: IEEE-754 binary64 values, finite ones as the rational they denote (\<open>0.0\<close> and
  \<open>-0.0\<close> are identified; they compare equal and the program never divides by either). Every operation
  is the exact one followed by \<open>round_dbl\<close>, rounding to nearest with ties to even, as IEEE prescribes.
  \<open>statistics.mean\<close> and \<open>statistics.pstdev\<close> compute exactly and round once; \<open>pstdev\<close> of data with an
  infinity or a NaN raises \<open>AttributeError\<close> (Python 3.11 and 3.12).
\<close>

datatype dbl = Fin rat | PInf | NInf | NaN

section \<open>Rounding\<close>

definition pow2 :: "int \<Rightarrow> rat" where
  "pow2 e = (if 0 \<le> e then 2 ^ nat e else 1 / 2 ^ nat (- e))"

fun bit_length :: "nat \<Rightarrow> nat" where
  "bit_length n = (if n = 0 then 0 else Suc (bit_length (n div 2)))"

declare bit_length.simps [simp del]

definition round_half_even :: "rat \<Rightarrow> int" where
  "round_half_even q =
     (let f = \<lfloor>q\<rfloor>; r = q - of_int f
      in if r < 1 / 2 then f else if 1 / 2 < r then f + 1 else if even f then f else f + 1)"

definition round_dbl :: "rat \<Rightarrow> dbl" where
  "round_dbl q =
     (if q = 0 then Fin 0
      else let (n, d) = quotient_of \<bar>q\<bar>;
               k = int (bit_length (nat n)) - int (bit_length (nat d));
               e = (if pow2 k \<le> \<bar>q\<bar> then k else k - 1);
               u = max (e - 52) (- 1074);
               v = of_int (round_half_even (q / pow2 u)) * pow2 u
           in if pow2 1024 \<le> v then PInf else if v \<le> - pow2 1024 then NInf else Fin v)"

section \<open>Arithmetic and comparison\<close>

fun fl_neg :: "dbl \<Rightarrow> dbl" where
  "fl_neg (Fin a) = Fin (- a)"
| "fl_neg PInf = NInf"
| "fl_neg NInf = PInf"
| "fl_neg NaN = NaN"

fun fl_add :: "dbl \<Rightarrow> dbl \<Rightarrow> dbl" where
  "fl_add (Fin a) (Fin b) = round_dbl (a + b)"
| "fl_add NaN _ = NaN"
| "fl_add _ NaN = NaN"
| "fl_add PInf NInf = NaN"
| "fl_add NInf PInf = NaN"
| "fl_add PInf _ = PInf"
| "fl_add NInf _ = NInf"
| "fl_add _ PInf = PInf"
| "fl_add _ NInf = NInf"

definition fl_sub :: "dbl \<Rightarrow> dbl \<Rightarrow> dbl" where
  "fl_sub a b = fl_add a (fl_neg b)"

fun fl_abs :: "dbl \<Rightarrow> dbl" where
  "fl_abs (Fin a) = Fin \<bar>a\<bar>"
| "fl_abs NaN = NaN"
| "fl_abs _ = PInf"

text \<open>Multiplication and division by a finite factor, the only cases the program has.\<close>

fun fl_scale :: "rat \<Rightarrow> dbl \<Rightarrow> dbl" where
  "fl_scale c (Fin a) = round_dbl (c * a)"
| "fl_scale c NaN = NaN"
| "fl_scale c PInf = (if c = 0 then NaN else if 0 < c then PInf else NInf)"
| "fl_scale c NInf = (if c = 0 then NaN else if 0 < c then NInf else PInf)"

fun fl_less :: "dbl \<Rightarrow> dbl \<Rightarrow> bool" where
  "fl_less (Fin a) (Fin b) = (a < b)"
| "fl_less NaN _ = False"
| "fl_less _ NaN = False"
| "fl_less NInf NInf = False"
| "fl_less NInf _ = True"
| "fl_less PInf _ = False"
| "fl_less (Fin a) PInf = True"
| "fl_less (Fin a) NInf = False"

fun fl_eq :: "dbl \<Rightarrow> dbl \<Rightarrow> bool" where
  "fl_eq NaN _ = False"
| "fl_eq a b = (a = b)"

text \<open>Away from NaN the comparison of floats is a linear order; NaN is put last to complete it.\<close>

instantiation dbl :: linorder
begin

definition less_eq_dbl :: "dbl \<Rightarrow> dbl \<Rightarrow> bool" where
  "less_eq_dbl a b \<longleftrightarrow> b = NaN \<or> a = b \<or> fl_less a b"

definition less_dbl :: "dbl \<Rightarrow> dbl \<Rightarrow> bool" where
  "less_dbl a b \<longleftrightarrow> a \<noteq> b \<and> (b = NaN \<or> fl_less a b)"

instance
proof
  fix a b c :: dbl
  show "(a < b) = (a \<le> b \<and> \<not> b \<le> a)"
    by (cases a; cases b) (auto simp: less_eq_dbl_def less_dbl_def)
  show "a \<le> a" by (simp add: less_eq_dbl_def)
  show "a \<le> b \<Longrightarrow> b \<le> c \<Longrightarrow> a \<le> c"
    by (cases a; cases b; cases c) (auto simp: less_eq_dbl_def)
  show "a \<le> b \<Longrightarrow> b \<le> a \<Longrightarrow> a = b"
    by (cases a; cases b) (auto simp: less_eq_dbl_def)
  show "a \<le> b \<or> b \<le> a" by (cases a; cases b) (auto simp: less_eq_dbl_def)
qed

end

lemma fl_less_iff: "a \<noteq> NaN \<Longrightarrow> b \<noteq> NaN \<Longrightarrow> fl_less a b \<longleftrightarrow> a < b"
  by (cases a; cases b) (auto simp: less_dbl_def)

fun fl_is_finite :: "dbl \<Rightarrow> bool" where
  "fl_is_finite (Fin _) = True"
| "fl_is_finite _ = False"

fun fl_val :: "dbl \<Rightarrow> rat" where
  "fl_val (Fin a) = a"
| "fl_val _ = 0"

text \<open>\<open>float(i)\<close> of an int, and \<open>int(x)\<close> of a float: truncation, raising on NaN and infinities.\<close>

definition fl_of_int :: "int \<Rightarrow> dbl res" where
  "fl_of_int i = (case round_dbl (of_int i) of Fin a \<Rightarrow> Inr (Fin a) | _ \<Rightarrow> Inl OverflowError)"

definition trunc_rat :: "rat \<Rightarrow> int" where
  "trunc_rat q = (if 0 \<le> q then \<lfloor>q\<rfloor> else \<lceil>q\<rceil>)"

fun int_of_fl :: "dbl \<Rightarrow> int res" where
  "int_of_fl (Fin a) = Inr (trunc_rat a)"
| "int_of_fl NaN = Inl (ValueError (lit ''cannot convert float NaN to integer''))"
| "int_of_fl _ = Inl OverflowError"

section \<open>Decimal text\<close>

text \<open>\<open>digits[.digits][e[+-]digits]\<close> with an optional sign: mantissa digits, digits after the point,
  exponent.\<close>

definition rat_of_decimal :: "bool \<Rightarrow> pystr \<Rightarrow> pystr \<Rightarrow> int \<Rightarrow> rat" where
  "rat_of_decimal neg ip fp ex =
     (if neg then -1 else 1) * of_nat (nat_of_digits (ip @ fp)) *
     (let e = ex - int (length fp) in if 0 \<le> e then 10 ^ nat e else 1 / 10 ^ nat (- e))"

definition split_sign :: "pystr \<Rightarrow> bool \<times> pystr" where
  "split_sign s =
     (case s of c # r \<Rightarrow> if c = 45 then (True, r) else if c = 43 then (False, r) else (False, s)
              | [] \<Rightarrow> (False, []))"

text \<open>The exponent part: nothing, or \<open>e\<close>, a sign and digits; \<open>None\<close> for anything else.\<close>

definition parse_exponent :: "pystr \<Rightarrow> int option" where
  "parse_exponent s =
     (case s of
        [] \<Rightarrow> Some 0
      | c # r \<Rightarrow>
          let (neg, ds) = split_sign r
          in if (c = 101 \<or> c = 69) \<and> ds \<noteq> [] \<and> list_all is_digit ds
             then Some ((if neg then -1 else 1) * int (nat_of_digits ds)) else None)"

definition parse_decimal :: "pystr \<Rightarrow> dbl option" where
  "parse_decimal s =
     (let (neg, r) = split_sign s;
          ip = takeWhile is_digit r; r1 = dropWhile is_digit r;
          (dot, r2) = (case r1 of c # q \<Rightarrow> if c = 46 then (True, q) else (False, r1) | [] \<Rightarrow> (False, []));
          fp = (if dot then takeWhile is_digit r2 else []);
          r3 = (if dot then dropWhile is_digit r2 else r2)
      in if ip = [] \<and> fp = [] then None
         else map_option (\<lambda>e. round_dbl (rat_of_decimal neg ip fp e)) (parse_exponent r3))"

text \<open>\<open>float(s)\<close> of a text: surrounding white space, a decimal, or an infinity or NaN in any case
  (digit-group underscores are not modelled).\<close>

definition fl_of_str :: "pystr \<Rightarrow> dbl res" where
  "fl_of_str t =
     (let s = str_strip is_space t; (neg, r) = split_sign s; l = str_lower r
      in if l = lit ''inf'' \<or> l = lit ''infinity'' then Inr (if neg then NInf else PInf)
         else if l = lit ''nan'' then Inr NaN
         else case parse_decimal s of Some x \<Rightarrow> Inr x | None \<Rightarrow> Inl (ValueError t))"

section \<open>Formatting\<close>

definition pow10 :: "int \<Rightarrow> rat" where
  "pow10 e = (if 0 \<le> e then 10 ^ nat e else 1 / 10 ^ nat (- e))"

text \<open>
  \<open>p\<close> significant decimal digits of a positive rational, rounded half to even, and the exponent of the
  first one.
\<close>

definition sci_digits :: "nat \<Rightarrow> rat \<Rightarrow> pystr \<times> int" where
  "sci_digits p q =
     (let (n, d) = quotient_of q;
          k = int (length (str_of_nat (nat n))) - int (length (str_of_nat (nat d)));
          x = (if pow10 k \<le> q then k else k - 1);
          m = nat (round_half_even (q / pow10 (x - int p + 1)))
      in if m = 10 ^ p then (pad p (10 ^ (p - 1)), x + 1) else (pad p m, x))"

definition strip_zeros :: "pystr \<Rightarrow> pystr" where
  "strip_zeros ds = rev (dropWhile (\<lambda>c. c = 48) (rev ds))"

definition exponent_text :: "int \<Rightarrow> pystr" where
  "exponent_text x =
     101 # (if x < 0 then 45 else 43) #
     (let t = str_of_nat (nat \<bar>x\<bar>) in if length t < 2 then 48 # t else t)"

text \<open>Fixed notation when \<open>-4 \<le> x < maxexp\<close>, scientific otherwise; trailing zeros dropped.\<close>

definition place_point :: "int \<Rightarrow> bool \<Rightarrow> pystr \<Rightarrow> int \<Rightarrow> pystr" where
  "place_point maxexp dot0 ds x =
     (if -4 \<le> x \<and> x < maxexp then
        (let whole = (if 0 \<le> x then take (nat x + 1) (ds @ replicate (nat x + 1 - length ds) 48) else [48]);
             frac = strip_zeros (if 0 \<le> x then drop (nat x + 1) ds else replicate (nat (- x) - 1) 48 @ ds)
         in if frac = [] then (if dot0 then whole @ [46, 48] else whole) else whole @ 46 # frac)
      else (let frac = strip_zeros (tl ds)
            in hd ds # (if frac = [] then [] else 46 # frac) @ exponent_text x))"

text \<open>\<open>f"{x:.pg}"\<close> and \<open>repr(x)\<close>, the shortest text that reads back as \<open>x\<close>.\<close>

fun fmt_g :: "nat \<Rightarrow> dbl \<Rightarrow> pystr" where
  "fmt_g p PInf = lit ''inf''"
| "fmt_g p NInf = lit ''-inf''"
| "fmt_g p NaN = lit ''nan''"
| "fmt_g p (Fin a) =
     (if a = 0 then [48]
      else (if a < 0 then [45] else []) @
           (case sci_digits p \<bar>a\<bar> of (ds, x) \<Rightarrow> place_point (int p) False ds x))"

definition reads_back :: "rat \<Rightarrow> nat \<Rightarrow> bool" where
  "reads_back a p =
     (case sci_digits p a of
        (ds, x) \<Rightarrow> round_dbl (of_nat (nat_of_digits ds) * pow10 (x - int p + 1)) = Fin a)"

fun fl_repr :: "dbl \<Rightarrow> pystr" where
  "fl_repr (Fin a) =
     (if a = 0 then lit ''0.0''
      else (if a < 0 then [45] else []) @
           (let p = (case find (reads_back \<bar>a\<bar>) [1..<17] of Some p \<Rightarrow> p | None \<Rightarrow> 17)
            in case sci_digits p \<bar>a\<bar> of (ds, x) \<Rightarrow> place_point 16 True ds x))"
| "fl_repr x = fmt_g 6 x"

section \<open>The statistics module\<close>

text \<open>A sum with a special value in it is that value, opposite infinities give NaN.\<close>

definition fl_specials :: "dbl list \<Rightarrow> dbl" where
  "fl_specials xs = foldr fl_add (filter (Not \<circ> fl_is_finite) xs) (Fin 0)"

definition mean_rat :: "rat list \<Rightarrow> rat" where
  "mean_rat xs = sum_list xs / of_nat (length xs)"

definition var_rat :: "rat list \<Rightarrow> rat" where
  "var_rat xs = sum_list (map (\<lambda>x. (x - mean_rat xs)\<^sup>2) xs) / of_nat (length xs)"

definition fl_mean :: "dbl list \<Rightarrow> dbl" where
  "fl_mean xs =
     (if list_all fl_is_finite xs then round_dbl (mean_rat (map fl_val xs)) else fl_specials xs)"

fun isqrt :: "nat \<Rightarrow> nat" where
  "isqrt n = (if n = 0 then 0 else let r = 2 * isqrt (n div 4) in if (r + 1)\<^sup>2 \<le> n then r + 1 else r)"

declare isqrt.simps [simp del]

text \<open>Square root of a fraction rounded once: an integer square root with a sticky last bit.\<close>

definition sqrt_dbl :: "rat \<Rightarrow> dbl" where
  "sqrt_dbl v =
     (if v = 0 then Fin 0
      else let (n, d) = quotient_of v;
               q = (int (bit_length (nat n)) - int (bit_length (nat d)) - 109) div 2;
               (n', d') = (if 0 \<le> q then (nat n, nat d * 2 ^ nat (2 * q))
                           else (nat n * 2 ^ nat (- 2 * q), nat d));
               a = isqrt (n' div d');
               a' = (if a\<^sup>2 * d' \<noteq> n' \<and> even a then a + 1 else a)
           in round_dbl (of_nat a' * pow2 q))"

definition fl_pstdev :: "dbl list \<Rightarrow> dbl res" where
  "fl_pstdev xs =
     (if list_all fl_is_finite xs then Inr (sqrt_dbl (var_rat (map fl_val xs)))
      else Inl AttributeError)"

lemma fl_mean_finite:
  "list_all fl_is_finite xs \<Longrightarrow> fl_mean xs = round_dbl (mean_rat (map fl_val xs))"
  by (simp add: fl_mean_def)

end
