(* ===== verification/Json.thy ===== *)
theory Json
  imports Floats
begin

text \<open>
  JSON values, \<open>json.loads\<close> and the compact JSON text that \<open>model_dump_json\<close> writes. The parser follows
  the \<open>json\<close> module: white space, duplicate keys (the last value wins, at the first position),
  \<open>NaN\<close> and the infinities, control characters refused inside strings. It runs on fuel; one unit per
  character is enough (\<open>p_val_fuel\<close>).
\<close>

datatype json =
    JNull
  | JBool bool
  | JInt int
  | JFloat dbl
  | JStr pystr
  | JArr "json list"
  | JObj "(pystr \<times> json) list"

section \<open>Scanning\<close>

definition is_json_ws :: "nat \<Rightarrow> bool" where
  "is_json_ws c \<longleftrightarrow> c = 32 \<or> c = 9 \<or> c = 10 \<or> c = 13"

definition skip_ws :: "pystr \<Rightarrow> pystr" where
  "skip_ws s = dropWhile is_json_ws s"

definition hex_val :: "nat \<Rightarrow> nat option" where
  "hex_val c =
     (if is_digit c then Some (c - 48)
      else if 97 \<le> c \<and> c \<le> 102 then Some (c - 87)
      else if 65 \<le> c \<and> c \<le> 70 then Some (c - 55) else None)"

fun hex4 :: "pystr \<Rightarrow> (nat \<times> pystr) option" where
  "hex4 (a # b # c # d # s) =
     (case (hex_val a, hex_val b, hex_val c, hex_val d) of
        (Some w, Some x, Some y, Some z) \<Rightarrow> Some (((w * 16 + x) * 16 + y) * 16 + z, s)
      | _ \<Rightarrow> None)"
| "hex4 _ = None"

definition simple_escape :: "nat \<Rightarrow> nat option" where
  "simple_escape c =
     map_of [(34, 34), (92, 92), (47, 47), (98, 8), (102, 12), (110, 10), (114, 13), (116, 9)] c"

text \<open>\<open>\<backslash>uXXXX\<close>, with a low surrogate after a high one joined to one code point.\<close>

definition unicode_escape :: "pystr \<Rightarrow> (nat \<times> pystr) option" where
  "unicode_escape s =
     (case hex4 s of
        None \<Rightarrow> None
      | Some (u, r) \<Rightarrow>
          if 0xD800 \<le> u \<and> u \<le> 0xDBFF then
            (case r of
               b # c # r' \<Rightarrow>
                 if b = 92 \<and> c = 117 then
                   (case hex4 r' of
                      Some (v, r'') \<Rightarrow>
                        if 0xDC00 \<le> v \<and> v \<le> 0xDFFF
                        then Some (0x10000 + (u - 0xD800) * 1024 + (v - 0xDC00), r'') else Some (u, r)
                    | None \<Rightarrow> None)
                 else Some (u, r)
             | _ \<Rightarrow> Some (u, r))
          else Some (u, r))"

lemma hex4_shorter: "hex4 s = Some (u, r) \<Longrightarrow> length r < length s"
  by (induction s rule: hex4.induct) (auto split: option.splits)

lemma unicode_escape_shorter: "unicode_escape s = Some (u, r) \<Longrightarrow> length r < length s"
proof -
  assume u: "unicode_escape s = Some (u, r)"
  then obtain v r' where h: "hex4 s = Some (v, r')" by (auto simp: unicode_escape_def split: option.splits)
  have "length r \<le> length r'"
    using u h by (auto simp: unicode_escape_def dest!: hex4_shorter split: list.splits option.splits if_splits)
  with hex4_shorter [OF h] show ?thesis by simp
qed

text \<open>The rest of a string literal after its opening quote.\<close>

function scan_string :: "pystr \<Rightarrow> (pystr \<times> pystr) option" where
  "scan_string [] = None"
| "scan_string (c # s) =
     (if c = 34 then Some ([], s)
      else if c = 92 then
        (case s of
           [] \<Rightarrow> None
         | e # s' \<Rightarrow>
             if e = 117 then
               (case unicode_escape s' of
                  None \<Rightarrow> None
                | Some (u, r) \<Rightarrow> map_option (\<lambda>(t, q). (u # t, q)) (scan_string r))
             else
               (case simple_escape e of
                  None \<Rightarrow> None
                | Some x \<Rightarrow> map_option (\<lambda>(t, q). (x # t, q)) (scan_string s')))
      else if c < 32 then None
      else map_option (\<lambda>(t, q). (c # t, q)) (scan_string s))"
  by pat_completeness auto
termination
  by (relation "measure length") (auto dest: unicode_escape_shorter)

lemma scan_string_shorter: "scan_string s = Some (t, r) \<Longrightarrow> length r < length s"
proof (induction s arbitrary: t r rule: scan_string.induct)
  case (2 c s)
  show ?case
  proof (cases "c = 34 \<or> c = 92 \<and> s = [] \<or> c \<noteq> 92 \<and> c < 32")
    case True
    with 2 show ?thesis by auto
  next
    case False
    with 2 show ?thesis
      by (fastforce dest: unicode_escape_shorter split: if_splits list.splits option.splits)
  qed
qed simp

text \<open>Numbers: \<open>-?(0|[1-9]digits)\<close>, an int unless a fraction or an exponent follows.\<close>

definition scan_int :: "pystr \<Rightarrow> (pystr \<times> pystr) option" where
  "scan_int s =
     (let (sg, r) = (case s of c # q \<Rightarrow> if c = 45 then ([45], q) else ([], s) | [] \<Rightarrow> ([], []))
      in case r of
           [] \<Rightarrow> None
         | c # q \<Rightarrow> if c = 48 then Some (sg @ [48], q)
                     else if is_digit c then Some (sg @ takeWhile is_digit r, dropWhile is_digit r)
                     else None)"

definition scan_frac :: "pystr \<Rightarrow> pystr \<times> pystr" where
  "scan_frac s =
     (case s of
        c # r \<Rightarrow> if c = 46 \<and> takeWhile is_digit r \<noteq> [] then (46 # takeWhile is_digit r, dropWhile is_digit r)
                 else ([], s)
      | [] \<Rightarrow> ([], []))"

definition scan_exp :: "pystr \<Rightarrow> pystr \<times> pystr" where
  "scan_exp s =
     (case s of
        c # r \<Rightarrow>
          let (sg, q) = (case r of d # q' \<Rightarrow> if d = 43 \<or> d = 45 then ([d], q') else ([], r) | [] \<Rightarrow> ([], []))
          in if (c = 101 \<or> c = 69) \<and> takeWhile is_digit q \<noteq> []
             then (c # sg @ takeWhile is_digit q, dropWhile is_digit q) else ([], s)
      | [] \<Rightarrow> ([], []))"

definition int_of_text :: "pystr \<Rightarrow> int" where
  "int_of_text s = (let (neg, ds) = split_sign s in (if neg then -1 else 1) * int (nat_of_digits ds))"

definition scan_number :: "pystr \<Rightarrow> (json \<times> pystr) option" where
  "scan_number s =
     (case scan_int s of
        None \<Rightarrow> None
      | Some (i, r) \<Rightarrow>
          let (f, r1) = scan_frac r; (e, r2) = scan_exp r1
          in if f = [] \<and> e = [] then Some (JInt (int_of_text i), r2)
             else map_option (\<lambda>x. (JFloat x, r2)) (parse_decimal (i @ f @ e)))"

definition scan_keyword :: "pystr \<Rightarrow> (json \<times> pystr) option" where
  "scan_keyword s =
     map_option (\<lambda>(w, v). (v, drop (length w) s))
       (find (\<lambda>(w, v). starts_with s w)
         [(lit ''null'', JNull), (lit ''true'', JBool True), (lit ''false'', JBool False),
          (lit ''NaN'', JFloat NaN), (lit ''Infinity'', JFloat PInf), (lit ''-Infinity'', JFloat NInf)])"

section \<open>Values\<close>

fun p_val :: "nat \<Rightarrow> pystr \<Rightarrow> (json \<times> pystr) option"
  and p_items :: "nat \<Rightarrow> pystr \<Rightarrow> (json list \<times> pystr) option"
  and p_members :: "nat \<Rightarrow> pystr \<Rightarrow> ((pystr \<times> json) list \<times> pystr) option"
where
  "p_val 0 s = None"
| "p_val (Suc n) s =
     (case s of
        [] \<Rightarrow> None
      | c # r \<Rightarrow>
          if c = 34 then map_option (\<lambda>(t, q). (JStr t, q)) (scan_string r)
          else if c = 91 then
            (case skip_ws r of
               [] \<Rightarrow> None
             | d # q \<Rightarrow> if d = 93 then Some (JArr [], q)
                         else map_option (\<lambda>(vs, q'). (JArr vs, q')) (p_items n (d # q)))
          else if c = 123 then
            (case skip_ws r of
               [] \<Rightarrow> None
             | d # q \<Rightarrow> if d = 125 then Some (JObj [], q)
                         else map_option (\<lambda>(ms, q'). (JObj (dmerge [] ms), q')) (p_members n (d # q)))
          else (case scan_keyword s of Some x \<Rightarrow> Some x | None \<Rightarrow> scan_number s))"
| "p_items 0 s = None"
| "p_items (Suc n) s =
     (case p_val n s of
        None \<Rightarrow> None
      | Some (v, r) \<Rightarrow>
          (case skip_ws r of
             [] \<Rightarrow> None
           | c # q \<Rightarrow>
               if c = 93 then Some ([v], q)
               else if c = 44 then map_option (\<lambda>(vs, q'). (v # vs, q')) (p_items n (skip_ws q))
               else None))"
| "p_members 0 s = None"
| "p_members (Suc n) s =
     (case s of
        [] \<Rightarrow> None
      | c # r \<Rightarrow>
          if c \<noteq> 34 then None
          else (case scan_string r of
                  None \<Rightarrow> None
                | Some (k, r1) \<Rightarrow>
                    (case skip_ws r1 of
                       [] \<Rightarrow> None
                     | d # r2 \<Rightarrow>
                         if d \<noteq> 58 then None
                         else (case p_val n (skip_ws r2) of
                                 None \<Rightarrow> None
                               | Some (v, r3) \<Rightarrow>
                                   (case skip_ws r3 of
                                      [] \<Rightarrow> None
                                    | e # q \<Rightarrow>
                                        if e = 125 then Some ([(k, v)], q)
                                        else if e = 44 then
                                          map_option (\<lambda>(ms, q'). ((k, v) # ms, q')) (p_members n (skip_ws q))
                                        else None)))))"

text \<open>\<open>json.loads\<close>: \<open>None\<close> stands for \<open>JSONDecodeError\<close>; a leading byte order mark is refused.\<close>

definition json_loads :: "pystr \<Rightarrow> json option" where
  "json_loads s =
     (if s \<noteq> [] \<and> hd s = 0xFEFF then None
      else case p_val (2 * length s + 1) (skip_ws s) of
             Some (v, r) \<Rightarrow> if skip_ws r = [] then Some v else None
           | None \<Rightarrow> None)"

text \<open>\<open>_loads_dict\<close>: the object, or \<open>None\<close> when the text is no JSON object.\<close>

definition loads_dict :: "pystr \<Rightarrow> (pystr, json) dict option" where
  "loads_dict raw = (case json_loads raw of Some (JObj d) \<Rightarrow> Some d | _ \<Rightarrow> None)"

section \<open>Enough fuel\<close>

lemma skip_ws_le: "length (skip_ws s) \<le> length s"
  by (simp add: skip_ws_def length_dropWhile_le)

lemma dropWhile_le: "length (dropWhile P s) \<le> length s"
  by (rule length_dropWhile_le)

lemma scan_int_shorter: "scan_int s = Some (i, r) \<Longrightarrow> length r < length s"
proof -
  have d: "is_digit c \<Longrightarrow> length (dropWhile is_digit q) < Suc (length q)" for c q
    using dropWhile_le [of is_digit q] by (simp add: le_imp_less_Suc)
  assume "scan_int s = Some (i, r)"
  then show ?thesis using d
    by (fastforce simp: scan_int_def Let_def split: list.splits if_splits intro: less_SucI)
qed

lemma scan_frac_le: "length (snd (scan_frac s)) \<le> length s"
  by (auto simp: scan_frac_def split: list.split intro: le_SucI dropWhile_le)

lemma scan_exp_le: "length (snd (scan_exp s)) \<le> length s"
  by (auto simp: scan_exp_def Let_def split: list.split intro: le_SucI dropWhile_le)

lemma scan_number_shorter: "scan_number s = Some (v, r) \<Longrightarrow> length r < length s"
proof -
  assume "scan_number s = Some (v, r)"
  then obtain i r0 where i: "scan_int s = Some (i, r0)" and r: "r = snd (scan_exp (snd (scan_frac r0)))"
    by (auto simp: scan_number_def Let_def split: option.splits prod.splits if_splits)
  have "length r \<le> length r0"
    using scan_exp_le [of "snd (scan_frac r0)"] scan_frac_le [of r0] r by simp
  with scan_int_shorter [OF i] show ?thesis by simp
qed

lemma scan_keyword_shorter: "scan_keyword s = Some (v, r) \<Longrightarrow> length r < length s"
  by (auto simp: scan_keyword_def starts_with_iff split: if_splits)

lemma parser_shorter:
  "p_val n s = Some (v, r) \<Longrightarrow> length r < length s"
  "p_items n s = Some (vs, r) \<Longrightarrow> length r < length s"
  "p_members n s = Some (ms, r) \<Longrightarrow> length r < length s"
proof (induction n s and n s and n s arbitrary: v r and vs r and ms r
    rule: p_val_p_items_p_members.induct)
  case (2 n s)
  then obtain c q where s: "s = c # q" by (auto split: list.splits)
  note ws = skip_ws_le [of q]
  show ?case
  proof (cases "c = 34 \<or> c = 91 \<or> c = 123")
    case True
    with 2 s ws show ?thesis
      by (fastforce dest: scan_string_shorter split: list.splits if_splits)
  next
    case False
    with 2 s show ?thesis
      by (auto dest: scan_keyword_shorter scan_number_shorter split: option.splits)
  qed
next
  case (4 n s)
  then obtain v1 r1 where v: "p_val n s = Some (v1, r1)" by (auto split: option.splits)
  then obtain c q where q: "skip_ws r1 = c # q" using 4 by (auto split: list.splits)
  have "length r1 < length s" using 4(1) v by blast
  moreover have "Suc (length q) \<le> length r1" using skip_ws_le [of r1] q by simp
  moreover have "length (skip_ws q) \<le> length q" by (rule skip_ws_le)
  ultimately show ?case using 4 v q by (fastforce split: if_splits)
next
  case (6 n s)
  then obtain c q where s: "s = c # q" "c = 34" by (auto split: list.splits if_splits)
  then obtain k r1 where k: "scan_string q = Some (k, r1)" using 6 by (auto split: option.splits)
  then obtain r2 where r2: "skip_ws r1 = 58 # r2" using 6 s by (auto split: list.splits if_splits)
  then obtain v3 r3 where v3: "p_val n (skip_ws r2) = Some (v3, r3)"
    using 6 s k by (auto split: option.splits)
  then obtain e q3 where q3: "skip_ws r3 = e # q3" using 6 s k r2 by (auto split: list.splits)
  have "length r1 < length q" using k by (rule scan_string_shorter)
  moreover have "Suc (length r2) \<le> length r1" using skip_ws_le [of r1] r2 by simp
  moreover have "length r3 < length (skip_ws r2)"
    using "6.IH"(1) s k r2 v3 by auto
  moreover have "length (skip_ws r2) \<le> length r2" "length (skip_ws q3) \<le> length q3"
    by (rule skip_ws_le)+
  moreover have "Suc (length q3) \<le> length r3" using skip_ws_le [of r3] q3 by simp
  ultimately show ?case using 6 s k r2 v3 q3 by (fastforce split: if_splits)
qed simp_all

text \<open>Above two units per character, more fuel changes nothing.\<close>

lemma parser_fuel:
  "2 * length s < n \<Longrightarrow> p_val (Suc n) s = p_val n s"
  "2 * length s + 1 < n \<Longrightarrow> p_items (Suc n) s = p_items n s"
  "2 * length s < n \<Longrightarrow> p_members (Suc n) s = p_members n s"
proof (induction n s and n s and n s rule: p_val_p_items_p_members.induct)
  case (2 n s)
  show ?case
  proof (cases s)
    case (Cons c q)
    have "length (skip_ws q) \<le> length q" by (rule skip_ws_le)
    with 2 Cons show ?thesis by (auto split: list.splits)
  qed simp
next
  case (4 n s)
  have v: "p_val (Suc n) s = p_val n s" using 4 by simp
  show ?case
  proof (cases "p_val n s")
    case None
    then show ?thesis by (simp only: p_items.simps v) simp
  next
    case (Some a)
    obtain v1 r1 where a: "a = (v1, r1)" by fastforce
    have rest: "p_items (Suc n) (skip_ws q) = p_items n (skip_ws q)"
      if q: "skip_ws r1 = c # q" and c: "c = 44" for c q
    proof -
      have "length r1 < length s" using parser_shorter(1) Some a by blast
      moreover have "length (c # q) \<le> length r1" using skip_ws_le [of r1] q by simp
      moreover have "length (skip_ws q) \<le> length q" by (rule skip_ws_le)
      ultimately have "2 * length (skip_ws q) + 1 < n" using "4.prems" by simp
      moreover have "c \<noteq> 93" using c by simp
      ultimately show ?thesis using "4.IH"(2) [OF Some [unfolded a] refl q] c by blast
    qed
    then show ?thesis by (simp only: p_items.simps v) (simp add: Some a split: list.split)
  qed
next
  case (6 n s)
  show ?case
  proof (cases s)
    case (Cons c q)
    show ?thesis
    proof (cases "scan_string q")
      case None
      with Cons show ?thesis by simp
    next
      case (Some kr)
      obtain k r1 where kr: "kr = (k, r1)" by fastforce
      have r1: "length r1 < length q" using scan_string_shorter Some kr by blast
      have val: "p_val (Suc n) (skip_ws r2) = p_val n (skip_ws r2)"
        if c: "c = 34" and r2: "skip_ws r1 = d # r2" and d: "d = 58" for d r2
      proof -
        have "length (d # r2) \<le> length r1" using skip_ws_le [of r1] r2 by simp
        moreover have "length (skip_ws r2) \<le> length r2" by (rule skip_ws_le)
        ultimately have "2 * length (skip_ws r2) < n" using "6.prems" Cons r1 by simp
        then show ?thesis using "6.IH"(1) [OF Cons _ Some [unfolded kr] refl r2] c d by simp
      qed
      have mem: "p_members (Suc n) (skip_ws q3) = p_members n (skip_ws q3)"
        if c: "c = 34" and r2: "skip_ws r1 = d # r2" and d: "d = 58"
          and v: "p_val n (skip_ws r2) = Some (v3, r3)" and q3: "skip_ws r3 = e # q3" and e: "e = 44"
        for d r2 v3 r3 e q3
      proof -
        have "length (d # r2) \<le> length r1" using skip_ws_le [of r1] r2 by simp
        moreover have "length (skip_ws r2) \<le> length r2" "length (skip_ws q3) \<le> length q3"
          by (rule skip_ws_le)+
        moreover have "length r3 < length (skip_ws r2)" using parser_shorter(1) v by blast
        moreover have "length (e # q3) \<le> length r3" using skip_ws_le [of r3] q3 by simp
        ultimately have "2 * length (skip_ws q3) < n" using "6.prems" Cons r1 by simp
        moreover have "e \<noteq> 125" using e by simp
        ultimately show ?thesis
          using "6.IH"(2) [OF Cons _ Some [unfolded kr] refl r2 _ v refl q3] c d e by simp
      qed
      show ?thesis
        unfolding p_members.simps(2) [of "Suc n" s] p_members.simps(2) [of n s]
        by (auto simp: Cons Some kr val mem simp del: p_members.simps p_val.simps split: list.split option.split)
    qed
  qed simp
qed simp_all

section \<open>Writing\<close>

text \<open>
  The compact text \<open>model_dump_json\<close> writes for an object of scalars: no spaces, control characters
  escaped, other characters as they are.
\<close>

definition hex_digit :: "nat \<Rightarrow> nat" where
  "hex_digit d = (if d < 10 then 48 + d else 87 + d)"

definition esc_char :: "nat \<Rightarrow> pystr" where
  "esc_char c =
     (if c = 34 then [92, 34] else if c = 92 then [92, 92]
      else if c = 8 then [92, 98] else if c = 9 then [92, 116] else if c = 10 then [92, 110]
      else if c = 12 then [92, 102] else if c = 13 then [92, 114]
      else if c < 32 then [92, 117, 48, 48, hex_digit (c div 16), hex_digit (c mod 16)]
      else [c])"

definition dump_str :: "pystr \<Rightarrow> pystr" where
  "dump_str s = 34 # concat (map esc_char s) @ [34]"

fun dump_scalar :: "json \<Rightarrow> pystr" where
  "dump_scalar JNull = lit ''null''"
| "dump_scalar (JBool b) = (if b then lit ''true'' else lit ''false'')"
| "dump_scalar (JInt i) = str_of_int i"
| "dump_scalar (JStr s) = dump_str s"
| "dump_scalar _ = []"

fun is_plain_scalar :: "json \<Rightarrow> bool" where
  "is_plain_scalar JNull = True"
| "is_plain_scalar (JBool _) = True"
| "is_plain_scalar (JInt _) = True"
| "is_plain_scalar (JStr _) = True"
| "is_plain_scalar _ = False"

fun dump_members :: "(pystr \<times> json) list \<Rightarrow> pystr" where
  "dump_members [] = []"
| "dump_members [(k, v)] = dump_str k @ 58 # dump_scalar v"
| "dump_members ((k, v) # ms) = dump_str k @ 58 # dump_scalar v @ 44 # dump_members ms"

definition dump_flat :: "(pystr \<times> json) list \<Rightarrow> pystr" where
  "dump_flat ms = 123 # dump_members ms @ [125]"

section \<open>Reading back what is written\<close>

lemma hex_val_digit: "d < 16 \<Longrightarrow> hex_val (hex_digit d) = Some d"
  by (auto simp: hex_val_def hex_digit_def is_digit_def)

lemma unicode_escape_low:
  assumes "c < 32"
  shows "unicode_escape (48 # 48 # hex_digit (c div 16) # hex_digit (c mod 16) # s) = Some (c, s)"
proof -
  have "hex_val (hex_digit (c div 16)) = Some (c div 16)" "hex_val (hex_digit (c mod 16)) = Some (c mod 16)"
    using assms by (auto intro!: hex_val_digit)
  moreover have "hex_val 48 = Some 0" by (simp add: hex_val_def is_digit_def)
  ultimately show ?thesis using assms by (simp add: unicode_escape_def)
qed

lemma scan_string_dump: "scan_string (concat (map esc_char t) @ 34 # s) = Some (t, s)"
proof (induction t)
  case (Cons c t)
  have "scan_string (esc_char c @ r) = map_option (\<lambda>(t, q). (c # t, q)) (scan_string r)" for r
    by (auto simp: esc_char_def simple_escape_def unicode_escape_low)
  with Cons show ?case by simp
qed simp

lemma str_of_nat_hd: "hd (str_of_nat n) = 48 \<Longrightarrow> n = 0"
proof (induction n rule: str_of_nat.induct)
  case (1 n)
  show ?case
  proof (cases "n < 10")
    case True
    with 1 show ?thesis by (simp add: str_of_nat.simps [of n] digit_char_def)
  next
    case False
    with 1 have "n div 10 = 0" by (simp add: str_of_nat.simps [of n])
    with False show ?thesis by simp
  qed
qed

lemma scan_nat_text:
  assumes "s = [] \<or> \<not> is_digit (hd s)"
  shows "takeWhile is_digit (str_of_nat n @ s) = str_of_nat n"
    and "dropWhile is_digit (str_of_nat n @ s) = s"
proof -
  have all: "\<And>c. c \<in> set (str_of_nat n) \<Longrightarrow> is_digit c" by (rule str_of_nat_digits)
  have "takeWhile is_digit s = []" "dropWhile is_digit s = s" using assms by (cases s; simp)+
  then show "takeWhile is_digit (str_of_nat n @ s) = str_of_nat n"
    and "dropWhile is_digit (str_of_nat n @ s) = s"
    by (simp_all add: takeWhile_append2 [OF all] dropWhile_append2 [OF all])
qed

lemma str_of_nat_0: "str_of_nat 0 = [48]"
  by (simp add: str_of_nat.simps digit_char_def)

lemma scan_int_text:
  assumes "s = [] \<or> \<not> is_digit (hd s)"
  shows "scan_int (str_of_int i @ s) = Some (str_of_int i, s)"
proof -
  let ?n = "nat \<bar>i\<bar>"
  obtain c q where cq: "str_of_nat ?n = c # q" by (meson list.exhaust str_of_nat_nonempty)
  have c: "is_digit c" using str_of_nat_digits [of c ?n] cq by simp
  have z: "q = []" if "c = 48"
  proof -
    have "?n = 0" using str_of_nat_hd [of ?n] cq that by simp
    with cq show ?thesis by (simp add: str_of_nat_0)
  qed
  have c45: "c \<noteq> 45" using c by (auto simp: is_digit_def)
  have tw: "takeWhile is_digit (c # q @ s) = c # q" and dw: "dropWhile is_digit (c # q @ s) = s"
    using scan_nat_text [OF assms, of ?n] cq by simp_all
  show ?thesis
  proof (cases "c = 48")
    case True
    with z c45 show ?thesis by (simp add: scan_int_def str_of_int_def cq)
  next
    case False
    then have "(case c # q @ s of [] \<Rightarrow> None | d # r \<Rightarrow> if d = 48 then Some (p @ [48], r)
        else if is_digit d then Some (p @ takeWhile is_digit (c # q @ s), dropWhile is_digit (c # q @ s))
        else None) = Some (p @ c # q, s)" for p
      using c by (simp only: list.case tw dw if_False if_True)
    with c45 show ?thesis by (simp add: scan_int_def str_of_int_def cq)
  qed
qed

lemma int_of_str_of_int: "int_of_text (str_of_int i) = i"
proof -
  let ?n = "nat \<bar>i\<bar>"
  obtain c q where cq: "str_of_nat ?n = c # q" by (meson list.exhaust str_of_nat_nonempty)
  have "is_digit c" using str_of_nat_digits [of c ?n] cq by simp
  then have "c \<noteq> 45" "c \<noteq> 43" by (auto simp: is_digit_def)
  moreover have "nat_of_digits (c # q) = ?n" using nat_of_digits_str_of_nat [of ?n] cq by simp
  ultimately show ?thesis by (auto simp: int_of_text_def str_of_int_def split_sign_def cq)
qed

text \<open>A scalar is read back when a comma or a closing brace follows.\<close>

lemma p_val_scalar:
  assumes "is_plain_scalar v" and c: "c = 44 \<or> c = 93 \<or> c = 125"
  shows "p_val (Suc n) (dump_scalar v @ c # s) = Some (v, c # s)"
proof (cases v)
  case (JInt i)
  have sep: "c # s = [] \<or> \<not> is_digit (hd (c # s))" using c by (auto simp: is_digit_def)
  obtain a q where aq: "str_of_int i = a # q" and a: "a = 45 \<or> is_digit a"
  proof (cases "i < 0")
    case False
    obtain a q where "str_of_nat (nat \<bar>i\<bar>) = a # q" by (meson list.exhaust str_of_nat_nonempty)
    with False str_of_nat_digits [of a "nat \<bar>i\<bar>"] that show ?thesis by (simp add: str_of_int_def)
  qed (use that in \<open>simp add: str_of_int_def\<close>)
  have "a = 45 \<Longrightarrow> \<exists>b r. q = b # r \<and> is_digit b"
  proof -
    assume "a = 45"
    then have "i < 0" using aq str_of_nat_digits [of a "nat \<bar>i\<bar>"]
      by (auto simp: str_of_int_def is_digit_def split: if_splits)
    then show ?thesis using aq str_of_nat_digits [of _ "nat \<bar>i\<bar>"]
      by (cases q) (auto simp: str_of_int_def)
  qed
  then have "scan_keyword (str_of_int i @ c # s) = None"
    using a by (auto simp: scan_keyword_def aq is_digit_def)
  moreover have "scan_frac (c # s) = ([], c # s)" "scan_exp (c # s) = ([], c # s)"
    using c by (auto simp: scan_frac_def scan_exp_def Let_def split: list.split)
  then have "scan_number (str_of_int i @ c # s) = Some (JInt i, c # s)"
    by (simp add: scan_number_def scan_int_text [OF sep] int_of_str_of_int)
  moreover have "a \<noteq> 34" "a \<noteq> 91" "a \<noteq> 123" using a by (auto simp: is_digit_def)
  ultimately show ?thesis by (simp add: JInt aq)
next
  case (JStr t)
  then show ?thesis by (simp add: dump_str_def scan_string_dump)
qed (use assms in \<open>auto simp: scan_keyword_def\<close>)

lemma skip_ws_Cons: "\<not> is_json_ws c \<Longrightarrow> skip_ws (c # s) = c # s"
  by (simp add: skip_ws_def)

lemma dump_scalar_hd:
  "is_plain_scalar v \<Longrightarrow> \<exists>c r. dump_scalar v = c # r \<and> \<not> is_json_ws c"
proof (cases v)
  case (JInt i)
  obtain a q where "str_of_nat (nat \<bar>i\<bar>) = a # q" by (meson list.exhaust str_of_nat_nonempty)
  with str_of_nat_digits [of a "nat \<bar>i\<bar>"] show ?thesis
    by (auto simp: JInt str_of_int_def is_json_ws_def is_digit_def)
qed (auto simp: is_json_ws_def dump_str_def)

lemma skip_ws_scalar: "is_plain_scalar v \<Longrightarrow> skip_ws (dump_scalar v @ s) = dump_scalar v @ s"
  by (auto dest!: dump_scalar_hd simp: skip_ws_Cons)

lemma skip_ws_dump_members: "ms \<noteq> [] \<Longrightarrow> skip_ws (dump_members ms @ s) = dump_members ms @ s"
  by (induction ms rule: dump_members.induct)
    (simp_all add: dump_str_def skip_ws_Cons is_json_ws_def)

lemma p_members_dump:
  assumes "ms \<noteq> []" and "\<forall>(k, v)\<in>set ms. is_plain_scalar v" and "length ms \<le> n"
  shows "p_members (Suc n) (dump_members ms @ 125 # s) = Some (ms, s)"
  using assms
proof (induction ms arbitrary: n rule: dump_members.induct)
  case (2 k v)
  then obtain n' where n: "n = Suc n'" by (cases n) auto
  from 2 show ?case
    using p_val_scalar [of v 125 n' s]
    by (simp add: n dump_str_def scan_string_dump skip_ws_Cons is_json_ws_def skip_ws_scalar
        del: p_val.simps)
next
  case (3 k v m ms)
  then obtain n' where n: "n = Suc n'" by (cases n) auto
  have "p_members (Suc n') (dump_members (m # ms) @ 125 # s) = Some (m # ms, s)"
    using 3 by (intro 3) (auto simp: n)
  with 3 show ?case
    using p_val_scalar [of v 44 n' "dump_members (m # ms) @ 125 # s"]
      skip_ws_dump_members [of "m # ms" "125 # s"]
    by (simp add: n dump_str_def scan_string_dump skip_ws_Cons is_json_ws_def skip_ws_scalar
        del: p_val.simps)
qed simp

lemma dmerge_distinct: "distinct (dkeys d @ dkeys ms) \<Longrightarrow> dmerge d ms = d @ ms"
proof (induction ms arbitrary: d)
  case (Cons p ms)
  obtain k v where p: "p = (k, v)" by fastforce
  have "dset k v d = d @ [(k, v)]"
    using Cons.prems p by (induction d) auto
  with Cons p show ?case by simp
qed simp

lemma length_dump_members: "length ms \<le> length (dump_members ms)"
  by (induction ms rule: dump_members.induct) (auto simp: dump_str_def)

lemma json_loads_dump_flat:
  assumes "ms \<noteq> []" and "\<forall>(k, v)\<in>set ms. is_plain_scalar v" and "distinct (dkeys ms)"
  shows "json_loads (dump_flat ms) = Some (JObj ms)"
proof -
  let ?m = "dump_members ms @ [125]"
  have start: "skip_ws (dump_flat ms) = 123 # ?m"
    by (simp add: dump_flat_def skip_ws_Cons is_json_ws_def)
  have ws: "skip_ws ?m = ?m" using assms(1) by (rule skip_ws_dump_members)
  obtain r where r: "?m = 34 # r"
    using assms(1) by (cases ms rule: dump_members.cases) (auto simp: dump_str_def)
  have "p_members (Suc (2 * length ?m + 1)) (dump_members ms @ 125 # []) = Some (ms, [])"
    using assms(1,2) length_dump_members [of ms] by (intro p_members_dump) auto
  then have "p_members (2 * length (123 # ?m)) ?m = Some (ms, [])" by simp
  moreover have "dmerge [] ms = ms" using dmerge_distinct [of "[]" ms] assms(3) by simp
  ultimately have "p_val (2 * length (dump_flat ms) + 1) (123 # ?m) = Some (JObj ms, [])"
    using ws r by (simp add: dump_flat_def)
  then show ?thesis by (simp add: json_loads_def start) (simp add: dump_flat_def skip_ws_def)
qed

lemma p_val_enough: "2 * length s + 1 \<le> n \<Longrightarrow> p_val n s = p_val (2 * length s + 1) s"
proof (induction n)
  case (Suc n)
  show ?case
  proof (cases "Suc n = 2 * length s + 1")
    case False
    then have "2 * length s < n" using Suc.prems by simp
    then show ?thesis using parser_fuel(1) [of s n] Suc.IH by simp
  qed (simp only:)
qed simp

text \<open>The JSON reader of \<open>json.loads\<close> is total: the fuel \<open>json_loads\<close> passes (two units per character and
  one more) decides every text, and any larger amount gives the same value, so no answer of the model is
  an exhausted counter.\<close>

lemma json_reader_total:
  assumes "2 * length (skip_ws s) + 1 \<le> n"
  shows "p_val n (skip_ws s) = p_val (2 * length (skip_ws s) + 1) (skip_ws s)"
  using assms by (rule p_val_enough)

end
