(* ===== verification/Signal_Fields.thy ===== *)
theory Signal_Fields
  imports Json
begin

text \<open>
  The judgements on one raw text that the compressor, the selector and the normalizer share
  (\<open>bundle_compression.py\<close>: \<open>LEVEL_RE\<close>, \<open>LEVEL_ORDER\<close>, \<open>metric_pairs\<close>, \<open>span_fields\<close>, \<open>TRACE_ERR_RE\<close>),
  with the regular expressions written out as terms and every exception the code lets through as a
  value.
\<close>

section \<open>JSON values as Python sees them\<close>

fun truthy :: "json \<Rightarrow> bool" where
  "truthy JNull = False"
| "truthy (JBool b) = b"
| "truthy (JInt i) = (i \<noteq> 0)"
| "truthy (JFloat x) = (x \<noteq> Fin 0)"
| "truthy (JStr s) = (s \<noteq> [])"
| "truthy (JArr xs) = (xs \<noteq> [])"
| "truthy (JObj ms) = (ms \<noteq> [])"

definition py_or :: "json \<Rightarrow> json \<Rightarrow> json" where
  "py_or a b = (if truthy a then a else b)"

text \<open>\<open>d.get(k)\<close>, and \<open>d.get(k1) or d.get(k2) or ...\<close> (the last value when none is true).\<close>

definition jget :: "(pystr, json) dict \<Rightarrow> pystr \<Rightarrow> json" where
  "jget d k = (case dget d k of Some v \<Rightarrow> v | None \<Rightarrow> JNull)"

fun first_truthy :: "(pystr, json) dict \<Rightarrow> pystr list \<Rightarrow> json \<Rightarrow> json" where
  "first_truthy d [] dflt = dflt"
| "first_truthy d (k # ks) dflt = (if truthy (jget d k) then jget d k else first_truthy d ks dflt)"

text \<open>\<open>repr\<close> of a text: single quotes unless it holds one and no double quote.\<close>

definition repr_char :: "nat \<Rightarrow> nat \<Rightarrow> pystr" where
  "repr_char q c =
     (if c = q \<or> c = 92 then [92, c]
      else if c = 10 then [92, 110] else if c = 13 then [92, 114] else if c = 9 then [92, 116]
      else if c < 32 \<or> c = 127 then [92, 120, hex_digit (c div 16), hex_digit (c mod 16)]
      else [c])"

definition repr_str :: "pystr \<Rightarrow> pystr" where
  "repr_str s =
     (let q = (if 39 \<in> set s \<and> 34 \<notin> set s then 34 else 39)
      in q # concat (map (repr_char q) s) @ [q])"

fun py_repr :: "json \<Rightarrow> pystr" where
  "py_repr JNull = lit ''None''"
| "py_repr (JBool b) = (if b then lit ''True'' else lit ''False'')"
| "py_repr (JInt i) = str_of_int i"
| "py_repr (JFloat x) = fl_repr x"
| "py_repr (JStr s) = repr_str s"
| "py_repr (JArr xs) = 91 # str_join (lit '', '') (map py_repr xs) @ [93]"
| "py_repr (JObj ms) =
     123 # str_join (lit '', '') (map (\<lambda>(k, v). repr_str k @ lit '': '' @ py_repr v) ms) @ [125]"

definition py_str :: "json \<Rightarrow> pystr" where
  "py_str v = (case v of JStr s \<Rightarrow> s | _ \<Rightarrow> py_repr v)"

text \<open>\<open>float(v)\<close>.\<close>

fun py_float :: "json \<Rightarrow> dbl res" where
  "py_float (JBool b) = Inr (Fin (if b then 1 else 0))"
| "py_float (JInt i) = fl_of_int i"
| "py_float (JFloat x) = Inr x"
| "py_float (JStr s) = fl_of_str s"
| "py_float _ = Inl TypeError"

section \<open>Log level\<close>

definition rx_level :: rx where
  "rx_level = rx_seq [WordB,
     Grp 1 (rx_alt [rx_word_ci ''FATAL'', rx_word_ci ''CRITICAL'', rx_word_ci ''ERROR'',
                    rx_seq [rx_word_ci ''WARN'', rx_opt (rx_word_ci ''ING'')],
                    rx_word_ci ''INFO'', rx_word_ci ''DEBUG'', rx_word_ci ''TRACE'']),
     WordB]"

text \<open>\<open>level_m.group(1).upper() if level_m else "-"\<close>, and its place in \<open>LEVEL_ORDER\<close>.\<close>

definition level_of :: "pystr \<Rightarrow> pystr" where
  "level_of raw = (case re_search rx_level raw of Some h \<Rightarrow> str_upper (hit_group 1 h) | None \<Rightarrow> lit ''-'')"

definition level_order :: "(pystr, nat) dict" where
  "level_order = [(lit ''FATAL'', 0), (lit ''CRITICAL'', 0), (lit ''ERROR'', 0),
                  (lit ''WARN'', 1), (lit ''WARNING'', 1)]"

definition level_rank :: "pystr \<Rightarrow> nat" where
  "level_rank level = (case dget level_order level of Some r \<Rightarrow> r | None \<Rightarrow> 2)"

section \<open>Metric pairs\<close>

definition is_name_start :: "nat \<Rightarrow> bool" where
  "is_name_start c \<longleftrightarrow> is_alpha c \<or> c = 95"

definition is_sign :: "nat \<Rightarrow> bool" where
  "is_sign c \<longleftrightarrow> c = 45 \<or> c = 43"

definition rx_number :: rx where
  "rx_number = rx_seq [rx_opt (Cls is_sign), rx_plus is_digit,
                       rx_opt (rx_seq [rx_chr 46, rx_plus is_digit])]"

definition rx_pair :: rx where
  "rx_pair = rx_seq [Grp 1 (rx_seq [Cls is_name_start, Many (\<lambda>c. is_word c \<or> c = 46 \<or> c = 37 \<or> c = 45)]),
                     rx_chr 61, Grp 2 rx_number]"

definition rx_prom :: rx where
  "rx_prom = rx_seq [AtStart,
     Grp 1 (rx_seq [Cls (\<lambda>c. is_name_start c \<or> c = 58), Many (\<lambda>c. is_name_start c \<or> is_digit c \<or> c = 58)]),
     rx_opt (rx_seq [rx_chr 123, Many (\<lambda>c. c \<noteq> 125), rx_chr 125]),
     rx_plus is_space,
     Grp 2 (rx_seq [rx_number,
        rx_opt (rx_seq [Cls (\<lambda>c. c = 101 \<or> c = 69), rx_opt (Cls is_sign), rx_plus is_digit])]),
     rx_opt (rx_seq [rx_plus is_space, rx_plus is_digit]), Many is_space, AtEnd]"

definition metric_name_keys :: "pystr list" where
  "metric_name_keys = [lit ''metric'', lit ''name'', lit ''__name__'', lit ''metric_name'']"

definition metric_value_keys :: "pystr list" where
  "metric_value_keys = [lit ''value'', lit ''val'', lit ''v'']"

text \<open>\<open>_num\<close>: ints and floats only, not bools; \<open>float\<close> of an int may overflow.\<close>

fun num_of :: "json \<Rightarrow> dbl option res" where
  "num_of (JInt i) = rbind (fl_of_int i) (\<lambda>x. Inr (Some x))"
| "num_of (JFloat x) = Inr (Some x)"
| "num_of _ = Inr None"

fun first_name :: "(pystr, json) dict \<Rightarrow> pystr list \<Rightarrow> pystr option" where
  "first_name d [] = None"
| "first_name d (k # ks) =
     (case jget d k of JStr s \<Rightarrow> if s \<noteq> [] then Some s else first_name d ks | _ \<Rightarrow> first_name d ks)"

fun first_num :: "(pystr, json) dict \<Rightarrow> pystr list \<Rightarrow> dbl option res" where
  "first_num d [] = Inr None"
| "first_num d (k # ks) =
     rbind (num_of (jget d k)) (\<lambda>n. case n of Some x \<Rightarrow> Inr (Some x) | None \<Rightarrow> first_num d ks)"

fun num_fields :: "(pystr, json) dict \<Rightarrow> (pystr \<times> dbl) list res" where
  "num_fields [] = Inr []"
| "num_fields ((k, v) # d) =
     rbind (num_of v) (\<lambda>n. rbind (num_fields d) (\<lambda>ps.
       Inr (case n of Some x \<Rightarrow> (k, x) # ps | None \<Rightarrow> ps)))"

definition text_pairs :: "pystr \<Rightarrow> (pystr \<times> dbl) list res" where
  "text_pairs raw =
     (case re_match rx_prom (str_strip is_space raw) of
        Some m \<Rightarrow> rbind (fl_of_str (hit_group 2 m)) (\<lambda>x. Inr [(hit_group 1 m, x)])
      | None \<Rightarrow> rmap (\<lambda>m. rbind (fl_of_str (hit_group 2 m)) (\<lambda>x. Inr (hit_group 1 m, x)))
                  (re_findall rx_pair raw))"

definition metric_pairs :: "pystr \<Rightarrow> (pystr \<times> dbl) list res" where
  "metric_pairs raw =
     (case loads_dict raw of
        None \<Rightarrow> text_pairs raw
      | Some d \<Rightarrow>
          rbind (first_num d metric_value_keys) (\<lambda>value.
            case (first_name d metric_name_keys, value) of
              (Some name, Some x) \<Rightarrow> Inr [(name, x)]
            | _ \<Rightarrow> rbind (num_fields d) (\<lambda>pairs. if pairs \<noteq> [] then Inr pairs else text_pairs raw)))"

section \<open>Span fields\<close>

definition rx_trace_err :: rx where
  "rx_trace_err = rx_seq [WordB,
     Grp 1 (rx_alt [rx_word_ci ''ERROR'', rx_word_ci ''TIMEOUT'',
                    rx_seq [rx_word_ci ''FAIL'', Many is_word],
                    rx_seq [rx_chr 53, rx_times 2 is_digit]]),
     WordB]"

definition rx_duration :: rx where
  "rx_duration = rx_seq [
     Grp 1 (rx_seq [rx_plus is_digit, rx_opt (rx_seq [rx_chr 46, rx_plus is_digit])]),
     Many is_space,
     Grp 2 (rx_alt [rx_word_ci ''us'', rx_text_ci [0xB5, 115], rx_word_ci ''ms'', rx_word_ci ''s'']),
     WordB]"

text \<open>The unit table is a dict: a unit that is none of its keys raises \<open>KeyError\<close>.\<close>

definition unit_ms :: "(pystr, rat) dict" where
  "unit_ms = [(lit ''us'', fl_val (round_dbl (1 / 1000))), ([0xB5, 115], fl_val (round_dbl (1 / 1000))),
              (lit ''ms'', 1), (lit ''s'', 1000)]"

definition text_duration :: "pystr \<Rightarrow> dbl option res" where
  "text_duration raw =
     (case re_search rx_duration raw of
        None \<Rightarrow> Inr None
      | Some m \<Rightarrow> rbind (fl_of_str (hit_group 1 m)) (\<lambda>x.
          case dget unit_ms (str_lower (hit_group 2 m)) of
            None \<Rightarrow> Inl KeyError
          | Some u \<Rightarrow> Inr (Some (fl_scale u x))))"

definition has_trace_err :: "pystr \<Rightarrow> bool" where
  "has_trace_err s \<longleftrightarrow> re_search rx_trace_err s \<noteq> None"

definition dict_duration :: "(pystr, json) dict \<Rightarrow> dbl option res" where
  "dict_duration d =
     (if jget d (lit ''duration_us'') \<noteq> JNull then
        rbind (py_float (jget d (lit ''duration_us''))) (\<lambda>x. Inr (Some (fl_scale (1 / 1000) x)))
      else if jget d (lit ''duration_ms'') \<noteq> JNull then
        rbind (py_float (jget d (lit ''duration_ms''))) (\<lambda>x. Inr (Some x))
      else if jget d (lit ''duration'') \<noteq> JNull then
        rbind (py_float (jget d (lit ''duration''))) (\<lambda>x. Inr (Some x))
      else Inr None)"

definition span_fields :: "pystr \<Rightarrow> (pystr \<times> dbl option \<times> bool) res" where
  "span_fields raw =
     (case loads_dict raw of
        Some d \<Rightarrow>
          (let operation = first_truthy d [lit ''operation'', lit ''operationName'', lit ''name'', lit ''to'']
                             (JStr (lit ''?''));
               status = py_str (first_truthy d [lit ''status'', lit ''http_status_code''] (JStr []))
           in rbind (dict_duration d) (\<lambda>dur. Inr (py_str operation, dur, has_trace_err status)))
      | None \<Rightarrow> rbind (text_duration raw) (\<lambda>dur. Inr (lit ''?'', dur, has_trace_err raw)))"

end
