(* ===== verification/Contracts.thy ===== *)
theory Contracts
  imports Timestamps Signal_Fields
begin

text \<open>
  The data contracts of \<open>app/schemas/contracts.py\<close>: one record per model, \<open>model_dump\<close> as a JSON object
  with the declared field order under either naming (\<open>alias\<close> is the identity or \<open>to_camel\<close>), and
  \<open>model_validate\<close> as the reading of the declared fields: the alias or the name of a field, its default
  when missing, its type otherwise; unknown keys are ignored. Only the accept/reject decision and the
  value are modelled, the wording of pydantic's error report is a parameter where the code uses it.
\<close>

section \<open>Field names\<close>

definition capitalize_first :: "pystr \<Rightarrow> pystr" where
  "capitalize_first p = str_upper (take 1 p) @ drop 1 p"

definition to_camel :: "pystr \<Rightarrow> pystr" where
  "to_camel snake =
     (case filter (\<lambda>p. p \<noteq> []) (split_on 95 snake) of
        [] \<Rightarrow> snake
      | p # ps \<Rightarrow> p @ concat (map capitalize_first ps))"

section \<open>The bundle\<close>

datatype modality = Log | Metric | Trace

fun modality_name :: "modality \<Rightarrow> pystr" where
  "modality_name Log = lit ''log''"
| "modality_name Metric = lit ''metric''"
| "modality_name Trace = lit ''trace''"

record modality_item =
  mi_timestamp :: pystr
  mi_service :: pystr
  mi_raw :: pystr

record window =
  win_start :: pystr
  win_end :: pystr

record trigger_info =
  trigger_time :: pystr
  triggered_by :: "modality list"

record modality_interval =
  iv_fileName :: pystr
  iv_start :: "pystr option"
  iv_end :: "pystr option"
  iv_status :: "pystr option"
  iv_record_count :: "int option"
  iv_total_count :: "int option"

record modality_info =
  info_log :: "modality_interval list"
  info_metric :: "modality_interval list"
  info_trace :: "modality_interval list"

record ingest_bundle =
  bundle_version :: pystr
  company_code :: pystr
  b_window :: window
  b_trigger :: trigger_info
  b_info :: modality_info
  b_logs :: "modality_item list"
  b_metrics :: "modality_item list"
  b_traces :: "modality_item list"

section \<open>The result\<close>

record log_evidence =
  ev_conclusion :: pystr
  ev_source :: "pystr option"

type_synonym metric_evidence = log_evidence

record trace_evidence = log_evidence +
  ev_origin_service :: "pystr option"

record rca =
  root_cause :: pystr
  propagation :: pystr

record summary =
  highlight :: pystr
  chips :: "pystr list option"
  error_tags :: "pystr list option"
  neutral_tags :: "pystr list option"

record evidence =
  e_log :: log_evidence
  e_trace :: trace_evidence
  e_metric :: metric_evidence

record affected =
  af_service :: pystr
  af_errors :: "int option"
  af_type :: "pystr option"

record impact_metric =
  im_label :: "pystr option"
  im_value :: "pystr option"

record impact =
  im_affected :: "affected list"
  im_metrics :: "impact_metric list option"

record actions =
  steps :: "pystr list"
  recovery :: "pystr option"

record report_detail =
  d_rca :: rca
  d_summary :: summary
  d_evidence :: evidence
  d_impact :: impact
  d_actions :: actions

record rca_result =
  r_type :: pystr
  r_severity :: pystr
  r_service :: pystr
  r_detail :: report_detail

section \<open>Dumping\<close>

text \<open>\<open>model_dump\<close>: each field under its alias; a field without a value is left out
  (\<open>exclude_none=True\<close>) or written as null.\<close>

definition named_fields :: "(pystr \<Rightarrow> pystr) \<Rightarrow> (string \<times> json) list \<Rightarrow> (pystr, json) dict" where
  "named_fields alias fs = map (\<lambda>(n, v). (alias (lit n), v)) fs"

definition jobj :: "(pystr \<Rightarrow> pystr) \<Rightarrow> (string \<times> json) list \<Rightarrow> json" where
  "jobj alias fs = JObj (named_fields alias fs)"

definition opt_field :: "string \<Rightarrow> ('a \<Rightarrow> json) \<Rightarrow> 'a option \<Rightarrow> (string \<times> json) list" where
  "opt_field n f x = (case x of Some v \<Rightarrow> [(n, f v)] | None \<Rightarrow> [])"

definition null_or :: "('a \<Rightarrow> json) \<Rightarrow> 'a option \<Rightarrow> json" where
  "null_or f x = (case x of Some v \<Rightarrow> f v | None \<Rightarrow> JNull)"

definition jstrs :: "pystr list \<Rightarrow> json" where
  "jstrs xs = JArr (map JStr xs)"

definition dump_item :: "modality_item \<Rightarrow> json" where
  "dump_item i = jobj id [(''timestamp'', JStr (mi_timestamp i)), (''service'', JStr (mi_service i)),
                          (''raw'', JStr (mi_raw i))]"

definition dump_items :: "modality_item list \<Rightarrow> json" where
  "dump_items is = JArr (map dump_item is)"

definition dump_window :: "window \<Rightarrow> json" where
  "dump_window w = jobj id [(''start'', JStr (win_start w)), (''end'', JStr (win_end w))]"

definition dump_trigger :: "(pystr \<Rightarrow> pystr) \<Rightarrow> trigger_info \<Rightarrow> json" where
  "dump_trigger alias t = jobj alias
     [(''trigger_time'', JStr (trigger_time t)),
      (''triggered_by'', jstrs (map modality_name (triggered_by t)))]"

definition dump_interval :: "(pystr \<Rightarrow> pystr) \<Rightarrow> modality_interval \<Rightarrow> json" where
  "dump_interval alias v = jobj alias
     [(''fileName'', JStr (iv_fileName v)), (''start'', null_or JStr (iv_start v)),
      (''end'', null_or JStr (iv_end v)), (''status'', null_or JStr (iv_status v)),
      (''record_count'', null_or JInt (iv_record_count v)),
      (''total_count'', null_or JInt (iv_total_count v))]"

definition dump_detail :: "(pystr \<Rightarrow> pystr) \<Rightarrow> modality_interval list \<Rightarrow> json" where
  "dump_detail alias vs = jobj id [(''intervals'', JArr (map (dump_interval alias) vs))]"

definition dump_info :: "(pystr \<Rightarrow> pystr) \<Rightarrow> modality_info \<Rightarrow> json" where
  "dump_info alias m = jobj id
     [(''log'', dump_detail alias (info_log m)), (''metric'', dump_detail alias (info_metric m)),
      (''trace'', dump_detail alias (info_trace m))]"

definition bundle_fields :: "(pystr \<Rightarrow> pystr) \<Rightarrow> ingest_bundle \<Rightarrow> (pystr, json) dict" where
  "bundle_fields alias b = named_fields alias
     [(''bundle_version'', JStr (bundle_version b)), (''company_code'', JStr (company_code b)),
      (''window'', dump_window (b_window b)), (''trigger_info'', dump_trigger alias (b_trigger b)),
      (''modality_info'', dump_info alias (b_info b)), (''logs'', dump_items (b_logs b)),
      (''metrics'', dump_items (b_metrics b)), (''traces'', dump_items (b_traces b))]"

text \<open>The result, always dumped with aliases and without nulls.\<close>

definition dump_log_evidence :: "'a log_evidence_scheme \<Rightarrow> (string \<times> json) list" where
  "dump_log_evidence e = (''conclusion'', JStr (ev_conclusion e)) # opt_field ''source'' JStr (ev_source e)"

definition dump_evidence :: "evidence \<Rightarrow> json" where
  "dump_evidence e = jobj to_camel
     [(''log'', jobj to_camel (dump_log_evidence (e_log e))),
      (''trace'', jobj to_camel (dump_log_evidence (e_trace e) @
                     opt_field ''origin_service'' JStr (ev_origin_service (e_trace e)))),
      (''metric'', jobj to_camel (dump_log_evidence (e_metric e)))]"

definition dump_rca :: "rca \<Rightarrow> json" where
  "dump_rca r = jobj to_camel [(''rootCause'', JStr (root_cause r)), (''propagation'', JStr (propagation r))]"

definition dump_summary :: "summary \<Rightarrow> json" where
  "dump_summary s = jobj to_camel
     ((''highlight'', JStr (highlight s)) # opt_field ''chips'' jstrs (chips s) @
      opt_field ''errorTags'' jstrs (error_tags s) @ opt_field ''neutralTags'' jstrs (neutral_tags s))"

definition dump_affected :: "affected \<Rightarrow> json" where
  "dump_affected a = jobj to_camel
     ((''service'', JStr (af_service a)) # opt_field ''errors'' JInt (af_errors a) @
      opt_field ''type'' JStr (af_type a))"

definition dump_impact_metric :: "impact_metric \<Rightarrow> json" where
  "dump_impact_metric m = jobj to_camel
     (opt_field ''label'' JStr (im_label m) @ opt_field ''value'' JStr (im_value m))"

definition dump_impact :: "impact \<Rightarrow> json" where
  "dump_impact i = jobj to_camel
     ((''affected'', JArr (map dump_affected (im_affected i))) #
      opt_field ''metrics'' (\<lambda>ms. JArr (map dump_impact_metric ms)) (im_metrics i))"

definition dump_actions :: "actions \<Rightarrow> json" where
  "dump_actions a = jobj to_camel
     ((''steps'', jstrs (steps a)) # opt_field ''recovery'' JStr (recovery a))"

definition detail_fields :: "report_detail \<Rightarrow> (pystr, json) dict" where
  "detail_fields d = named_fields to_camel
     [(''rca'', dump_rca (d_rca d)), (''summary'', dump_summary (d_summary d)),
      (''evidence'', dump_evidence (d_evidence d)), (''impact'', dump_impact (d_impact d)),
      (''actions'', dump_actions (d_actions d))]"

definition result_fields :: "rca_result \<Rightarrow> (pystr, json) dict" where
  "result_fields r = named_fields to_camel
     [(''type'', JStr (r_type r)), (''severity'', JStr (r_severity r)), (''service'', JStr (r_service r)),
      (''detail'', JObj (detail_fields (r_detail r)))]"

section \<open>Validating\<close>

text \<open>A field is looked up by its alias, then by its name.\<close>

definition fld :: "(pystr, json) dict \<Rightarrow> string \<Rightarrow> json option" where
  "fld d n = (case dget d (to_camel (lit n)) of Some v \<Rightarrow> Some v | None \<Rightarrow> dget d (lit n))"

definition v_req :: "(json \<Rightarrow> 'a option) \<Rightarrow> (pystr, json) dict \<Rightarrow> string \<Rightarrow> 'a option" where
  "v_req v d n = Option.bind (fld d n) v"

definition v_dflt :: "'a \<Rightarrow> (json \<Rightarrow> 'a option) \<Rightarrow> (pystr, json) dict \<Rightarrow> string \<Rightarrow> 'a option" where
  "v_dflt x v d n = (case fld d n of None \<Rightarrow> Some x | Some j \<Rightarrow> v j)"

fun v_str :: "json \<Rightarrow> pystr option" where
  "v_str (JStr s) = Some s"
| "v_str _ = None"

definition v_iso :: "json \<Rightarrow> pystr option" where
  "v_iso j = Option.bind (v_str j) (\<lambda>s. if valid_iso8601 s then Some s else None)"

text \<open>An \<open>int\<close> field takes an integer; what pydantic makes of any other JSON value (a numeric text, an
  integral float, ...) is its \<open>lax\<close> coercion, a parameter of every validator that has such a field.\<close>

type_synonym lax_int = "json \<Rightarrow> int option"

fun v_int :: "lax_int \<Rightarrow> json \<Rightarrow> int option" where
  "v_int lax (JInt i) = Some i"
| "v_int lax j = lax j"

fun v_nullable :: "(json \<Rightarrow> 'a option) \<Rightarrow> json \<Rightarrow> 'a option option" where
  "v_nullable v JNull = Some None"
| "v_nullable v j = map_option Some (v j)"

fun v_all :: "(json \<Rightarrow> 'a option) \<Rightarrow> json list \<Rightarrow> 'a list option" where
  "v_all v [] = Some []"
| "v_all v (j # js) = Option.bind (v j) (\<lambda>x. map_option ((#) x) (v_all v js))"

fun v_list :: "(json \<Rightarrow> 'a option) \<Rightarrow> json \<Rightarrow> 'a list option" where
  "v_list v (JArr js) = v_all v js"
| "v_list v _ = None"

fun v_obj :: "((pystr, json) dict \<Rightarrow> 'a option) \<Rightarrow> json \<Rightarrow> 'a option" where
  "v_obj f (JObj d) = f d"
| "v_obj f _ = None"

definition v_modality :: "json \<Rightarrow> modality option" where
  "v_modality j = Option.bind (v_str j) (\<lambda>s. find (\<lambda>m. modality_name m = s) [Log, Metric, Trace])"

definition v_item :: "json \<Rightarrow> modality_item option" where
  "v_item = v_obj (\<lambda>d.
     Option.bind (v_req v_iso d ''timestamp'') (\<lambda>t.
     Option.bind (v_dflt [] v_str d ''service'') (\<lambda>s.
     map_option (modality_item.make t s) (v_req v_str d ''raw''))))"

definition v_window :: "json \<Rightarrow> window option" where
  "v_window = v_obj (\<lambda>d.
     Option.bind (v_req v_iso d ''start'') (\<lambda>a. map_option (window.make a) (v_req v_iso d ''end'')))"

definition v_trigger :: "json \<Rightarrow> trigger_info option" where
  "v_trigger = v_obj (\<lambda>d.
     Option.bind (v_req v_iso d ''trigger_time'') (\<lambda>t.
     map_option (trigger_info.make t) (v_dflt [] (v_list v_modality) d ''triggered_by'')))"

definition v_interval :: "lax_int \<Rightarrow> json \<Rightarrow> modality_interval option" where
  "v_interval lax = v_obj (\<lambda>d.
     Option.bind (v_dflt [] v_str d ''fileName'') (\<lambda>f.
     Option.bind (v_dflt None (v_nullable v_iso) d ''start'') (\<lambda>a.
     Option.bind (v_dflt None (v_nullable v_iso) d ''end'') (\<lambda>b.
     Option.bind (v_dflt None (v_nullable v_str) d ''status'') (\<lambda>s.
     Option.bind (v_dflt None (v_nullable (v_int lax)) d ''record_count'') (\<lambda>r.
     map_option (modality_interval.make f a b s r)
       (v_dflt None (v_nullable (v_int lax)) d ''total_count'')))))))"

definition v_detail :: "lax_int \<Rightarrow> json \<Rightarrow> modality_interval list option" where
  "v_detail lax = v_obj (\<lambda>d. v_dflt [] (v_list (v_interval lax)) d ''intervals'')"

definition v_info :: "lax_int \<Rightarrow> json \<Rightarrow> modality_info option" where
  "v_info lax = v_obj (\<lambda>d.
     Option.bind (v_dflt [] (v_detail lax) d ''log'') (\<lambda>l.
     Option.bind (v_dflt [] (v_detail lax) d ''metric'') (\<lambda>m.
     map_option (modality_info.make l m) (v_dflt [] (v_detail lax) d ''trace''))))"

definition validate_bundle :: "lax_int \<Rightarrow> (pystr, json) dict \<Rightarrow> ingest_bundle option" where
  "validate_bundle lax d =
     Option.bind (v_dflt (lit ''1.0'') v_str d ''bundle_version'') (\<lambda>ver.
     Option.bind (v_dflt (lit ''SN001'') v_str d ''company_code'') (\<lambda>code.
     Option.bind (v_req v_window d ''window'') (\<lambda>w.
     Option.bind (v_req v_trigger d ''trigger_info'') (\<lambda>t.
     Option.bind (v_dflt (modality_info.make [] [] []) (v_info lax) d ''modality_info'') (\<lambda>i.
     Option.bind (v_dflt [] (v_list v_item) d ''logs'') (\<lambda>ls.
     Option.bind (v_dflt [] (v_list v_item) d ''metrics'') (\<lambda>ms.
     map_option (ingest_bundle.make ver code w t i ls ms)
       (v_dflt [] (v_list v_item) d ''traces''))))))))"


text \<open>The result. Two models inherit a field set: the trace evidence is a log evidence with one more field.\<close>

definition v_log_evidence :: "json \<Rightarrow> log_evidence option" where
  "v_log_evidence = v_obj (\<lambda>d.
     Option.bind (v_req v_str d ''conclusion'') (\<lambda>c.
     map_option (log_evidence.make c) (v_dflt None (v_nullable v_str) d ''source'')))"

definition v_trace_evidence :: "json \<Rightarrow> trace_evidence option" where
  "v_trace_evidence = v_obj (\<lambda>d.
     Option.bind (v_req v_str d ''conclusion'') (\<lambda>c.
     Option.bind (v_dflt None (v_nullable v_str) d ''source'') (\<lambda>s.
     map_option (trace_evidence.make c s) (v_dflt None (v_nullable v_str) d ''origin_service''))))"

definition v_rca :: "json \<Rightarrow> rca option" where
  "v_rca = v_obj (\<lambda>d.
     Option.bind (v_req v_str d ''rootCause'') (\<lambda>c. map_option (rca.make c) (v_req v_str d ''propagation'')))"

definition v_summary :: "json \<Rightarrow> summary option" where
  "v_summary = v_obj (\<lambda>d.
     Option.bind (v_req v_str d ''highlight'') (\<lambda>h.
     Option.bind (v_dflt None (v_nullable (v_list v_str)) d ''chips'') (\<lambda>c.
     Option.bind (v_dflt None (v_nullable (v_list v_str)) d ''errorTags'') (\<lambda>e.
     map_option (summary.make h c e) (v_dflt None (v_nullable (v_list v_str)) d ''neutralTags'')))))"

definition v_evidence :: "json \<Rightarrow> evidence option" where
  "v_evidence = v_obj (\<lambda>d.
     Option.bind (v_req v_log_evidence d ''log'') (\<lambda>l.
     Option.bind (v_req v_trace_evidence d ''trace'') (\<lambda>t.
     map_option (evidence.make l t) (v_req v_log_evidence d ''metric''))))"

definition v_affected :: "lax_int \<Rightarrow> json \<Rightarrow> affected option" where
  "v_affected lax = v_obj (\<lambda>d.
     Option.bind (v_req v_str d ''service'') (\<lambda>s.
     Option.bind (v_dflt None (v_nullable (v_int lax)) d ''errors'') (\<lambda>e.
     map_option (affected.make s e) (v_dflt None (v_nullable v_str) d ''type''))))"

definition v_impact_metric :: "json \<Rightarrow> impact_metric option" where
  "v_impact_metric = v_obj (\<lambda>d.
     Option.bind (v_dflt None (v_nullable v_str) d ''label'') (\<lambda>l.
     map_option (impact_metric.make l) (v_dflt None (v_nullable v_str) d ''value'')))"

definition v_impact :: "lax_int \<Rightarrow> json \<Rightarrow> impact option" where
  "v_impact lax = v_obj (\<lambda>d.
     Option.bind (v_req (v_list (v_affected lax)) d ''affected'') (\<lambda>a.
     map_option (impact.make a) (v_dflt None (v_nullable (v_list v_impact_metric)) d ''metrics'')))"

definition v_actions :: "json \<Rightarrow> actions option" where
  "v_actions = v_obj (\<lambda>d.
     Option.bind (v_req (v_list v_str) d ''steps'') (\<lambda>s.
     map_option (actions.make s) (v_dflt None (v_nullable v_str) d ''recovery'')))"

definition v_report_detail :: "lax_int \<Rightarrow> json \<Rightarrow> report_detail option" where
  "v_report_detail lax = v_obj (\<lambda>d.
     Option.bind (v_req v_rca d ''rca'') (\<lambda>r.
     Option.bind (v_req v_summary d ''summary'') (\<lambda>s.
     Option.bind (v_req v_evidence d ''evidence'') (\<lambda>e.
     Option.bind (v_req (v_impact lax) d ''impact'') (\<lambda>i.
     map_option (report_detail.make r s e i) (v_req v_actions d ''actions''))))))"

definition validate_result :: "lax_int \<Rightarrow> (pystr, json) dict \<Rightarrow> rca_result option" where
  "validate_result lax d =
     Option.bind (v_req v_str d ''type'') (\<lambda>t.
     Option.bind (v_req v_str d ''severity'') (\<lambda>s.
     Option.bind (v_req v_str d ''service'') (\<lambda>v.
     map_option (rca_result.make t s v) (v_req (v_report_detail lax) d ''detail''))))"

end
