(* ===== verification/Contract_Laws.thy ===== *)
theory Contract_Laws
  imports Contracts
begin

text \<open>
  What the stages of the pipeline rely on in the contracts: a dumped bundle or result reads back as
  itself under either naming, and validation looks at a dictionary only through its fields.
\<close>

section \<open>Field names\<close>

lemma lit_eq_iff: "lit a = lit b \<longleftrightarrow> a = b"
proof -
  have "inj (of_char :: char \<Rightarrow> nat)" by (rule injI) simp
  then show ?thesis by (simp add: lit_def inj_map_eq_map)
qed

lemma split_plain: "c \<notin> set s \<Longrightarrow> split_on c s = [s]"
  by (induction s) auto

lemma to_camel_plain: "95 \<notin> set (lit n) \<Longrightarrow> to_camel (lit n) = lit n"
  by (simp add: to_camel_def split_plain)

text \<open>The fields of all models, by whether the alias differs from the name.\<close>

definition plain_names :: "string list" where
  "plain_names =
     [''window'', ''logs'', ''metrics'', ''traces'', ''timestamp'', ''service'', ''raw'', ''start'',
      ''end'', ''fileName'', ''status'', ''intervals'', ''log'', ''metric'', ''trace'',
      ''conclusion'', ''source'', ''rootCause'', ''propagation'', ''highlight'', ''chips'',
      ''errorTags'', ''neutralTags'', ''errors'', ''type'', ''label'', ''value'', ''affected'',
      ''steps'', ''recovery'', ''severity'', ''detail'', ''rca'', ''summary'', ''evidence'',
      ''impact'', ''actions'']"

definition snake_names :: "(string \<times> string) list" where
  "snake_names =
     [(''bundle_version'', ''bundleVersion''), (''company_code'', ''companyCode''),
      (''trigger_info'', ''triggerInfo''), (''modality_info'', ''modalityInfo''),
      (''trigger_time'', ''triggerTime''), (''triggered_by'', ''triggeredBy''),
      (''record_count'', ''recordCount''), (''total_count'', ''totalCount''),
      (''origin_service'', ''originService'')]"

definition field_names :: "string set" where
  "field_names = set plain_names \<union> fst ` set snake_names"

lemma plain_names_camel: "n \<in> set plain_names \<Longrightarrow> to_camel (lit n) = lit n"
proof (rule to_camel_plain)
  have "list_all (\<lambda>n. 95 \<notin> set (lit n)) plain_names" by (simp add: plain_names_def)
  then show "n \<in> set plain_names \<Longrightarrow> 95 \<notin> set (lit n)" unfolding list_all_iff by blast
qed

lemma snake_names_camel: "list_all (\<lambda>(n, c). to_camel (lit n) = lit c) snake_names"
  by code_simp

lemma snake_names_clear:
  "list_all (\<lambda>(n, c). n \<notin> set plain_names \<and> c \<notin> set plain_names \<and> c \<notin> set (map fst snake_names)) snake_names"
  by (simp add: plain_names_def snake_names_def)

lemma snake_names_distinct: "distinct (map fst snake_names)" "distinct (map snd snake_names)"
  by (simp_all add: snake_names_def)

text \<open>No alias of one field is the alias or the name of another.\<close>

lemma alias_cases:
  assumes "k \<in> field_names"
  obtains "k \<in> set plain_names" "to_camel (lit k) = lit k"
    | c where "(k, c) \<in> set snake_names" "to_camel (lit k) = lit c" "c \<notin> field_names"
proof -
  have "\<exists>c. (k, c) \<in> set snake_names" if "k \<notin> set plain_names"
    using assms that by (auto simp: field_names_def)
  then show thesis
    using that plain_names_camel [of k] snake_names_camel snake_names_clear
    by (fastforce simp: list_all_iff field_names_def)
qed

lemma alias_self:
  assumes "to_camel (lit k) = lit m" and "k \<in> field_names" and "m \<in> field_names"
  shows "k = m"
  using assms(2) by (cases rule: alias_cases) (use assms in \<open>auto simp: lit_eq_iff\<close>)

lemma alias_inj: "inj_on (\<lambda>n. to_camel (lit n)) field_names"
proof (rule inj_onI)
  fix k m assume k: "k \<in> field_names" and m: "m \<in> field_names" and eq: "to_camel (lit k) = to_camel (lit m)"
  from m show "k = m"
  proof (cases rule: alias_cases)
    case 1
    then show ?thesis using alias_self [OF _ k m] eq by simp
  next
    case (2 c)
    from k show ?thesis
    proof (cases rule: alias_cases)
      case 1
      then show ?thesis using 2 eq k by (auto simp: lit_eq_iff)
    next
      case (2 c')
      then have "c' = c" using \<open>to_camel (lit m) = lit c\<close> eq by (simp add: lit_eq_iff)
      then have "(k, c) \<in> set snake_names" using 2 by simp
      then show ?thesis using \<open>(m, c) \<in> set snake_names\<close> snake_names_distinct(2)
        by (fastforce simp: distinct_map inj_on_def)
    qed
  qed
qed

definition valid_alias :: "(pystr \<Rightarrow> pystr) \<Rightarrow> bool" where
  "valid_alias alias \<longleftrightarrow> alias = id \<or> alias = to_camel"

lemma map_of_alias:
  "inj_on f (insert n (fst ` set fs)) \<Longrightarrow> map_of (map (\<lambda>(n, v). (f n, v)) fs) (f n) = map_of fs n"
  by (induction fs) (auto simp: inj_on_def)

lemma fld_dump:
  assumes al: "valid_alias alias" and n: "n \<in> field_names" and fs: "fst ` set fs \<subseteq> field_names"
  shows "fld (named_fields alias fs) n = map_of fs n"
proof (cases "alias = to_camel")
  case True
  have l: "map_of (named_fields alias fs) (to_camel (lit n)) = map_of fs n"
    using map_of_alias [OF inj_on_subset [OF alias_inj], of n fs] n fs True by (simp add: named_fields_def)
  have "map_of (named_fields alias fs) (lit n) = None" if none: "map_of fs n = None"
  proof -
    have "to_camel (lit m) \<noteq> lit n" if "(m, v) \<in> set fs" for m v
    proof
      assume "to_camel (lit m) = lit n"
      moreover have "m \<in> field_names" using fs that by force
      ultimately have "m = n" using n by (rule alias_self)
      then show False using none that by (auto simp: map_of_eq_None_iff image_iff)
    qed
    then show ?thesis using True by (force simp: named_fields_def map_of_eq_None_iff)
  qed
  then show ?thesis using l by (cases "map_of fs n") (auto simp: fld_def)
next
  case False
  then have a: "alias = id" using al by (simp add: valid_alias_def)
  have i: "map_of (named_fields id fs) (lit n) = map_of fs n"
    unfolding named_fields_def using map_of_alias [of lit n fs] by (simp add: inj_on_def lit_eq_iff)
  show ?thesis
  proof (cases "map_of (named_fields id fs) (to_camel (lit n))")
    case (Some v)
    then obtain m where m: "(m, v) \<in> set fs" "to_camel (lit n) = lit m"
      by (auto simp: named_fields_def dest!: map_of_SomeD)
    then have "m \<in> field_names" using fs by force
    then have "n = m" using alias_self [OF m(2) n] by simp
    then show ?thesis using Some i m by (simp add: fld_def a)
  qed (simp add: fld_def a i)
qed

lemma valid_aliases [simp]: "valid_alias id" "valid_alias to_camel"
  by (simp_all add: valid_alias_def)

lemma is_field [simp]:
  "''window'' \<in> field_names"
  "''logs'' \<in> field_names"
  "''metrics'' \<in> field_names"
  "''traces'' \<in> field_names"
  "''timestamp'' \<in> field_names"
  "''service'' \<in> field_names"
  "''raw'' \<in> field_names"
  "''start'' \<in> field_names"
  "''end'' \<in> field_names"
  "''fileName'' \<in> field_names"
  "''status'' \<in> field_names"
  "''intervals'' \<in> field_names"
  "''log'' \<in> field_names"
  "''metric'' \<in> field_names"
  "''trace'' \<in> field_names"
  "''conclusion'' \<in> field_names"
  "''source'' \<in> field_names"
  "''rootCause'' \<in> field_names"
  "''propagation'' \<in> field_names"
  "''highlight'' \<in> field_names"
  "''chips'' \<in> field_names"
  "''errorTags'' \<in> field_names"
  "''neutralTags'' \<in> field_names"
  "''errors'' \<in> field_names"
  "''type'' \<in> field_names"
  "''label'' \<in> field_names"
  "''value'' \<in> field_names"
  "''affected'' \<in> field_names"
  "''steps'' \<in> field_names"
  "''recovery'' \<in> field_names"
  "''severity'' \<in> field_names"
  "''detail'' \<in> field_names"
  "''rca'' \<in> field_names"
  "''summary'' \<in> field_names"
  "''evidence'' \<in> field_names"
  "''impact'' \<in> field_names"
  "''actions'' \<in> field_names"
  "''bundle_version'' \<in> field_names"
  "''company_code'' \<in> field_names"
  "''trigger_info'' \<in> field_names"
  "''modality_info'' \<in> field_names"
  "''trigger_time'' \<in> field_names"
  "''triggered_by'' \<in> field_names"
  "''record_count'' \<in> field_names"
  "''total_count'' \<in> field_names"
  "''origin_service'' \<in> field_names"
  by (simp_all add: field_names_def plain_names_def snake_names_def)

lemmas reading = fld_dump v_req_def v_dflt_def null_or_def jobj_def

section \<open>Reading back the parts\<close>

lemma v_all_map: "(\<And>x. x \<in> set xs \<Longrightarrow> v (f x) = Some x) \<Longrightarrow> v_all v (map f xs) = Some xs"
  by (induction xs) auto

lemma v_strs: "v_list v_str (jstrs xs) = Some xs"
  by (simp add: jstrs_def v_all_map)

lemma v_nullable_some: "j \<noteq> JNull \<Longrightarrow> v_nullable v j = map_option Some (v j)"
  by (cases j) simp_all

definition wf_item :: "modality_item \<Rightarrow> bool" where
  "wf_item i \<longleftrightarrow> valid_iso8601 (mi_timestamp i)"

fun iso_or_none :: "pystr option \<Rightarrow> bool" where
  "iso_or_none None = True"
| "iso_or_none (Some t) = valid_iso8601 t"

definition wf_interval :: "modality_interval \<Rightarrow> bool" where
  "wf_interval v \<longleftrightarrow> iso_or_none (iv_start v) \<and> iso_or_none (iv_end v)"

definition wf_bundle :: "ingest_bundle \<Rightarrow> bool" where
  "wf_bundle b \<longleftrightarrow>
     valid_iso8601 (win_start (b_window b)) \<and> valid_iso8601 (win_end (b_window b)) \<and>
     valid_iso8601 (trigger_time (b_trigger b)) \<and>
     list_all wf_interval (info_log (b_info b) @ info_metric (b_info b) @ info_trace (b_info b)) \<and>
     list_all wf_item (b_logs b @ b_metrics b @ b_traces b)"

lemma v_item_dump: "wf_item i \<Longrightarrow> v_item (dump_item i) = Some i"
  by (simp add: v_item_def dump_item_def wf_item_def v_iso_def reading modality_item.defs
           del: lit_simps)

lemma v_items_dump: "list_all wf_item is \<Longrightarrow> v_list v_item (dump_items is) = Some is"
  by (auto simp: dump_items_def list_all_iff intro!: v_all_map v_item_dump)

lemma v_window_dump:
  "valid_iso8601 (win_start w) \<Longrightarrow> valid_iso8601 (win_end w) \<Longrightarrow> v_window (dump_window w) = Some w"
  by (simp add: v_window_def dump_window_def v_iso_def reading window.defs del: lit_simps)

lemma v_modality_name: "v_modality (JStr (modality_name m)) = Some m"
  by (cases m) (simp_all add: v_modality_def lit_eq_iff del: lit_simps)

lemma v_trigger_dump:
  "valid_iso8601 (trigger_time t) \<Longrightarrow> valid_alias alias \<Longrightarrow> v_trigger (dump_trigger alias t) = Some t"
  by (auto simp: v_trigger_def dump_trigger_def v_iso_def reading trigger_info.defs
      jstrs_def v_all_map v_modality_name simp del: lit_simps)

lemma v_interval_dump:
  "wf_interval v \<Longrightarrow> valid_alias alias \<Longrightarrow> v_interval lax (dump_interval alias v) = Some v"
  by (cases v; auto simp: v_interval_def dump_interval_def v_iso_def reading wf_interval_def
      modality_interval.defs simp del: lit_simps split: option.splits)

lemma v_detail_dump:
  "list_all wf_interval vs \<Longrightarrow> valid_alias alias \<Longrightarrow> v_detail lax (dump_detail alias vs) = Some vs"
  by (auto simp: v_detail_def dump_detail_def reading list_all_iff v_all_map v_interval_dump
      simp del: lit_simps)

lemma v_info_dump:
  "list_all wf_interval (info_log m @ info_metric m @ info_trace m) \<Longrightarrow> valid_alias alias \<Longrightarrow>
     v_info lax (dump_info alias m) = Some m"
  by (cases m; auto simp: v_info_def dump_info_def reading v_detail_dump modality_info.defs
      simp del: lit_simps)

section \<open>Bundles\<close>

lemma validate_bundle_dump:
  assumes "wf_bundle b" and "valid_alias alias"
  shows "validate_bundle lax (bundle_fields alias b) = Some b"
  using assms
  by (cases b; auto simp: validate_bundle_def bundle_fields_def reading wf_bundle_def v_items_dump
      v_window_dump v_trigger_dump v_info_dump ingest_bundle.defs simp del: lit_simps)

lemma validate_bundle_cong:
  assumes "\<And>k. dget d k = dget d' k" shows "validate_bundle lax d = validate_bundle lax d'"
proof -
  have "dget d = dget d'" by (rule ext) (rule assms)
  then show ?thesis by (simp only: validate_bundle_def v_req_def v_dflt_def fld_def)
qed

section \<open>Results\<close>

definition opt_read :: "(json \<Rightarrow> 'a option) \<Rightarrow> json option \<Rightarrow> 'a option option" where
  "opt_read v j = (case j of None \<Rightarrow> Some None | Some j \<Rightarrow> v_nullable v j)"

lemma map_of_opt_field: "map_of (opt_field n f x) m = (if m = n then map_option f x else None)"
  by (cases x) (simp_all add: opt_field_def)

lemma map_add_opt:
  "(m ++ map_of (opt_field n f x)) k = (if k = n \<and> x \<noteq> None then map_option f x else m k)"
  by (cases x) (simp_all add: map_add_def opt_field_def)

lemma if_opt_read: "(if P \<and> x \<noteq> None then map_option f x else None) = (if P then map_option f x else None)"
  by (cases x) simp_all

lemma opt_field_names: "n \<in> field_names \<Longrightarrow> fst ` set (opt_field n f x) \<subseteq> field_names"
  by (cases x) (simp_all add: opt_field_def)

lemma opt_read_None [simp]: "opt_read v None = Some None"
  by (simp add: opt_read_def)

lemma v_opt:
  assumes "\<And>y. x = Some y \<Longrightarrow> f y \<noteq> JNull \<and> v (f y) = Some y"
  shows "opt_read v (map_option f x) = Some x"
  using assms by (cases x) (auto simp: v_nullable_some opt_read_def)

lemma v_opt_str [simp]: "opt_read v_str (map_option JStr x) = Some x"
  by (rule v_opt) simp

lemma v_opt_int [simp]: "opt_read (v_int lax) (map_option JInt x) = Some x"
  by (rule v_opt) simp

lemma v_opt_strs [simp]: "opt_read (v_list v_str) (map_option jstrs x) = Some x"
  by (rule v_opt) (simp add: v_strs, simp add: jstrs_def)

lemma v_dflt_opt: "v_dflt None (v_nullable v) d n = opt_read v (fld d n)"
  by (simp add: v_dflt_def opt_read_def)

lemmas reading_opt = fld_dump v_req_def v_dflt_opt jobj_def map_of_opt_field opt_field_names
  image_Un map_add_opt if_opt_read

lemma v_log_evidence_dump: "v_log_evidence (jobj to_camel (dump_log_evidence e)) = Some e"
  for e :: log_evidence
  by (cases e) (simp add: v_log_evidence_def dump_log_evidence_def reading_opt log_evidence.defs del: lit_simps)

lemma v_trace_evidence_dump:
  "v_trace_evidence (jobj to_camel
     (dump_log_evidence e @ opt_field ''origin_service'' JStr (ev_origin_service e))) = Some e"
  by (cases e) (simp add: v_trace_evidence_def dump_log_evidence_def reading_opt trace_evidence.defs del: lit_simps)

lemma v_evidence_dump: "v_evidence (dump_evidence e) = Some e"
  by (cases e) (simp add: v_evidence_def dump_evidence_def v_log_evidence_dump [unfolded jobj_def]
      v_trace_evidence_dump [unfolded jobj_def]
      reading evidence.defs del: lit_simps)

lemma v_rca_dump: "v_rca (dump_rca r) = Some r"
  by (cases r) (simp add: v_rca_def dump_rca_def reading rca.defs del: lit_simps)

lemma v_summary_dump: "v_summary (dump_summary r) = Some r"
  by (cases r) (simp add: v_summary_def dump_summary_def reading_opt summary.defs del: lit_simps)

lemma v_affected_dump: "v_affected lax (dump_affected a) = Some a"
  by (cases a) (simp add: v_affected_def dump_affected_def reading_opt affected.defs del: lit_simps)

lemma v_impact_metric_dump: "v_impact_metric (dump_impact_metric a) = Some a"
  by (cases a) (simp add: v_impact_metric_def dump_impact_metric_def reading_opt impact_metric.defs del: lit_simps)

lemma v_impact_dump: "v_impact lax (dump_impact i) = Some i"
proof -
  have "opt_read (v_list v_impact_metric) (map_option (\<lambda>ms. JArr (map dump_impact_metric ms)) x) = Some x" for x
    by (rule v_opt) (simp add: v_all_map v_impact_metric_dump)
  then show ?thesis
    by (cases i) (simp add: v_impact_def dump_impact_def reading_opt v_all_map v_affected_dump impact.defs
        del: lit_simps)
qed

lemma v_actions_dump: "v_actions (dump_actions r) = Some r"
  by (cases r) (simp add: v_actions_def dump_actions_def reading_opt v_strs actions.defs del: lit_simps)

lemma v_report_detail_dump: "v_report_detail lax (JObj (detail_fields d)) = Some d"
  by (cases d) (simp add: v_report_detail_def detail_fields_def reading v_rca_dump v_summary_dump
      v_evidence_dump v_impact_dump v_actions_dump report_detail.defs del: lit_simps)

lemma validate_result_dump: "validate_result lax (result_fields r) = Some r"
  by (cases r) (simp add: validate_result_def result_fields_def reading v_report_detail_dump
      rca_result.defs del: lit_simps)

section \<open>Properties\<close>

definition sample_bundle :: ingest_bundle where
  "sample_bundle =
     \<lparr>bundle_version = lit ''1.0'', company_code = lit ''SN001'',
      b_window = \<lparr>win_start = lit ''2026-07-24T02:33:23'', win_end = lit ''2026-07-24T02:43:23''\<rparr>,
      b_trigger = \<lparr>trigger_time = lit ''2026-07-24T02:33:23Z'', triggered_by = [Log, Trace]\<rparr>,
      b_info = \<lparr>info_log = [\<lparr>iv_fileName = lit ''app.log'', iv_start = Some (lit ''2026-07-24T02:33:23''),
                  iv_end = None, iv_status = Some (lit ''data''), iv_record_count = Some 2, iv_total_count = None\<rparr>],
                info_metric = [], info_trace = []\<rparr>,
      b_logs = [\<lparr>mi_timestamp = lit ''2026-07-24T02:33:24'', mi_service = lit ''cart'', mi_raw = lit ''ERROR boom''\<rparr>],
      b_metrics = [], b_traces = []\<rparr>"

lemma wf_sample_bundle: "wf_bundle sample_bundle"
  by code_simp

text \<open>The models round-trip: a bundle dumped under either naming (\<open>by_alias\<close> or not) validates to the same
  bundle, defaults and nulls included.\<close>

theorem bundle_roundtrip:
  assumes "wf_bundle b" and "alias = id \<or> alias = to_camel"
  shows "validate_bundle lax (bundle_fields alias b) = Some b"
  using assms by (simp add: validate_bundle_dump valid_alias_def)

theorem bundle_roundtrip_witness:
  "validate_bundle (\<lambda>_. None) (bundle_fields to_camel sample_bundle) = Some sample_bundle"
  by (rule bundle_roundtrip) (simp_all add: wf_sample_bundle)

text \<open>A stored result survives the database: the dictionary written with aliases and without nulls
  (\<open>by_alias=True, exclude_none=True\<close>) validates to the result it came from, so a redelivery sends what
  was analysed.\<close>

theorem result_roundtrip: "validate_result lax (result_fields r) = Some r"
  by (rule validate_result_dump)

end
