(* ===== verification/Json_Text.thy ===== *)
theory Json_Text
  imports Json
begin

text \<open>
  \<open>json.dump(payload, f, ensure_ascii=False)\<close>, the text the bundle store writes, and the proof that
  \<open>json.load\<close> reads it back. The default separators are \<open>", "\<close> and \<open>": "\<close>.
\<close>

fun dump_float :: "dbl \<Rightarrow> pystr" where
  "dump_float PInf = lit ''Infinity''"
| "dump_float NInf = lit ''-Infinity''"
| "dump_float NaN = lit ''NaN''"
| "dump_float x = fl_repr x"

fun dump_json :: "json \<Rightarrow> pystr"
  and dump_elems :: "json list \<Rightarrow> pystr"
  and dump_pairs :: "(pystr \<times> json) list \<Rightarrow> pystr"
where
  "dump_json (JFloat x) = dump_float x"
| "dump_json (JArr vs) = 91 # dump_elems vs @ [93]"
| "dump_json (JObj ms) = 123 # dump_pairs ms @ [125]"
| "dump_json v = dump_scalar v"
| "dump_elems [] = []"
| "dump_elems (v # vs) = dump_json v @ (if vs = [] then [] else 44 # 32 # dump_elems vs)"
| "dump_pairs [] = []"
| "dump_pairs ((k, v) # ms) =
     dump_str k @ 58 # 32 # dump_json v @ (if ms = [] then [] else 44 # 32 # dump_pairs ms)"

text \<open>The values that are written and read exactly: no floats, each key once.\<close>

fun plain_json :: "json \<Rightarrow> bool"
  and plain_elems :: "json list \<Rightarrow> bool"
  and plain_pairs :: "(pystr \<times> json) list \<Rightarrow> bool"
where
  "plain_json (JFloat x) = False"
| "plain_json (JArr vs) = plain_elems vs"
| "plain_json (JObj ms) = (distinct (dkeys ms) \<and> plain_pairs ms)"
| "plain_json v = True"
| "plain_elems [] = True"
| "plain_elems (v # vs) = (plain_json v \<and> plain_elems vs)"
| "plain_pairs [] = True"
| "plain_pairs ((k, v) # ms) = (plain_json v \<and> plain_pairs ms)"

fun is_container :: "json \<Rightarrow> bool" where
  "is_container (JArr _) = True"
| "is_container (JObj _) = True"
| "is_container _ = False"

lemma dump_json_hd: "plain_json v \<Longrightarrow> \<exists>c r. dump_json v = c # r \<and> \<not> is_json_ws c \<and> c \<noteq> 93"
proof (cases v)
  case (JInt i)
  obtain a q where "str_of_nat (nat \<bar>i\<bar>) = a # q" by (meson list.exhaust str_of_nat_nonempty)
  with str_of_nat_digits [of a "nat \<bar>i\<bar>"] show ?thesis
    by (auto simp: JInt str_of_int_def is_json_ws_def is_digit_def)
qed (auto simp: is_json_ws_def dump_str_def)

lemma skip_ws_dump: "plain_json v \<Longrightarrow> skip_ws (dump_json v @ s) = dump_json v @ s"
  by (auto dest!: dump_json_hd simp: skip_ws_Cons)

lemma skip_ws_space: "skip_ws (32 # s) = skip_ws s"
  by (simp add: skip_ws_def is_json_ws_def)

lemma skip_ws_pairs: "ms \<noteq> [] \<Longrightarrow> skip_ws (dump_pairs ms @ s) = dump_pairs ms @ s"
  by (cases ms) (auto simp: dump_str_def skip_ws_Cons is_json_ws_def)

lemma skip_ws_elems: "vs \<noteq> [] \<Longrightarrow> plain_elems vs \<Longrightarrow> skip_ws (dump_elems vs @ s) = dump_elems vs @ s"
  by (cases vs) (auto simp: skip_ws_dump)

lemma dump_elems_hd: "vs \<noteq> [] \<Longrightarrow> plain_elems vs \<Longrightarrow>
    \<exists>c r. dump_elems vs @ s = c # r \<and> \<not> is_json_ws c \<and> c \<noteq> 93"
  by (cases vs) (auto dest: dump_json_hd)

definition ends_value :: "pystr \<Rightarrow> bool" where
  "ends_value s \<longleftrightarrow> (\<exists>c r. s = c # r \<and> (c = 44 \<or> c = 93 \<or> c = 125))"

lemma ends_value_simps [simp]: "ends_value (44 # s)" "ends_value (93 # s)" "ends_value (125 # s)"
  by (simp_all add: ends_value_def)

lemma p_val_atom:
  assumes "ends_value s" and "is_plain_scalar v"
    and "0 < n"
  shows "p_val n (dump_json v @ s) = Some (v, s)"
proof -
  have "dump_json v = dump_scalar v" using assms(2) by (cases v) simp_all
  with assms p_val_scalar show ?thesis by (auto simp: ends_value_def gr0_conv_Suc simp del: p_val.simps)
qed

lemma parse_dump:
  "plain_json v \<Longrightarrow> is_container v \<or> ends_value s \<Longrightarrow> length (dump_json v) < n \<Longrightarrow>
     p_val n (dump_json v @ s) = Some (v, s)"
  "plain_elems vs \<Longrightarrow> vs \<noteq> [] \<Longrightarrow> length (dump_elems vs) + 1 < n \<Longrightarrow>
     p_items n (dump_elems vs @ 93 # s) = Some (vs, s)"
  "plain_pairs ms \<Longrightarrow> ms \<noteq> [] \<Longrightarrow> length (dump_pairs ms) + 1 < n \<Longrightarrow>
     p_members n (dump_pairs ms @ 125 # s) = Some (ms, s)"
proof (induction v and vs and ms arbitrary: n s and n s and n s rule: dump_json_dump_elems_dump_pairs.induct)
  case (2 vs)
  then obtain k where n: "n = Suc k" by (cases n) auto
  show ?case
  proof (cases "vs = []")
    case False
    then obtain c r where "dump_elems vs @ 93 # s = c # r" "\<not> is_json_ws c" "c \<noteq> 93"
      using dump_elems_hd [of vs "93 # s"] 2 by auto
    moreover have "p_items k (dump_elems vs @ 93 # s) = Some (vs, s)"
      using 2 False by (intro 2) (auto simp: n)
    ultimately show ?thesis by (simp add: n skip_ws_Cons)
  qed (simp add: n skip_ws_Cons is_json_ws_def)
next
  case (3 ms)
  then obtain k where n: "n = Suc k" by (cases n) auto
  show ?case
  proof (cases "ms = []")
    case False
    then obtain r where "dump_pairs ms @ 125 # s = 34 # r" by (cases ms) (auto simp: dump_str_def)
    moreover have "p_members k (dump_pairs ms @ 125 # s) = Some (ms, s)"
      using 3 False by (intro 3) (auto simp: n)
    moreover have "dmerge [] ms = ms" using dmerge_distinct [of "[]" ms] 3 by simp
    ultimately show ?thesis by (simp add: n skip_ws_Cons is_json_ws_def)
  qed (simp add: n skip_ws_Cons is_json_ws_def)
next
  case (6 v vs)
  then obtain k where n: "n = Suc k" by (cases n) auto
  show ?case
  proof (cases "vs = []")
    case True
    have "p_val k (dump_json v @ 93 # s) = Some (v, 93 # s)"
      using 6 True by (intro 6) (auto simp: n)
    then show ?thesis by (simp add: True n skip_ws_Cons is_json_ws_def)
  next
    case False
    have "p_val k (dump_json v @ 44 # 32 # dump_elems vs @ 93 # s) = Some (v, 44 # 32 # dump_elems vs @ 93 # s)"
      using 6 False by (intro 6) (auto simp: n)
    moreover have "p_items k (dump_elems vs @ 93 # s) = Some (vs, s)"
      using 6 False by (intro 6) (auto simp: n)
    ultimately show ?thesis using False 6
      by (simp add: n skip_ws_Cons skip_ws_space skip_ws_elems is_json_ws_def)
  qed
next
  case (8 key v ms)
  then obtain k where n: "n = Suc k" by (cases n) auto
  have str: "dump_str key @ r = 34 # concat (map esc_char key) @ 34 # r" for r
    by (simp add: dump_str_def)
  show ?case
  proof (cases "ms = []")
    case True
    have "p_val k (dump_json v @ 125 # s) = Some (v, 125 # s)"
      using 8 True by (intro 8) (auto simp: n)
    then show ?thesis using 8
      by (simp add: True n str scan_string_dump skip_ws_Cons skip_ws_space skip_ws_dump is_json_ws_def)
  next
    case False
    have "p_val k (dump_json v @ 44 # 32 # dump_pairs ms @ 125 # s) = Some (v, 44 # 32 # dump_pairs ms @ 125 # s)"
      using 8 False by (intro 8) (auto simp: n)
    moreover have "p_members k (dump_pairs ms @ 125 # s) = Some (ms, s)"
      using 8 False by (intro 8) (auto simp: n)
    ultimately show ?thesis using 8 False
      by (simp add: n str scan_string_dump skip_ws_Cons skip_ws_space skip_ws_dump skip_ws_pairs is_json_ws_def)
  qed
qed (auto intro!: p_val_atom simp del: p_val.simps dump_json.simps)

lemma json_loads_dump:
  assumes "plain_json v" and "is_container v"
  shows "json_loads (dump_json v) = Some v"
proof -
  obtain c r where c: "dump_json v = c # r" "\<not> is_json_ws c" using dump_json_hd [OF assms(1)] by blast
  have "c \<noteq> 0xFEFF" using assms(2) c by (cases v) auto
  moreover have "p_val (2 * length (dump_json v) + 1) (dump_json v @ []) = Some (v, [])"
    by (rule parse_dump) (use assms in auto)
  moreover have "skip_ws (dump_json v) = dump_json v" using skip_ws_dump [OF assms(1), of "[]"] by simp
  moreover have "skip_ws [] = []" by (simp add: skip_ws_def)
  ultimately show ?thesis using c by (simp add: json_loads_def del: p_val.simps)
qed

section \<open>Properties\<close>



end
