(* ===== verification/Bundle_Store.thy ===== *)
theory Bundle_Store
  imports Contract_Laws Json_Text
begin

text \<open>
  The file store of \<open>app/services/bundle_store.py\<close>: the three signal arrays of a bundle go to a file,
  the rest stays in the database. A store is a dictionary from names to files (text and modification
  time, in seconds); writing goes through a temporary name and an atomic rename. The random part of a
  new name (\<open>uuid4().hex\<close>) is an argument, as are the clock and the files the operating system
  refuses to remove.
\<close>

record stored_file =
  f_text :: pystr
  f_mtime :: int

type_synonym files = "(pystr, stored_file) dict"

section \<open>Names\<close>

text \<open>\<open>Path(name).name\<close>: the last component, without \<open>.\<close> components and empty ones.\<close>

definition base_name :: "pystr \<Rightarrow> pystr" where
  "base_name n =
     (case rev (filter (\<lambda>p. p \<noteq> [] \<and> p \<noteq> lit ''.'') (split_on 47 n)) of [] \<Rightarrow> [] | p # _ \<Rightarrow> p)"

definition is_directory :: "pystr \<Rightarrow> bool" where
  "is_directory n \<longleftrightarrow> n = [] \<or> n = lit ''..''"

definition is_file_name :: "pystr \<Rightarrow> bool" where
  "is_file_name n \<longleftrightarrow> base_name n = n \<and> \<not> is_directory n"

definition signal_keys :: "pystr list" where
  "signal_keys = [lit ''logs'', lit ''metrics'', lit ''traces'']"

section \<open>Writing\<close>

definition remove_file :: "pystr \<Rightarrow> files \<Rightarrow> files" where
  "remove_file n fs = AList.delete n fs"

definition os_replace :: "pystr \<Rightarrow> pystr \<Rightarrow> files \<Rightarrow> files" where
  "os_replace tmp final fs =
     (case dget fs tmp of None \<Rightarrow> fs | Some f \<Rightarrow> dset final f (remove_file tmp fs))"

definition final_name :: "pystr \<Rightarrow> pystr" where
  "final_name hex = hex @ lit ''.json''"

definition tmp_name :: "pystr \<Rightarrow> pystr" where
  "tmp_name hex = hex @ lit ''.tmp''"

definition write_tmp :: "int \<Rightarrow> pystr \<Rightarrow> json \<Rightarrow> files \<Rightarrow> files" where
  "write_tmp now hex payload fs = dset (tmp_name hex) \<lparr>f_text = dump_json payload, f_mtime = now\<rparr> fs"

definition write_sync :: "int \<Rightarrow> pystr \<Rightarrow> json \<Rightarrow> files \<Rightarrow> pystr \<times> files" where
  "write_sync now hex payload fs =
     (final_name hex, os_replace (tmp_name hex) (final_name hex) (write_tmp now hex payload fs))"

definition signals_of :: "(pystr, json) dict \<Rightarrow> (pystr, json) dict" where
  "signals_of d = map (\<lambda>k. (k, py_or (jget d k) (JArr []))) signal_keys"

definition light_of :: "(pystr, json) dict \<Rightarrow> (pystr, json) dict" where
  "light_of d = filter (\<lambda>(k, v). k \<notin> set signal_keys) d"

definition split_and_save ::
  "int \<Rightarrow> pystr \<Rightarrow> (pystr, json) dict \<Rightarrow> files \<Rightarrow> (pystr, json) dict \<times> pystr \<times> files" where
  "split_and_save now hex d fs = (light_of d, write_sync now hex (JObj (signals_of d)) fs)"

section \<open>Reading\<close>

text \<open>The messages are the Korean texts of the source, followed by the name.\<close>

definition missing_text :: pystr where
  "missing_text = [48264, 46308, 32, 50896, 48376, 32, 54028, 51068, 32, 50630, 51020, 58, 32]"

definition broken_text :: pystr where
  "broken_text = [48264, 46308, 32, 50896, 48376, 32, 54028, 51068, 32, 49552, 49345, 58, 32]"

definition read_sync :: "files \<Rightarrow> pystr \<Rightarrow> json res" where
  "read_sync fs n =
     (if is_directory (base_name n) then Inl OSError
      else case dget fs (base_name n) of
             None \<Rightarrow> Inl (SignalsMissing (missing_text @ n))
           | Some f \<Rightarrow> (case json_loads (f_text f) of
                           None \<Rightarrow> Inl (SignalsMissing (broken_text @ n))
                         | Some j \<Rightarrow> Inr j))"

text \<open>\<open>IngestBundle.model_validate\<close>, with the model's name as the text of its \<open>ValidationError\<close>.\<close>

definition model_validate :: "lax_int \<Rightarrow> (pystr, json) dict \<Rightarrow> ingest_bundle res" where
  "model_validate lax d =
     (case validate_bundle lax d of
        None \<Rightarrow> Inl (ValidationError (lit ''IngestBundle''))
      | Some b \<Rightarrow> Inr b)"

fun merge_signals :: "(pystr, json) dict \<Rightarrow> json \<Rightarrow> (pystr, json) dict res" where
  "merge_signals stored (JObj d) = Inr (dmerge stored d)"
| "merge_signals stored _ = Inl TypeError"

definition restore_bundle ::
  "lax_int \<Rightarrow> files \<Rightarrow> (pystr, json) dict \<Rightarrow> pystr option \<Rightarrow> ingest_bundle res" where
  "restore_bundle lax fs stored path =
     (case path of
        None \<Rightarrow> model_validate lax stored
      | Some n \<Rightarrow> rbind (read_sync fs n) (\<lambda>j. rbind (merge_signals stored j) (model_validate lax)))"

section \<open>Deleting\<close>

definition discard_sync :: "pystr set \<Rightarrow> files \<Rightarrow> pystr \<Rightarrow> bool res \<times> files" where
  "discard_sync stuck fs n =
     (if is_directory (base_name n) then (Inl OSError, fs)
      else case dget fs (base_name n) of
             None \<Rightarrow> (Inr False, fs)
           | Some _ \<Rightarrow> if base_name n \<in> stuck then (Inl OSError, fs)
                       else (Inr True, remove_file (base_name n) fs))"

definition discard :: "pystr set \<Rightarrow> pystr option \<Rightarrow> files \<Rightarrow> files" where
  "discard stuck path fs =
     (case path of None \<Rightarrow> fs | Some n \<Rightarrow> if n = [] then fs else snd (discard_sync stuck fs n))"

fun sweep_loop :: "pystr set \<Rightarrow> int \<Rightarrow> pystr set \<Rightarrow> pystr list \<Rightarrow> nat \<Rightarrow> files \<Rightarrow> nat \<times> files" where
  "sweep_loop stuck cutoff keep [] removed fs = (removed, fs)"
| "sweep_loop stuck cutoff keep (n # ns) removed fs =
     (if n \<in> keep then sweep_loop stuck cutoff keep ns removed fs
      else case dget fs n of
             None \<Rightarrow> sweep_loop stuck cutoff keep ns removed fs
           | Some f \<Rightarrow>
               if f_mtime f < cutoff \<and> n \<notin> stuck
               then sweep_loop stuck cutoff keep ns (Suc removed) (remove_file n fs)
               else sweep_loop stuck cutoff keep ns removed fs)"

definition sweep_sync :: "pystr set \<Rightarrow> int \<Rightarrow> int \<Rightarrow> pystr set \<Rightarrow> files \<Rightarrow> nat \<times> files" where
  "sweep_sync stuck now max_age keep fs = sweep_loop stuck (now - max_age) keep (dkeys fs) 0 fs"

text \<open>\<open>sweep_orphans\<close> with its defaults; the configured age is in hours.\<close>

definition sweep_orphans ::
  "pystr set \<Rightarrow> int \<Rightarrow> int \<Rightarrow> int option \<Rightarrow> pystr set option \<Rightarrow> files \<Rightarrow> nat \<times> files" where
  "sweep_orphans stuck now age_hours max_age keep fs =
     sweep_sync stuck now (case max_age of Some a \<Rightarrow> a | None \<Rightarrow> age_hours * 3600)
       (case keep of Some k \<Rightarrow> k | None \<Rightarrow> {}) fs"

section \<open>Laws of the store\<close>

lemma dget_remove_file [simp]: "dget (remove_file n fs) m = (if m = n then None else dget fs m)"
  by (simp add: remove_file_def delete_conv')

lemma wf_remove_file [simp]: "wf_dict fs \<Longrightarrow> wf_dict (remove_file n fs)"
  by (simp add: wf_dict_def remove_file_def distinct_delete)

definition hex_name :: "pystr \<Rightarrow> bool" where
  "hex_name hex \<longleftrightarrow> 47 \<notin> set hex \<and> 46 \<notin> set hex"

lemma base_name_plain: "47 \<notin> set n \<Longrightarrow> n \<noteq> [] \<Longrightarrow> n \<noteq> lit ''.'' \<Longrightarrow> base_name n = n"
  using split_plain [of 47 n] by (simp add: base_name_def)

lemma final_name_file: "hex_name hex \<Longrightarrow> is_file_name (final_name hex)"
  unfolding is_file_name_def is_directory_def final_name_def hex_name_def
  by (auto simp: base_name_plain append_eq_Cons_conv)

lemma final_tmp_distinct: "final_name h \<noteq> tmp_name h'"
proof
  assume "final_name h = tmp_name h'"
  then have "last (final_name h) = last (tmp_name h')" by simp
  then show False by (simp add: final_name_def tmp_name_def)
qed

lemma final_name_inj: "final_name h = final_name h' \<longleftrightarrow> h = h'"
  by (simp add: final_name_def)

text \<open>Writing is atomic: under the final name the old content stays until the new one is complete.\<close>

lemma write_tmp_final: "dget (write_tmp now hex payload fs) (final_name h) = dget fs (final_name h)"
  by (simp add: write_tmp_def dict_simps final_tmp_distinct)

lemma write_sync_dget:
  "dget (snd (write_sync now hex payload fs)) n =
     (if n = final_name hex then Some \<lparr>f_text = dump_json payload, f_mtime = now\<rparr>
      else if n = tmp_name hex then None else dget fs n)"
  using final_tmp_distinct [of hex hex]
  by (auto simp: write_sync_def os_replace_def write_tmp_def dict_simps)

lemma wf_write_sync: "wf_dict fs \<Longrightarrow> wf_dict (snd (write_sync now hex payload fs))"
  by (simp add: write_sync_def os_replace_def write_tmp_def dict_simps split: option.split)

lemma read_sync_write:
  assumes "hex_name hex" and "plain_json payload" and "is_container payload"
  shows "read_sync (snd (write_sync now hex payload fs)) (final_name hex) = Inr payload"
  using final_name_file [OF assms(1)] assms(2,3)
  by (simp add: read_sync_def is_file_name_def write_sync_dget json_loads_dump)

section \<open>Splitting and restoring\<close>

lemma plain_items: "plain_json (dump_items is)"
proof -
  have "plain_json (dump_item i)" for i
    by (simp add: dump_item_def jobj_def named_fields_def lit_eq_iff del: lit_simps)
  then have "plain_elems (map dump_item is)" by (induction "is") simp_all
  then show ?thesis by (simp add: dump_items_def)
qed

lemma items_default [simp]: "py_or (dump_items is) (JArr []) = dump_items is"
  by (simp add: py_or_def dump_items_def)

lemma dget_bundle_fields:
  assumes "valid_alias alias"
  shows "dget (bundle_fields alias b) (lit ''logs'') = Some (dump_items (b_logs b))"
    and "dget (bundle_fields alias b) (lit ''metrics'') = Some (dump_items (b_metrics b))"
    and "dget (bundle_fields alias b) (lit ''traces'') = Some (dump_items (b_traces b))"
proof -
  have "to_camel (lit n) = lit n" if "n \<in> {''logs'', ''metrics'', ''traces''}" for n
    using that plain_names_camel [of n] by (auto simp: plain_names_def simp del: lit_simps)
  moreover have "fld (bundle_fields alias b) n = dget (bundle_fields alias b) (lit n)"
    if "to_camel (lit n) = lit n" for n
    using that by (simp add: fld_def split: option.split)
  moreover have "fld (bundle_fields alias b) ''logs'' = Some (dump_items (b_logs b))"
    "fld (bundle_fields alias b) ''metrics'' = Some (dump_items (b_metrics b))"
    "fld (bundle_fields alias b) ''traces'' = Some (dump_items (b_traces b))"
    using assms by (simp_all add: bundle_fields_def reading del: lit_simps)
  ultimately show "dget (bundle_fields alias b) (lit ''logs'') = Some (dump_items (b_logs b))"
    "dget (bundle_fields alias b) (lit ''metrics'') = Some (dump_items (b_metrics b))"
    "dget (bundle_fields alias b) (lit ''traces'') = Some (dump_items (b_traces b))"
    by (metis insertCI)+
qed

lemma signals_of_bundle:
  "valid_alias alias \<Longrightarrow> signals_of (bundle_fields alias b) =
     [(lit ''logs'', dump_items (b_logs b)), (lit ''metrics'', dump_items (b_metrics b)),
      (lit ''traces'', dump_items (b_traces b))]"
  by (simp add: signals_of_def signal_keys_def jget_def dget_bundle_fields del: lit_simps)

lemma wf_signals_of: "wf_dict (signals_of d)"
  by (simp add: signals_of_def wf_dict_def signal_keys_def lit_eq_iff del: lit_simps)

lemma plain_signals: "valid_alias alias \<Longrightarrow> plain_json (JObj (signals_of (bundle_fields alias b)))"
  by (simp add: signals_of_bundle plain_items lit_eq_iff del: lit_simps)

lemma dget_light_merge:
  assumes "valid_alias alias"
  shows "dget (dmerge (light_of (bundle_fields alias b)) (signals_of (bundle_fields alias b))) k =
           dget (bundle_fields alias b) k"
  using dget_bundle_fields [OF assms, of b]
  by (auto simp: dget_dset light_of_def dget_filter_key signals_of_bundle [OF assms]
      signal_keys_def simp del: lit_simps)

text \<open>Only the names of the three arrays leave the dictionary that stays in the database.\<close>

lemma light_of_keys: "dget (light_of d) k = (if k \<in> set signal_keys then None else dget d k)"
  by (simp add: light_of_def dget_filter_key)

lemma split_parts:
  assumes "split_and_save now hex d fs = (light, name, fs')"
  shows "light = light_of d" and "name = final_name hex"
    and "fs' = snd (write_sync now hex (JObj (signals_of d)) fs)"
  using assms by (auto simp: split_and_save_def write_sync_def)

lemma restore_split:
  assumes "wf_bundle b" and "valid_alias alias" and "hex_name hex"
    and "split_and_save now hex (bundle_fields alias b) fs = (light, name, fs')"
  shows "restore_bundle lax fs' light (Some name) = Inr b"
proof -
  have "read_sync fs' name = Inr (JObj (signals_of (bundle_fields alias b)))"
    using read_sync_write [OF assms(3) plain_signals [OF assms(2)]] split_parts [OF assms(4)] by simp
  moreover have "validate_bundle lax (dmerge light (signals_of (bundle_fields alias b))) =
      validate_bundle lax (bundle_fields alias b)"
    using split_parts(1) [OF assms(4)] by (intro validate_bundle_cong) (simp add: dget_light_merge assms(2))
  ultimately show ?thesis
    by (simp add: restore_bundle_def model_validate_def validate_bundle_dump assms(1,2))
qed

section \<open>Errors of restoring\<close>

lemma restore_cases:
  "restore_bundle lax fs stored path =
     (case path of
        None \<Rightarrow> model_validate lax stored
      | Some n \<Rightarrow>
          if is_directory (base_name n) then Inl OSError
          else case dget fs (base_name n) of
                 None \<Rightarrow> Inl (SignalsMissing (missing_text @ n))
               | Some f \<Rightarrow> (case json_loads (f_text f) of
                               None \<Rightarrow> Inl (SignalsMissing (broken_text @ n))
                             | Some (JObj d) \<Rightarrow> model_validate lax (dmerge stored d)
                             | Some _ \<Rightarrow> Inl TypeError))"
  by (auto simp: restore_bundle_def read_sync_def split: option.split json.split)

lemma restore_cong: "dget fs (base_name n) = dget fs' (base_name n) \<Longrightarrow>
    restore_bundle lax fs stored (Some n) = restore_bundle lax fs' stored (Some n)"
  by (simp add: restore_cases)

text \<open>\<open>SignalsMissing\<close> is raised exactly for a missing file and for one that is not JSON.\<close>

lemma restore_missing_iff:
  "(\<exists>m. restore_bundle lax fs stored path = Inl (SignalsMissing m)) \<longleftrightarrow>
     (\<exists>n. path = Some n \<and> \<not> is_directory (base_name n) \<and>
          (case dget fs (base_name n) of None \<Rightarrow> True | Some f \<Rightarrow> json_loads (f_text f) = None))"
  by (auto simp: restore_cases model_validate_def split: option.splits json.splits)

section \<open>Sweeping\<close>

definition sweepable :: "pystr set \<Rightarrow> int \<Rightarrow> pystr set \<Rightarrow> files \<Rightarrow> pystr \<Rightarrow> bool" where
  "sweepable stuck cutoff keep fs n \<longleftrightarrow>
     n \<notin> keep \<and> n \<notin> stuck \<and> (case dget fs n of None \<Rightarrow> False | Some f \<Rightarrow> f_mtime f < cutoff)"

lemma sweepable_remove: "m \<noteq> n \<Longrightarrow>
    sweepable stuck cutoff keep (remove_file m fs) n = sweepable stuck cutoff keep fs n"
  by (simp add: sweepable_def)

lemma sweep_loop_dget:
  "dget (snd (sweep_loop stuck cutoff keep ns k fs)) n =
     (if n \<in> set ns \<and> sweepable stuck cutoff keep fs n then None else dget fs n)"
  by (induction ns arbitrary: k fs) (auto simp: sweepable_def split: option.splits)

lemma sweep_loop_count:
  "distinct ns \<Longrightarrow> fst (sweep_loop stuck cutoff keep ns k fs) =
     k + length (filter (sweepable stuck cutoff keep fs) ns)"
proof (induction ns arbitrary: k fs)
  case (Cons m ns)
  then have "filter (sweepable stuck cutoff keep (remove_file m fs)) ns =
      filter (sweepable stuck cutoff keep fs) ns"
    by (intro filter_cong refl sweepable_remove) auto
  with Cons show ?case
    by (auto simp: sweepable_def [of stuck cutoff keep fs m] split: option.splits)
qed simp

lemma dget_sweep_sync:
  assumes "wf_dict fs"
  shows "dget (snd (sweep_sync stuck now age keep fs)) n =
           (if sweepable stuck (now - age) keep fs n then None else dget fs n)"
proof -
  have "sweepable stuck (now - age) keep fs n \<Longrightarrow> n \<in> set (dkeys fs)"
    by (auto simp: sweepable_def map_of_eq_None_iff split: option.splits dest!: map_of_SomeD intro: rev_image_eqI)
  then show ?thesis
    using assms by (auto simp: sweep_sync_def sweep_loop_dget wf_dict_def)
qed

lemma sweep_sync_count:
  "wf_dict fs \<Longrightarrow> fst (sweep_sync stuck now age keep fs) =
     length (filter (sweepable stuck (now - age) keep fs) (dkeys fs))"
  by (simp add: sweep_sync_def sweep_loop_count wf_dict_def)

lemma wf_sweep_loop: "wf_dict fs \<Longrightarrow> wf_dict (snd (sweep_loop stuck cutoff keep ns k fs))"
  by (induction ns arbitrary: k fs) (auto split: option.splits)

lemma wf_sweep: "wf_dict fs \<Longrightarrow> wf_dict (snd (sweep_sync stuck now age keep fs))"
  by (simp add: sweep_sync_def wf_sweep_loop)

lemma dget_discard:
  "dget (discard stuck path fs) n =
     (if \<exists>p. path = Some p \<and> p \<noteq> [] \<and> base_name p = n \<and> \<not> is_directory n \<and> n \<notin> stuck
      then None else dget fs n)"
  by (auto simp: discard_def discard_sync_def split: option.splits)

lemma wf_discard: "wf_dict fs \<Longrightarrow> wf_dict (discard stuck path fs)"
  by (simp add: discard_def discard_sync_def split: option.splits)

lemma discard_idem: "discard stuck path (discard stuck path fs) = discard stuck path fs"
  by (auto simp: discard_def discard_sync_def split: option.splits)

section \<open>The store as an interface\<close>

text \<open>
  What the job stages expect of the store: a saved bundle can be restored under its name until that
  name is dropped, whatever else is written, dropped or collected meanwhile.
\<close>

datatype store_op = Save int pystr ingest_bundle | Drop pystr | Collect int int "pystr set"

locale signal_store =
  fixes save :: "int \<Rightarrow> pystr \<Rightarrow> ingest_bundle \<Rightarrow> 'fs \<Rightarrow> 'fs"
    and restore :: "'fs \<Rightarrow> ingest_bundle \<Rightarrow> pystr \<Rightarrow> ingest_bundle res"
    and drop_file :: "pystr \<Rightarrow> 'fs \<Rightarrow> 'fs"
    and collect :: "int \<Rightarrow> int \<Rightarrow> pystr set \<Rightarrow> 'fs \<Rightarrow> 'fs"
    and name_of :: "pystr \<Rightarrow> pystr"
    and wf :: "'fs \<Rightarrow> bool"
  assumes restore_save: "hex_name h \<Longrightarrow> wf_bundle b \<Longrightarrow> restore (save t h b fs) b h = Inr b"
    and save_other: "h \<noteq> h' \<Longrightarrow> hex_name h \<Longrightarrow> restore (save t h' b' fs) b h = restore fs b h"
    and drop_other: "n \<noteq> name_of h \<Longrightarrow> is_file_name n \<Longrightarrow> hex_name h \<Longrightarrow> restore (drop_file n fs) b h = restore fs b h"
    and collect_kept: "wf fs \<Longrightarrow> name_of h \<in> keep \<Longrightarrow> hex_name h \<Longrightarrow> restore (collect t age keep fs) b h = restore fs b h"
    and wf_ops: "wf fs \<Longrightarrow> wf (save t h b fs)" "wf fs \<Longrightarrow> wf (drop_file n fs)" "wf fs \<Longrightarrow> wf (collect t age keep fs)"
begin

fun run_op :: "store_op \<Rightarrow> 'fs \<Rightarrow> 'fs" where
  "run_op (Save t h b) fs = save t h b fs"
| "run_op (Drop n) fs = drop_file n fs"
| "run_op (Collect t age keep) fs = collect t age keep fs"

fun spares :: "pystr \<Rightarrow> store_op \<Rightarrow> bool" where
  "spares h (Save t h' b) = (h \<noteq> h')"
| "spares h (Drop n) = (n \<noteq> name_of h \<and> is_file_name n)"
| "spares h (Collect t age keep) = (name_of h \<in> keep)"

lemma wf_run_op: "wf fs \<Longrightarrow> wf (run_op x fs)"
  by (cases x) (simp_all add: wf_ops)

lemma restore_run_op:
  "wf fs \<Longrightarrow> hex_name h \<Longrightarrow> spares h x \<Longrightarrow> restore (run_op x fs) b h = restore fs b h"
  by (cases x) (simp_all add: save_other drop_other collect_kept)

lemma restore_run_ops:
  "wf fs \<Longrightarrow> hex_name h \<Longrightarrow> list_all (spares h) xs \<Longrightarrow> restore (fold run_op xs fs) b h = restore fs b h"
  by (induction xs arbitrary: fs) (simp_all add: restore_run_op wf_run_op)

lemma saved_survives:
  assumes "wf fs" and "hex_name h" and "wf_bundle b" and "list_all (spares h) xs"
  shows "restore (fold run_op xs (save t h b fs)) b h = Inr b"
  using restore_run_ops [OF _ assms(2,4), of "save t h b fs"] restore_save [OF assms(2,3)] wf_ops(1) [OF assms(1)]
  by simp

end

text \<open>The store of the source: saving is \<open>split_and_save\<close> of the dumped bundle, restoring reads the
  dictionary that stayed behind.\<close>

definition store_save :: "int \<Rightarrow> pystr \<Rightarrow> ingest_bundle \<Rightarrow> files \<Rightarrow> files" where
  "store_save now hex b fs = snd (snd (split_and_save now hex (bundle_fields id b) fs))"

definition store_restore :: "lax_int \<Rightarrow> files \<Rightarrow> ingest_bundle \<Rightarrow> pystr \<Rightarrow> ingest_bundle res" where
  "store_restore lax fs b hex =
     restore_bundle lax fs (light_of (bundle_fields id b)) (Some (final_name hex))"

definition store_discard :: "pystr set \<Rightarrow> pystr \<Rightarrow> files \<Rightarrow> files" where
  "store_discard stuck n = discard stuck (Some n)"

definition store_collect :: "pystr set \<Rightarrow> int \<Rightarrow> int \<Rightarrow> pystr set \<Rightarrow> files \<Rightarrow> files" where
  "store_collect stuck now age keep fs = snd (sweep_sync stuck now age keep fs)"

interpretation store: signal_store store_save "store_restore lax" "store_discard stuck"
    "store_collect stuck" final_name wf_dict
proof
  fix h :: pystr and b t fs
  assume "hex_name h" "wf_bundle b"
  then show "store_restore lax (store_save t h b fs) b h = Inr b"
    using restore_split [of b id h t fs "light_of (bundle_fields id b)" "final_name h" "store_save t h b fs"]
    by (simp add: store_restore_def store_save_def split_and_save_def write_sync_def)
next
  fix h h' :: pystr and b b' t fs
  assume "h \<noteq> h'" "hex_name h"
  then show "store_restore lax (store_save t h' b' fs) b h = store_restore lax fs b h"
    using final_name_file [of h] final_tmp_distinct [of h h'] unfolding store_restore_def
    by (intro restore_cong)
       (auto simp: store_save_def split_and_save_def write_sync_dget is_file_name_def final_name_inj)
next
  fix n h :: pystr and b fs
  assume "n \<noteq> final_name h" "is_file_name n" "hex_name h"
  then show "store_restore lax (store_discard stuck n fs) b h = store_restore lax fs b h"
    using final_name_file [of h] unfolding store_restore_def
    by (intro restore_cong) (auto simp: store_discard_def dget_discard is_file_name_def)
next
  fix fs :: files and h keep and t age :: int and b
  assume "wf_dict fs" "final_name h \<in> keep" "hex_name h"
  then show "store_restore lax (store_collect stuck t age keep fs) b h = store_restore lax fs b h"
    using final_name_file [of h] unfolding store_restore_def
    by (intro restore_cong) (auto simp: store_collect_def dget_sweep_sync sweepable_def is_file_name_def)
qed (simp_all add: store_save_def split_and_save_def wf_write_sync store_discard_def wf_discard
      store_collect_def wf_sweep)

section \<open>Properties\<close>

text \<open>C14. Nothing is lost by splitting a bundle between the database and a file: the light dictionary and the file
  name \<open>split_and_save\<close> returns restore to the bundle that was dumped, under either naming, whatever other
  files are there.\<close>

theorem restore_after_split:
  assumes "wf_bundle b" and "alias = id \<or> alias = to_camel" and "hex_name hex"
    and "split_and_save now hex (bundle_fields alias b) fs = (light, name, fs')"
  shows "restore_bundle lax fs' light (Some name) = Inr b"
  using assms by (intro restore_split [of b _ hex now fs]) (simp_all add: valid_alias_def)

theorem restore_after_split_witness:
  "\<exists>light name fs'. split_and_save 7 (lit ''ab12'') (bundle_fields id sample_bundle) [] = (light, name, fs') \<and>
     restore_bundle (\<lambda>_. None) fs' light (Some name) = Inr sample_bundle"
proof -
  obtain light name fs' where s: "split_and_save 7 (lit ''ab12'') (bundle_fields id sample_bundle) [] = (light, name, fs')"
    by (cases "split_and_save 7 (lit ''ab12'') (bundle_fields id sample_bundle) []") auto
  have "restore_bundle (\<lambda>_. None) fs' light (Some name) = Inr sample_bundle"
    by (rule restore_after_split [OF wf_sample_bundle _ _ s]) (simp_all add: hex_name_def)
  with s show ?thesis by blast
qed

text \<open>C15. A saved bundle stays restorable through any sequence of store operations that are not aimed at it: saves
  under other names, discards of other files, sweeps whose keep set holds its name. The store's laws are
  those of the interface \<open>signal_store\<close>, interpreted on the model of \<open>bundle_store.py\<close>.\<close>

theorem saved_bundle_survives:
  assumes "wf_dict fs" and "hex_name h" and "wf_bundle b" and "list_all (store.spares h) ops"
  shows "store_restore lax (fold (store.run_op stuck) ops (store_save t h b fs)) b h = Inr b"
  using assms by (rule store.saved_survives)

theorem saved_bundle_survives_witness:
  "store_restore (\<lambda>_. None)
     (fold (store.run_op {}) [Save 9 (lit ''b'') sample_bundle, Drop (lit ''b.json''), Collect 99 1 {lit ''a.json''}]
        (store_save 5 (lit ''a'') sample_bundle [])) sample_bundle (lit ''a'') = Inr sample_bundle"
proof (rule saved_bundle_survives)
  have "is_file_name (lit ''b.json'')" by code_simp
  then show "list_all (store.spares (lit ''a''))
      [Save 9 (lit ''b'') sample_bundle, Drop (lit ''b.json''), Collect 99 1 {lit ''a.json''}]"
    by (simp add: final_name_def)
qed (simp_all add: hex_name_def wf_sample_bundle)

text \<open>The sweep removes exactly the files that are not in use, older than the limit and removable, and reports
  how many those are; no file in the keep set is touched, however old.\<close>

theorem sweep_exact:
  assumes "wf_dict fs" and "sweep_sync stuck now age keep fs = (removed, fs')"
  shows "dget fs' n = (if sweepable stuck (now - age) keep fs n then None else dget fs n) \<and>
         removed = length (filter (sweepable stuck (now - age) keep fs) (dkeys fs)) \<and>
         (n \<in> keep \<longrightarrow> dget fs' n = dget fs n)"
  using dget_sweep_sync [OF assms(1), of stuck now age keep n]
    sweep_sync_count [OF assms(1), of stuck now age keep] assms(2)
  by (simp add: sweepable_def)

theorem sweep_exact_witness:
  "dget (snd (sweep_sync {} 100 10 {lit ''a''} [(lit ''a'', \<lparr>f_text = [], f_mtime = 5\<rparr>), (lit ''b'', \<lparr>f_text = [], f_mtime = 5\<rparr>)]))
     (lit ''a'') = Some \<lparr>f_text = [], f_mtime = 5\<rparr>"
proof -
  let ?fs = "[(lit ''a'', \<lparr>f_text = [], f_mtime = 5\<rparr>), (lit ''b'', \<lparr>f_text = [], f_mtime = 5\<rparr>)]"
  have "wf_dict ?fs" by (simp add: wf_dict_def)
  from sweep_exact [OF this surjective_pairing, where n = "lit ''a''" and keep = "{lit ''a''}" and
      stuck = "{}" and now = 100 and age = 10] show ?thesis by (auto simp del: lit_simps)
qed

text \<open>\<open>restore_bundle\<close> raises \<open>SignalsMissing\<close> exactly when the named file is absent or does not hold JSON. A
  file that holds JSON of another shape is not reported as missing: the \<open>ValidationError\<close> or \<open>TypeError\<close> goes
  through to the caller, and without a path no file is read at all.\<close>

theorem restore_signals_missing_iff:
  "(\<exists>m. restore_bundle lax fs stored path = Inl (SignalsMissing m)) \<longleftrightarrow>
     (\<exists>n. path = Some n \<and> \<not> is_directory (base_name n) \<and>
          (case dget fs (base_name n) of None \<Rightarrow> True | Some f \<Rightarrow> json_loads (f_text f) = None))"
  by (rule restore_missing_iff)

text \<open>Writing is atomic under the final name: after the temporary file is written, and before the rename, the
  final name still has its old content, and the rename leaves the new text there and no temporary file.\<close>

theorem write_is_atomic:
  "dget (write_tmp now hex payload fs) (final_name hex) = dget fs (final_name hex) \<and>
   dget (snd (write_sync now hex payload fs)) (final_name hex) = Some \<lparr>f_text = dump_json payload, f_mtime = now\<rparr> \<and>
   dget (snd (write_sync now hex payload fs)) (tmp_name hex) = None"
  using final_tmp_distinct [of hex hex] by (auto simp: write_tmp_final write_sync_dget)

end
