(* ===== verification/Round_Robin.thy ===== *)
theory Round_Robin
  imports Prelude "HOL-Library.Product_Lexorder"
begin

text \<open>
  The selection core of \<open>app/services/signal_selector.py\<close>: \<open>_ordered_groups\<close> sorts the entries of
  each bucket and the buckets themselves, \<open>_round_robin\<close> draws one index per group and turn until the
  limit is met. The loop with its cursors is \<open>rr_while\<close> over \<open>rr_for\<close>; its specification is that it
  draws the first \<open>limit\<close> entries of the transposed groups.
\<close>

section \<open>The drawing loop\<close>

text \<open>The inner \<open>for\<close>: cursors, picked entries and the \<open>advanced\<close> flag; \<open>break\<close> at the limit.\<close>

fun rr_for :: "int \<Rightarrow> 'a list list \<Rightarrow> nat list \<Rightarrow> 'a list \<Rightarrow> bool \<Rightarrow> nat list \<times> 'a list \<times> bool" where
  "rr_for limit (g # gs) (c # cs) picked advanced =
     (if length g \<le> c then
        (case rr_for limit gs cs picked advanced of (cs', p, a) \<Rightarrow> (c # cs', p, a))
      else if limit \<le> int (length (picked @ [g ! c])) then (Suc c # cs, picked @ [g ! c], True)
      else (case rr_for limit gs cs (picked @ [g ! c]) True of (cs', p, a) \<Rightarrow> (Suc c # cs', p, a)))"
| "rr_for limit _ cs picked advanced = (cs, picked, advanced)"

definition rr_left :: "'a list list \<Rightarrow> nat list \<Rightarrow> nat" where
  "rr_left gs cs = sum_list (map2 (\<lambda>g c. length g - c) gs cs)"

lemma rr_for_left:
  assumes "rr_for limit gs cs p a = (cs', p', a')"
  shows "rr_left gs cs' \<le> rr_left gs cs"
    and "a' \<Longrightarrow> \<not> a \<Longrightarrow> rr_left gs cs' < rr_left gs cs"
  using assms
  by (induction limit gs cs p a arbitrary: cs' p' a' rule: rr_for.induct)
    (fastforce simp: rr_left_def split: if_splits prod.splits)+

lemma rr_for_decreases:
  assumes "rr_for limit gs cs p False = (cs', p', a')"
  shows "rr_left gs cs' < rr_left gs cs \<or> rr_left gs cs' = rr_left gs cs \<and> \<not> a'"
  using rr_for_left [OF assms] by auto

text \<open>The \<open>while advanced and len(picked) < limit\<close> around it.\<close>

function rr_while :: "int \<Rightarrow> 'a list list \<Rightarrow> nat list \<Rightarrow> 'a list \<Rightarrow> bool \<Rightarrow> 'a list" where
  "rr_while limit gs cs picked advanced =
     (if advanced \<and> int (length picked) < limit then
        (case rr_for limit gs cs picked False of (cs', p, a) \<Rightarrow> rr_while limit gs cs' p a)
      else picked)"
  by pat_completeness auto
termination
  by (relation "measures [\<lambda>(limit, gs, cs, p, a). rr_left gs cs,
                          \<lambda>(limit, gs, cs, p, a). if a then 1 else 0]")
    (auto split: prod.splits dest: rr_for_decreases)

declare rr_while.simps [simp del]

definition round_robin :: "'a list list \<Rightarrow> int \<Rightarrow> 'a list" where
  "round_robin groups limit = rr_while limit groups (replicate (length groups) 0) [] True"

section \<open>What the loop draws\<close>

text \<open>After \<open>r\<close> full turns the cursors are \<open>min r (length g)\<close>; one turn draws column \<open>r\<close>.\<close>

definition rr_cursors :: "nat \<Rightarrow> 'a list list \<Rightarrow> nat list" where
  "rr_cursors r gs = map (\<lambda>g. min r (length g)) gs"

definition rr_row :: "nat \<Rightarrow> 'a list list \<Rightarrow> 'a list" where
  "rr_row r gs = map (\<lambda>g. g ! r) (filter (\<lambda>g. r < length g) gs)"

lemma rr_for_row_aux:
  assumes "int (length p) < limit"
    and "rr_for limit gs (rr_cursors r gs) p a = (cs', p', a')"
  shows "p' = take (nat limit) (p @ rr_row r gs) \<and> a' = (a \<or> rr_row r gs \<noteq> [])
    \<and> (int (length (p @ rr_row r gs)) < limit \<longrightarrow> cs' = rr_cursors (Suc r) gs)"
  using assms
proof (induction gs arbitrary: p a cs' p' a')
  case Nil
  then show ?case by (auto simp: rr_cursors_def rr_row_def)
next
  case (Cons g gs)
  have row: "rr_row r (g # gs) = (if r < length g then [g ! r] else []) @ rr_row r gs"
    and cur: "\<And>r. rr_cursors r (g # gs) = min r (length g) # rr_cursors r gs"
    by (simp_all add: rr_row_def rr_cursors_def)
  consider (spent) "length g \<le> r" | (final) "r < length g" "limit \<le> int (Suc (length p))"
    | (more) "r < length g" "int (length (p @ [g ! r])) < limit"
    by force
  then show ?case
  proof cases
    case spent
    then obtain cs1 where f: "rr_for limit gs (rr_cursors r gs) p a = (cs1, p', a')"
      and cs': "cs' = length g # cs1"
      using Cons.prems(2) by (auto simp: cur min.absorb1 min.absorb2 split: prod.splits)
    from Cons.IH [OF Cons.prems(1) f] spent show ?thesis by (auto simp: cs' row cur)
  next
    case final
    then have "nat limit = Suc (length p)" using Cons.prems(1) by simp
    with final Cons.prems(2) show ?thesis by (auto simp: row cur min.absorb1 min.absorb2)
  next
    case more
    then obtain cs1 where f: "rr_for limit gs (rr_cursors r gs) (p @ [g ! r]) True = (cs1, p', a')"
      and cs': "cs' = Suc r # cs1"
      using Cons.prems(2) by (auto simp: cur min.absorb1 min.absorb2 split: prod.splits)
    from Cons.IH [OF more(2) f] more(1) show ?thesis by (auto simp: cs' row cur)
  qed
qed

lemmas rr_for_row =
  rr_for_row_aux [THEN conjunct1]
  rr_for_row_aux [THEN conjunct2, THEN conjunct1]
  rr_for_row_aux [THEN conjunct2, THEN conjunct2, THEN mp]

lemma transpose_nth_row: "r < length (transpose gs) \<Longrightarrow> transpose gs ! r = rr_row r gs"
  by (simp add: nth_transpose rr_row_def)

lemma rr_row_Nil_iff: "rr_row r gs = [] \<longleftrightarrow> length (transpose gs) \<le> r"
proof -
  have "(foldr (\<lambda>xs. max (length xs)) gs 0 \<le> r) = (\<forall>g\<in>set gs. length g \<le> r)"
    by (induction gs) auto
  then show ?thesis
    by (auto simp: rr_row_def length_transpose filter_empty_conv not_less)
qed

lemma rr_while_spec:
  assumes "r \<le> length (transpose gs)" and "int (length (concat (take r (transpose gs)))) < limit"
  shows "rr_while limit gs (rr_cursors r gs) (concat (take r (transpose gs))) True
         = take (nat limit) (concat (transpose gs))"
  using assms
proof (induction "length (transpose gs) - r" arbitrary: r)
  case 0
  then have r: "take r (transpose gs) = transpose gs" and row: "rr_row r gs = []"
    by (auto simp: rr_row_Nil_iff)
  obtain cs' p' a' where f: "rr_for limit gs (rr_cursors r gs) (concat (transpose gs)) False = (cs', p', a')"
    by (metis prod_cases3)
  from rr_for_row [OF _ f] 0(3) r row
  have "p' = take (nat limit) (concat (transpose gs))" and "a' = False"
    by (auto simp: row)
  with 0(3) r f show ?case by (subst rr_while.simps) (simp add: rr_while.simps)
next
  case (Suc n)
  then have r: "r < length (transpose gs)" by simp
  let ?p = "concat (take r (transpose gs))"
  have step: "?p @ rr_row r gs = concat (take (Suc r) (transpose gs))"
    using r by (simp add: take_Suc_conv_app_nth transpose_nth_row)
  obtain cs' p' a' where f: "rr_for limit gs (rr_cursors r gs) ?p False = (cs', p', a')"
    by (metis prod_cases3)
  have p': "p' = take (nat limit) (concat (take (Suc r) (transpose gs)))" and a': "a'"
    using rr_for_row(1,2) [OF Suc.prems(2) f] r by (auto simp: step rr_row_Nil_iff)
  show ?case
  proof (cases "int (length (concat (take (Suc r) (transpose gs)))) < limit")
    case True
    then have "cs' = rr_cursors (Suc r) gs" and "p' = concat (take (Suc r) (transpose gs))"
      using rr_for_row(3) [OF Suc.prems(2) f] p' by (simp_all add: step)
    moreover have "rr_while limit gs (rr_cursors (Suc r) gs) (concat (take (Suc r) (transpose gs))) True
                   = take (nat limit) (concat (transpose gs))"
      using Suc.hyps(2) r True by (intro Suc.hyps(1)) auto
    ultimately show ?thesis using Suc.prems(2) f a' by (subst rr_while.simps) simp
  next
    case False
    then have len: "nat limit \<le> length (concat (take (Suc r) (transpose gs)))" by simp
    have "concat (transpose gs) = concat (take (Suc r) (transpose gs)) @ concat (drop (Suc r) (transpose gs))"
      by (simp flip: concat_append)
    with len have full: "take (nat limit) (concat (transpose gs)) = p'"
      by (simp add: p')
    have "\<not> int (length p') < limit" using len by (simp add: p')
    then have "rr_while limit gs cs' p' a' = p'" by (simp add: rr_while.simps)
    with Suc.prems(2) f full show ?thesis by (subst rr_while.simps) simp
  qed
qed

lemma round_robin_transpose: "round_robin gs limit = take (nat limit) (concat (transpose gs))"
proof (cases "0 < limit")
  case True
  have "rr_cursors 0 gs = replicate (length gs) 0"
    by (simp add: rr_cursors_def map_replicate_const)
  with rr_while_spec [of 0 gs limit] True show ?thesis by (simp add: round_robin_def)
next
  case False
  then show ?thesis by (simp add: round_robin_def rr_while.simps)
qed

section \<open>Permutation, length and fairness of the transposed order\<close>

lemma mset_heads_tails:
  "mset (concat (map (case_list [] (\<lambda>h t. [h])) xss)) +
   mset (concat (concat (map (case_list [] (\<lambda>h t. [t])) xss))) = mset (concat xss)"
  by (induction xss) (auto split: list.split)

lemma mset_concat_transpose: "mset (concat (transpose xss)) = mset (concat xss)"
proof (induction xss rule: transpose.induct)
  case (3 x xs xss)
  then show ?case using mset_heads_tails [of xss] by (simp add: ac_simps)
qed simp_all

lemma set_concat_transpose: "set (concat (transpose xss)) = set (concat xss)"
  using mset_concat_transpose [of xss] by (metis set_mset_mset)

lemma length_concat_transpose: "length (concat (transpose xss)) = length (concat xss)"
  using mset_concat_transpose [of xss] by (metis size_mset)

lemma distinct_concat_transpose: "distinct (concat (transpose xss)) = distinct (concat xss)"
  using mset_concat_transpose [of xss] by (metis mset_eq_imp_distinct_iff)

lemma length_round_robin: "length (round_robin gs limit) = min (nat limit) (length (concat gs))"
  by (simp add: round_robin_transpose length_concat_transpose)

lemma set_round_robin: "set (round_robin gs limit) \<subseteq> set (concat gs)"
  by (metis round_robin_transpose set_concat_transpose set_take_subset)

lemma distinct_round_robin: "distinct (concat gs) \<Longrightarrow> distinct (round_robin gs limit)"
  by (simp add: round_robin_transpose distinct_concat_transpose)

text \<open>The position in the transposed order of entry \<open>r\<close> of group \<open>i\<close>: before it come all entries of
  lower rank.\<close>

lemma take_concat_rows:
  assumes "x \<in> set (concat (take r xss))" and "r < length xss" and "n \<ge> length (concat (take r xss))"
  shows "x \<in> set (take n (concat xss))"
proof -
  have "concat xss = concat (take r xss) @ concat (drop r xss)"
    by (simp flip: concat_append)
  with assms show ?thesis by simp
qed

lemma take_short_rows:
  assumes "n < length (concat (take r xss))"
  shows "set (take n (concat xss)) \<subseteq> set (concat (take r xss))"
proof -
  have "concat xss = concat (take r xss) @ concat (drop r xss)"
    by (simp flip: concat_append)
  with assms show ?thesis by (auto dest: in_set_takeD)
qed

lemma group_entry_row:
  assumes "i < length gs" and "r < length (gs ! i)"
  shows "r < length (transpose gs)" and "gs ! i ! r \<in> set (transpose gs ! r)"
proof -
  have g: "gs ! i \<in> set gs" using assms(1) by simp
  then have "rr_row r gs \<noteq> []" using assms(2) by (auto simp: rr_row_def filter_empty_conv)
  then show r: "r < length (transpose gs)" by (simp add: rr_row_Nil_iff)
  show "gs ! i ! r \<in> set (transpose gs ! r)"
    using g assms(2) by (auto simp: transpose_nth_row [OF r] rr_row_def)
qed

text \<open>
  Fairness: with the groups disjoint, an entry of rank \<open>a\<close> is drawn only after every group has given
  all its entries of rank below \<open>a\<close>.
\<close>

lemma round_robin_fair:
  assumes dist: "distinct (concat gs)" and i: "i < length gs" "a < length (gs ! i)"
    and j: "j < length gs" "b < length (gs ! j)" and "b < a"
    and drawn: "gs ! i ! a \<in> set (round_robin gs limit)"
  shows "gs ! j ! b \<in> set (round_robin gs limit)"
proof -
  let ?T = "transpose gs" and ?n = "nat limit"
  note a = group_entry_row [OF i] and b = group_entry_row [OF j]
  have dT: "distinct (concat ?T)" using dist by (simp add: distinct_concat_transpose)
  have split: "concat ?T = concat (take a ?T) @ concat (drop a ?T)"
    by (simp flip: concat_append)
  have "gs ! i ! a \<in> set (concat (drop a ?T))"
    using a by (metis Cons_nth_drop_Suc UnCI concat.simps(2) set_append)
  then have notin: "gs ! i ! a \<notin> set (concat (take a ?T))"
    using dT by (subst (asm) split) auto
  have "length (concat (take a ?T)) \<le> ?n"
  proof (rule ccontr)
    assume "\<not> ?thesis"
    then have "set (take ?n (concat ?T)) \<subseteq> set (concat (take a ?T))"
      by (intro take_short_rows) simp
    with drawn notin show False by (auto simp: round_robin_transpose)
  qed
  moreover have "?T ! b \<in> set (take a ?T)"
    using b(1) \<open>b < a\<close> by (auto simp: in_set_conv_nth intro!: exI [of _ b])
  then have "gs ! j ! b \<in> set (concat (take a ?T))" using b(2) by auto
  ultimately show ?thesis
    using a(1) by (simp add: round_robin_transpose take_concat_rows [of _ a])
qed

text \<open>Diversity: with at most \<open>limit\<close> groups, each non-empty, every group gives its best entry.\<close>

lemma round_robin_diverse:
  assumes "g \<in> set gs" and "g \<noteq> []" and "int (length gs) \<le> limit"
  shows "hd g \<in> set (round_robin gs limit)"
proof -
  obtain i where i: "i < length gs" "gs ! i = g" using assms(1) by (auto simp: in_set_conv_nth)
  with assms(2) have row: "0 < length (transpose gs)" "hd g \<in> set (transpose gs ! 0)"
    using group_entry_row [of i gs 0] by (auto simp: hd_conv_nth)
  have "length (transpose gs ! 0) \<le> length gs"
    using row(1) by (simp add: nth_transpose)
  then have "length (transpose gs ! 0) \<le> nat limit" using assms(3) by simp
  moreover obtain t ts where "transpose gs = t # ts" using row(1) by (cases "transpose gs") auto
  ultimately show ?thesis using row(2) by (auto simp: round_robin_transpose)
qed

section \<open>Ordering the groups\<close>

text \<open>
  A bucket maps a key to its \<open>(rank, index)\<close> entries. Entries are sorted, and groups are sorted by
  (best rank, larger first, least index); \<open>entries[0]\<close> of an empty bucket would raise.
\<close>

type_synonym 'k buckets = "('k, (nat \<times> nat) list) dict"

definition ordered_entry :: "(nat \<times> nat) list \<Rightarrow> (nat \<times> int \<times> nat \<times> nat list) res" where
  "ordered_entry entries =
     (case sort entries of
        [] \<Rightarrow> Inl IndexError
      | (rank, idx) # rest \<Rightarrow> Inr (rank, - int (length entries), idx, idx # map snd rest))"

definition ordered_groups :: "'k buckets \<Rightarrow> nat list list res" where
  "ordered_groups buckets =
     rbind (rmap (\<lambda>(k, entries). ordered_entry entries) buckets) (\<lambda>ordered.
       Inr (map (\<lambda>(rank, n, idx, g). g) (sort_key (\<lambda>(rank, n, idx, g). (rank, n, idx)) ordered)))"

definition wf_buckets :: "'k buckets \<Rightarrow> nat set \<Rightarrow> bool" where
  "wf_buckets buckets I \<longleftrightarrow> (\<forall>(k, es)\<in>set buckets. es \<noteq> []) \<and>
     distinct (concat (map (map snd \<circ> snd) buckets)) \<and>
     set (concat (map (map snd \<circ> snd) buckets)) = I"

lemma ordered_entry_Inr:
  assumes "es \<noteq> []"
  shows "ordered_entry es =
    Inr (fst (hd (sort es)), - int (length es), snd (hd (sort es)), map snd (sort es))"
proof -
  from assms have "sort es \<noteq> []" by (metis length_0_conv length_sort)
  then show ?thesis by (auto simp: ordered_entry_def split: list.split)
qed

lemma ordered_groups_Inr:
  assumes "\<forall>(k, es)\<in>set buckets. es \<noteq> []"
  shows "\<exists>gs. ordered_groups buckets = Inr gs \<and>
    mset gs = mset (map (map snd \<circ> sort \<circ> snd) buckets)"
proof -
  let ?f = "\<lambda>(k, es). (fst (hd (sort es)), - int (length es), snd (hd (sort es)), map snd (sort es))"
  have "rmap (\<lambda>(k, entries). ordered_entry entries) buckets = Inr (map ?f buckets)"
    using assms by (intro rmap_total) (auto simp: ordered_entry_Inr)
  then have "ordered_groups buckets = Inr (map (\<lambda>(rank, n, idx, g). g)
      (sort_key (\<lambda>(rank, n, idx, g). (rank, n, idx)) (map ?f buckets)))"
    by (simp add: ordered_groups_def)
  moreover have "mset (map (\<lambda>(rank, n, idx, g). g)
      (sort_key (\<lambda>(rank, n, idx, g). (rank, n, idx)) (map ?f buckets)))
      = mset (map (map snd \<circ> sort \<circ> snd) buckets)"
    by (simp add: image_mset.compositionality comp_def case_prod_unfold)
  ultimately show ?thesis by blast
qed

lemma wf_ordered_groups:
  assumes "wf_buckets buckets I"
  obtains gs where "ordered_groups buckets = Inr gs" and "distinct (concat gs)"
    and "set (concat gs) = I" and "length gs = length buckets" and "[] \<notin> set gs"
    and "set gs = (\<lambda>(k, es). map snd (sort es)) ` set buckets"
proof -
  have ne: "\<forall>(k, es)\<in>set buckets. es \<noteq> []" using assms by (simp add: wf_buckets_def)
  then obtain gs where gs: "ordered_groups buckets = Inr gs"
    and m: "mset gs = mset (map (map snd \<circ> sort \<circ> snd) buckets)"
    using ordered_groups_Inr by blast
  let ?raw = "map (map snd \<circ> snd) buckets"
  have flat: "mset (concat xs) = \<Sum>\<^sub># (image_mset mset (mset xs))" for xs :: "nat list list"
    by (simp add: mset_concat sum_mset_sum_list flip: mset_map)
  have eq: "mset (concat gs) = mset (concat ?raw)"
    unfolding flat m by (simp add: image_mset.compositionality comp_def)
  have "distinct (concat gs)"
    using mset_eq_imp_distinct_iff [OF eq] assms by (simp add: wf_buckets_def)
  moreover have "set (concat gs) = I"
    using mset_eq_setD [OF eq] assms by (simp add: wf_buckets_def)
  moreover have "length gs = length buckets"
    using arg_cong [OF m, of size] by simp
  moreover have set: "set gs = (\<lambda>(k, es). map snd (sort es)) ` set buckets"
    using mset_eq_setD [OF m] by (simp add: comp_def case_prod_unfold)
  moreover have "[] \<notin> set gs"
    using ne unfolding set by (auto simp: image_iff dest!: arg_cong [of "[]" _ length])
  ultimately show ?thesis using gs that by blast
qed

section \<open>Properties\<close>

text \<open>C23. \<open>_round_robin\<close>, the loop with its cursors, draws exactly the first \<open>limit\<close> entries of the groups
  read turn by turn (the transposed groups); a limit below one draws nothing.\<close>

theorem round_robin_turns: "round_robin groups limit = take (nat limit) (concat (transpose groups))"
  by (rule round_robin_transpose)

text \<open>Fairness of the draw: with no index in two groups, an entry at place \<open>a\<close> of its group is drawn only
  if every group has already given all its entries at smaller places, so a large group never pushes the
  best entries of a small one out.\<close>

theorem round_robin_no_starvation:
  assumes "distinct (concat groups)" and "i < length groups" and "a < length (groups ! i)"
    and "j < length groups" and "b < length (groups ! j)" and "b < a"
    and "groups ! i ! a \<in> set (round_robin groups limit)"
  shows "groups ! j ! b \<in> set (round_robin groups limit)"
  using assms by (intro round_robin_fair [of groups i a j b limit])

theorem round_robin_no_starvation_witness:
  "(3::nat) \<in> set (round_robin [[0, 1, 2], [3::nat]] 3)"
proof -
  have "[[0, 1, 2], [3::nat]] ! 0 ! 1 \<in> set (round_robin [[0, 1, 2], [3]] 3)"
    by (simp add: round_robin_transpose)
  then have "[[0, 1, 2], [3::nat]] ! 1 ! 0 \<in> set (round_robin [[0, 1, 2], [3]] 3)"
    by (intro round_robin_no_starvation [of "[[0, 1, 2], [3]]" 0 1 1 0 3]) simp_all
  then show ?thesis by simp
qed

end
