(* ===== verification/Signal_Selector.thy ===== *)
theory Signal_Selector
  imports Contracts Round_Robin
begin

text \<open>
  \<open>app/services/signal_selector.py\<close>: the items of one modality are grouped, the groups ordered and the
  first ones drawn round robin, then put in order of time. The template miner (Drain) is the argument
  \<open>drain\<close>, the cluster of the last of a list of messages; \<open>tim\<close> is what \<open>list.sort\<close> does to span entries
  when a duration is NaN and \<open><\<close> is no order.
\<close>

type_synonym drain = "pystr list \<Rightarrow> nat"
type_synonym span_entry = "nat \<times> dbl \<times> nat"
type_synonym nan_sort = "span_entry list \<Rightarrow> span_entry list"

definition prior_rank :: nat where "prior_rank = 0"
definition normal_rank :: nat where "normal_rank = 1"

definition unparsed_label :: pystr where
  "unparsed_label = [40, 48120, 54028, 49905, 41]"

text \<open>\<open>d[k].append(x)\<close> on a \<open>defaultdict(list)\<close>.\<close>

definition dappend :: "'k \<Rightarrow> 'v \<Rightarrow> ('k, 'v list) dict \<Rightarrow> ('k, 'v list) dict" where
  "dappend k x d = dset k ((case dget d k of Some xs \<Rightarrow> xs | None \<Rightarrow> []) @ [x]) d"

section \<open>Grouping\<close>

fun log_loop :: "drain \<Rightarrow> pystr list \<Rightarrow> nat \<Rightarrow> modality_item list \<Rightarrow> nat buckets \<Rightarrow> nat buckets" where
  "log_loop drain seen idx [] buckets = buckets"
| "log_loop drain seen idx (item # items) buckets =
     (let raw = mi_raw item; level = level_of raw; cluster = drain (seen @ [raw])
      in log_loop drain (seen @ [raw]) (Suc idx) items (dappend cluster (level_rank level, idx) buckets))"

definition log_buckets :: "drain \<Rightarrow> modality_item list \<Rightarrow> nat buckets" where
  "log_buckets drain items = log_loop drain [] 0 items []"

type_synonym series = "(pystr \<times> pystr, (nat \<times> dbl \<times> bool) list) dict"

definition is_base_point :: "datetime option \<Rightarrow> pystr \<Rightarrow> bool res" where
  "is_base_point trigger ts =
     (case (trigger, parse_ts ts) of
        (Some t, Some dt) \<Rightarrow> dt_less dt t
      | _ \<Rightarrow> Inr False)"

fun series_loop :: "datetime option \<Rightarrow> nat \<Rightarrow> modality_item list \<Rightarrow> series \<Rightarrow> (nat \<times> nat) list
    \<Rightarrow> (series \<times> (nat \<times> nat) list) res" where
  "series_loop trigger idx [] series unparsed = Inr (series, unparsed)"
| "series_loop trigger idx (item # items) series unparsed =
     rbind (metric_pairs (mi_raw item)) (\<lambda>pairs.
       case pairs of
         [] \<Rightarrow> series_loop trigger (Suc idx) items series (unparsed @ [(normal_rank, idx)])
       | (label, value) # _ \<Rightarrow>
           rbind (is_base_point trigger (mi_timestamp item)) (\<lambda>base.
             series_loop trigger (Suc idx) items
               (dappend (mi_service item, label) (idx, value, base) series) unparsed))"

definition deviant :: "dbl option \<Rightarrow> dbl \<Rightarrow> dbl \<Rightarrow> bool \<Rightarrow> bool" where
  "deviant mu sigma value base =
     (case mu of None \<Rightarrow> False
      | Some m \<Rightarrow> \<not> base \<and>
          (fl_less (fl_scale 3 sigma) (fl_abs (fl_sub value m)) \<or>
           (fl_eq sigma (Fin 0) \<and> \<not> fl_eq value m)))"

definition grade_series :: "(nat \<times> dbl \<times> bool) list \<Rightarrow> (nat \<times> nat) list res" where
  "grade_series points =
     (let base = map (\<lambda>(i, v, b). v) (filter (\<lambda>(i, v, b). b) points);
          mu = (if base \<noteq> [] then Some (fl_mean base) else None)
      in rbind (if 1 < length base then fl_pstdev base else Inr (Fin 0)) (\<lambda>sigma.
           Inr (map (\<lambda>(i, v, b). (if deviant mu sigma v b then prior_rank else normal_rank, i)) points)))"

definition metric_buckets :: "modality_item list \<Rightarrow> pystr \<Rightarrow> (pystr \<times> pystr) buckets res" where
  "metric_buckets items tt =
     (let trigger = (if tt \<noteq> [] then parse_ts tt else None)
      in rbind (series_loop trigger 0 items [] []) (\<lambda>(series, unparsed).
           rbind (rmap (\<lambda>(k, points). rbind (grade_series points) (\<lambda>es. Inr (k, es))) series) (\<lambda>buckets.
             Inr (if unparsed \<noteq> [] then dset ([], unparsed_label) unparsed buckets else buckets))))"

fun span_loop :: "nat \<Rightarrow> modality_item list \<Rightarrow> (pystr \<times> pystr, span_entry list) dict
    \<Rightarrow> (pystr \<times> pystr, span_entry list) dict res" where
  "span_loop idx [] graded = Inr graded"
| "span_loop idx (item # items) graded =
     rbind (span_fields (mi_raw item)) (\<lambda>(operation, dur, err).
       span_loop (Suc idx) items
         (dappend (mi_service item, operation)
            (if err then prior_rank else normal_rank,
             fl_neg (case dur of Some x \<Rightarrow> x | None \<Rightarrow> Fin 0), idx) graded))"

definition sort_spans :: "nan_sort \<Rightarrow> span_entry list \<Rightarrow> span_entry list" where
  "sort_spans tim es = (if NaN \<in> set (map (\<lambda>(r, d, i). d) es) then tim es else sort es)"

definition rank_spans :: "nan_sort \<Rightarrow> span_entry list \<Rightarrow> (nat \<times> nat) list" where
  "rank_spans tim es = (let s = sort_spans tim es in zip [0..<length s] (map (\<lambda>(r, d, i). i) s))"

definition trace_buckets :: "nan_sort \<Rightarrow> modality_item list \<Rightarrow> (pystr \<times> pystr) buckets res" where
  "trace_buckets tim items =
     rbind (span_loop 0 items []) (\<lambda>graded. Inr (map (\<lambda>(k, es). (k, rank_spans tim es)) graded))"

section \<open>Selection\<close>

record selection =
  sel_items :: "modality_item list"
  sel_total :: nat

definition truncated :: "selection \<Rightarrow> bool" where
  "truncated s \<longleftrightarrow> length (sel_items s) < sel_total s"

definition groups_of :: "drain \<Rightarrow> nan_sort \<Rightarrow> modality \<Rightarrow> modality_item list \<Rightarrow> pystr \<Rightarrow> nat list list res" where
  "groups_of drain tim m items tt =
     (case m of
        Log \<Rightarrow> ordered_groups (log_buckets drain items)
      | Metric \<Rightarrow> rbind (metric_buckets items tt) ordered_groups
      | Trace \<Rightarrow> rbind (trace_buckets tim items) ordered_groups)"

definition in_time_order :: "modality_item list \<Rightarrow> nat list \<Rightarrow> nat list" where
  "in_time_order items picked = sort_key (\<lambda>i. (chron (mi_timestamp (items ! i)), i)) picked"

definition select_signals ::
  "drain \<Rightarrow> nan_sort \<Rightarrow> int \<Rightarrow> modality \<Rightarrow> modality_item list \<Rightarrow> pystr \<Rightarrow> int option \<Rightarrow> selection res" where
  "select_signals drain tim spring_signal_limit m items tt limit =
     (let cap = (case limit of None \<Rightarrow> spring_signal_limit | Some l \<Rightarrow> l);
          total = length items
      in if int total \<le> cap then Inr \<lparr>sel_items = items, sel_total = total\<rparr>
         else rbind (groups_of drain tim m items tt) (\<lambda>groups.
           Inr \<lparr>sel_items = map (\<lambda>i. items ! i) (in_time_order items (round_robin groups cap)),
                sel_total = total\<rparr>))"

section \<open>The groups cover the items\<close>

text \<open>\<open>covers f d I\<close>: no empty list in \<open>d\<close>, and the entries of all lists carry each index of \<open>I\<close> once.\<close>

definition entry_ids :: "('v \<Rightarrow> nat) \<Rightarrow> ('k, 'v list) dict \<Rightarrow> nat multiset" where
  "entry_ids f d = mset (concat (map (map f \<circ> snd) d))"

definition covers :: "('v \<Rightarrow> nat) \<Rightarrow> ('k, 'v list) dict \<Rightarrow> nat \<Rightarrow> bool" where
  "covers f d n \<longleftrightarrow> wf_dict d \<and> (\<forall>(k, es)\<in>set d. es \<noteq> []) \<and> entry_ids f d = mset_set {..<n}"

lemma entry_ids_simps [simp]:
  "entry_ids f [] = {#}"
  "entry_ids f ((k, es) # d) = mset (map f es) + entry_ids f d"
  by (simp_all add: entry_ids_def)

lemma dget_None_iff: "dget d k = None \<longleftrightarrow> k \<notin> set (dkeys d)"
  by (force simp: map_of_eq_None_iff)

lemma entry_ids_dset_new: "k \<notin> set (dkeys d) \<Longrightarrow> entry_ids f (dset k es d) = entry_ids f d + mset (map f es)"
  by (induction d) auto

lemma entry_ids_dappend: "wf_dict d \<Longrightarrow> entry_ids f (dappend k x d) = add_mset (f x) (entry_ids f d)"
  unfolding dappend_def by (induction d) (auto simp: wf_dict_def)

lemma nonempty_dset:
  "(\<forall>(k, es)\<in>set d. es \<noteq> []) \<Longrightarrow> xs \<noteq> [] \<Longrightarrow> (\<forall>(k, es)\<in>set (dset k xs d). es \<noteq> [])"
  by (induction d) auto

lemma covers_Nil [simp]: "covers f [] 0"
  by (simp add: covers_def)

lemma covers_dappend: "covers f d n \<Longrightarrow> f x = n \<Longrightarrow> covers f (dappend k x d) (Suc n)"
  using nonempty_dset [of d "(case dget d k of Some xs \<Rightarrow> xs | None \<Rightarrow> []) @ [x]" k]
  by (simp add: covers_def entry_ids_dappend lessThan_Suc) (simp add: dappend_def wf_dset)

lemma covers_wf_buckets:
  assumes "covers snd d n" shows "wf_buckets d {..<n}"
proof -
  let ?l = "concat (map (map snd \<circ> snd) d)"
  have m: "mset ?l = mset_set {..<n}" using assms by (simp add: covers_def entry_ids_def)
  have "set ?l = {..<n}" using arg_cong [OF m, of set_mset] by simp
  moreover have "length ?l = n" using arg_cong [OF m, of size] by simp
  ultimately have "distinct ?l" by (intro card_distinct) simp
  then show ?thesis using assms \<open>set ?l = {..<n}\<close> by (simp add: wf_buckets_def covers_def)
qed

lemma log_loop_covers:
  "covers snd buckets idx \<Longrightarrow> covers snd (log_loop drain seen idx items buckets) (idx + length items)"
proof (induction items arbitrary: seen idx buckets)
  case (Cons item items)
  have "covers snd (dappend c (r, idx) buckets) (Suc idx)" for c r
    using Cons.prems by (rule covers_dappend) simp
  from Cons.IH [OF this] show ?case by (simp add: Let_def)
qed simp

lemma log_buckets_covers: "covers snd (log_buckets drain items) (length items)"
  using log_loop_covers [of "[]" 0 drain "[]" items] by (simp add: log_buckets_def)

lemma log_buckets_wf: "wf_buckets (log_buckets drain items) {..<length items}"
  by (rule covers_wf_buckets) (rule log_buckets_covers)

text \<open>Metrics: the series and the unparsed points together carry every index once.\<close>

definition series_cover :: "series \<Rightarrow> (nat \<times> nat) list \<Rightarrow> nat \<Rightarrow> bool" where
  "series_cover series unparsed n \<longleftrightarrow>
     wf_dict series \<and> (\<forall>(k, es)\<in>set series. es \<noteq> []) \<and>
     entry_ids fst series + mset (map snd unparsed) = mset_set {..<n}"

lemma series_cover_unparsed:
  "series_cover s u n \<Longrightarrow> series_cover s (u @ [(r, n)]) (Suc n)"
  by (simp add: series_cover_def lessThan_Suc)

lemma series_cover_dappend:
  "series_cover s u n \<Longrightarrow> series_cover (dappend k (n, v, b) s) u (Suc n)"
  using nonempty_dset [of s "(case dget s k of Some xs \<Rightarrow> xs | None \<Rightarrow> []) @ [(n, v, b)]" k]
  by (simp add: series_cover_def entry_ids_dappend lessThan_Suc) (simp add: dappend_def wf_dset)

lemma series_loop_cover:
  "series_loop trigger idx items s u = Inr (s', u') \<Longrightarrow> series_cover s u idx \<Longrightarrow>
     series_cover s' u' (idx + length items)"
proof (induction trigger idx items s u rule: series_loop.induct)
  case (2 trigger idx item items s u)
  then obtain pairs where pairs: "metric_pairs (mi_raw item) = Inr pairs" by (auto simp: res_simps)
  show ?case
  proof (cases pairs)
    case Nil
    then show ?thesis using 2 pairs by (force simp: series_cover_unparsed)
  next
    case (Cons p ps)
    then obtain label v where p: "pairs = (label, v) # ps" by (cases p) auto
    then obtain b where b: "is_base_point trigger (mi_timestamp item) = Inr b"
      using 2 pairs by (auto simp: res_simps)
    have "series_cover s' u' (Suc idx + length items)"
      using 2 pairs p b by (intro "2.IH"(2) [OF refl]) (auto simp: series_cover_dappend)
    then show ?thesis by simp
  qed
qed simp

lemma grade_series_ids: "grade_series points = Inr es \<Longrightarrow> map snd es = map fst points"
  by (auto simp: grade_series_def res_simps comp_def case_prod_unfold Let_def)

definition no_unparsed_name :: "modality_item list \<Rightarrow> bool" where
  "no_unparsed_name items \<longleftrightarrow>
     (\<forall>i\<in>set items. mi_service i = [] \<longrightarrow>
        (case metric_pairs (mi_raw i) of Inr ((label, v) # ps) \<Rightarrow> label \<noteq> unparsed_label | _ \<Rightarrow> True))"

lemma series_loop_keys:
  "series_loop trigger idx items s u = Inr (s', u') \<Longrightarrow> no_unparsed_name items \<Longrightarrow>
     ([], unparsed_label) \<notin> set (dkeys s) \<Longrightarrow> ([], unparsed_label) \<notin> set (dkeys s')"
proof (induction trigger idx items s u rule: series_loop.induct)
  case (2 trigger idx item items s u)
  then obtain pairs where pairs: "metric_pairs (mi_raw item) = Inr pairs" by (auto simp: res_simps)
  have rest: "no_unparsed_name items" using 2 by (simp add: no_unparsed_name_def)
  show ?case
  proof (cases pairs)
    case Nil
    then show ?thesis using 2 pairs rest by force
  next
    case (Cons p ps)
    then obtain label v where p: "pairs = (label, v) # ps" by (cases p) auto
    then obtain b where b: "is_base_point trigger (mi_timestamp item) = Inr b"
      using 2 pairs by (auto simp: res_simps)
    have "([], unparsed_label) \<notin> set (dkeys (dappend (mi_service item, label) (idx, v, b) s))"
      using 2 pairs p by (auto simp: dappend_def dkeys_dset no_unparsed_name_def)
    then show ?thesis using "2.IH"(2) [OF refl] 2 pairs p b rest by auto
  qed
qed simp

lemma nonempty_lists:
  "(\<forall>(k, es)\<in>set d. es \<noteq> []) = list_all (\<lambda>l. l \<noteq> []) (map (map f \<circ> snd) d)"
  by (induction d) auto

lemma rmap_graded:
  assumes "rmap (\<lambda>(k, points). rbind (grade_series points) (\<lambda>es. Inr (k, es))) s = Inr bs"
  shows "dkeys bs = dkeys s" and "entry_ids snd bs = entry_ids fst s"
    and "(\<forall>(k, es)\<in>set s. es \<noteq> []) \<Longrightarrow> (\<forall>(k, es)\<in>set bs. es \<noteq> [])"
proof -
  have "dkeys bs = dkeys s \<and> map (map snd \<circ> snd) bs = map (map fst \<circ> snd) s"
    using assms
    by (induction s arbitrary: bs) (auto simp: res_simps dest!: grade_series_ids)
  then show "dkeys bs = dkeys s" and "entry_ids snd bs = entry_ids fst s"
    and "(\<forall>(k, es)\<in>set s. es \<noteq> []) \<Longrightarrow> (\<forall>(k, es)\<in>set bs. es \<noteq> [])"
    unfolding entry_ids_def by (simp_all add: nonempty_lists [of bs snd] nonempty_lists [of s fst])
qed

lemma metric_buckets_wf:
  assumes ok: "metric_buckets items tt = Inr bs" and names: "no_unparsed_name items"
  shows "wf_buckets bs {..<length items}"
proof -
  let ?t = "if tt \<noteq> [] then parse_ts tt else None"
  from ok obtain s u gs where loop: "series_loop ?t 0 items [] [] = Inr (s, u)"
    and gs: "rmap (\<lambda>(k, points). rbind (grade_series points) (\<lambda>es. Inr (k, es))) s = Inr gs"
    and bs: "bs = (if u \<noteq> [] then dset ([], unparsed_label) u gs else gs)"
    by (auto simp: metric_buckets_def res_simps Let_def)
  have cov: "series_cover s u (length items)"
    using series_loop_cover [OF loop] by (simp add: series_cover_def)
  have new: "([], unparsed_label) \<notin> set (dkeys gs)"
    using series_loop_keys [OF loop names] rmap_graded(1) [OF gs] by simp
  have wf: "wf_dict gs" using cov rmap_graded(1) [OF gs] by (simp add: series_cover_def wf_dict_def)
  have "covers snd bs (length items)"
  proof (cases "u = []")
    case True
    with cov bs rmap_graded [OF gs] show ?thesis by (simp add: covers_def series_cover_def wf_dict_def)
  next
    case False
    with cov bs rmap_graded [OF gs] show ?thesis
      using nonempty_dset [of gs u "([], unparsed_label)"] entry_ids_dset_new [OF new, of snd u]
        wf_dset [OF wf, of "([], unparsed_label)" u]
      by (simp add: covers_def series_cover_def)
  qed
  then show ?thesis by (rule covers_wf_buckets)
qed

text \<open>Traces.\<close>

abbreviation span_id :: "span_entry \<Rightarrow> nat" where
  "span_id \<equiv> \<lambda>(r, d, i). i"

lemma span_loop_covers:
  "span_loop idx items g = Inr g' \<Longrightarrow> covers span_id g idx \<Longrightarrow> covers span_id g' (idx + length items)"
proof (induction idx items g rule: span_loop.induct)
  case (2 idx item items g)
  then obtain op dur err where f: "span_fields (mi_raw item) = Inr (op, dur, err)"
    by (auto simp: res_simps)
  have "covers span_id (dappend k (r, d, idx) g) (Suc idx)" for k r d
    using 2 by (intro covers_dappend) auto
  then have "covers span_id g' (Suc idx + length items)" using 2 f by auto
  then show ?case by simp
qed simp

definition permutes_spans :: "nan_sort \<Rightarrow> bool" where
  "permutes_spans tim \<longleftrightarrow> (\<forall>es. mset (tim es) = mset es)"

lemma mset_sort_spans: "permutes_spans tim \<Longrightarrow> mset (sort_spans tim es) = mset es"
  by (simp add: sort_spans_def permutes_spans_def)

lemma rank_spans_ids: "permutes_spans tim \<Longrightarrow> mset (map snd (rank_spans tim es)) = mset (map span_id es)"
  by (simp add: rank_spans_def Let_def map_snd_zip mset_sort_spans)

lemma rank_spans_Nil: "permutes_spans tim \<Longrightarrow> rank_spans tim es = [] \<longleftrightarrow> es = []"
  using arg_cong [OF mset_sort_spans [of tim es], of size]
  by (auto simp: rank_spans_def Let_def zip_eq_Nil_iff)

lemma trace_buckets_wf:
  assumes ok: "trace_buckets tim items = Inr bs" and perm: "permutes_spans tim"
  shows "wf_buckets bs {..<length items}"
proof -
  from ok obtain g where g: "span_loop 0 items [] = Inr g"
    and bs: "bs = map (\<lambda>(k, es). (k, rank_spans tim es)) g"
    by (auto simp: trace_buckets_def res_simps)
  have cov: "covers span_id g (length items)" using span_loop_covers [OF g] by simp
  have "entry_ids snd (map (\<lambda>(k, es). (k, rank_spans tim es)) g) = entry_ids span_id g"
    by (induction g) (auto simp: rank_spans_ids [OF perm, simplified])
  with cov have "covers snd bs (length items)"
    by (auto simp: covers_def bs wf_dict_def rank_spans_Nil [OF perm] comp_def case_prod_unfold)
  then show ?thesis by (rule covers_wf_buckets)
qed

section \<open>What is selected\<close>

lemma ordered_groups_wf:
  assumes "ordered_groups bs = Inr gs" and "wf_buckets bs I"
  shows "distinct (concat gs) \<and> set (concat gs) = I"
  using wf_ordered_groups [OF assms(2)] assms(1) by (metis sum.inject(2))

lemma groups_of_wf:
  assumes "groups_of drain tim m items tt = Inr gs" and "permutes_spans tim"
    and "m = Metric \<longrightarrow> no_unparsed_name items"
  shows "distinct (concat gs) \<and> set (concat gs) = {..<length items}"
proof -
  have log: "distinct (concat gs) \<and> set (concat gs) = {..<length items}"
    if "ordered_groups (log_buckets drain items) = Inr gs"
    by (rule ordered_groups_wf [OF that log_buckets_wf])
  have other: "distinct (concat gs) \<and> set (concat gs) = {..<length items}"
    if "wf_buckets bs {..<length items}" "ordered_groups bs = Inr gs" for bs :: "(pystr \<times> pystr) buckets"
    by (rule ordered_groups_wf [OF that(2,1)])
  show ?thesis
    using assms log by (cases m)
      (auto simp: groups_of_def res_simps simp del: set_concat
            intro!: other dest: metric_buckets_wf trace_buckets_wf)
qed

lemma in_time_order_props:
  "mset (in_time_order items is) = mset is"
  "sorted (map (\<lambda>i. (chron (mi_timestamp (items ! i)), i)) (in_time_order items is))"
  by (simp_all add: in_time_order_def)

lemma select_signals_picks:
  assumes sel: "select_signals drain tim cfg m items tt limit = Inr sel"
    and cap: "cap = (case limit of None \<Rightarrow> cfg | Some l \<Rightarrow> l)" and big: "cap < int (length items)"
  obtains gs where "groups_of drain tim m items tt = Inr gs"
    and "sel_items sel = map ((!) items) (in_time_order items (round_robin gs cap))"
    and "sel_total sel = length items"
  using assms by (auto simp: select_signals_def Let_def res_simps)

lemma select_signals_exact:
  assumes sel: "select_signals drain tim cfg m items tt limit = Inr sel"
    and cap: "cap = (case limit of None \<Rightarrow> cfg | Some l \<Rightarrow> l)" and big: "cap < int (length items)"
    and perm: "permutes_spans tim" and names: "m = Metric \<longrightarrow> no_unparsed_name items"
  obtains idxs where "sel_items sel = map ((!) items) idxs" and "length idxs = nat cap"
    and "distinct idxs" and "set idxs \<subseteq> {..<length items}"
    and "sorted (map (\<lambda>i. (chron (mi_timestamp (items ! i)), i)) idxs)"
proof -
  obtain gs where gs: "groups_of drain tim m items tt = Inr gs"
    and items: "sel_items sel = map ((!) items) (in_time_order items (round_robin gs cap))"
    using select_signals_picks [OF sel cap big] by blast
  note wf = groups_of_wf [OF gs perm names]
  have len: "length (concat gs) = length items"
    using distinct_card [of "concat gs"] wf by simp
  let ?p = "round_robin gs cap" and ?i = "in_time_order items (round_robin gs cap)"
  have m: "mset ?i = mset ?p" by (rule in_time_order_props)
  show ?thesis
  proof
    show "sel_items sel = map ((!) items) ?i" by (rule items)
    show "length ?i = nat cap"
      using arg_cong [OF m, of size] big len by (simp add: length_round_robin)
    show "distinct ?i" using mset_eq_imp_distinct_iff [OF m] distinct_round_robin [of gs cap] wf by simp
    show "set ?i \<subseteq> {..<length items}"
      using mset_eq_setD [OF m] set_round_robin [of gs cap] wf by simp
    show "sorted (map (\<lambda>i. (chron (mi_timestamp (items ! i)), i)) ?i)" by (rule in_time_order_props)
  qed
qed

text \<open>The content of the log buckets.\<close>

definition cluster_at :: "drain \<Rightarrow> modality_item list \<Rightarrow> nat \<Rightarrow> nat" where
  "cluster_at drain items i = drain (map mi_raw (take (Suc i) items))"

definition rank_at :: "modality_item list \<Rightarrow> nat \<Rightarrow> nat" where
  "rank_at items i = level_rank (level_of (mi_raw (items ! i)))"

lemma set_dappend:
  "wf_dict d \<Longrightarrow> (\<exists>es. (k', es) \<in> set (dappend k x d) \<and> y \<in> set es) \<longleftrightarrow>
     (\<exists>es. (k', es) \<in> set d \<and> y \<in> set es) \<or> k' = k \<and> y = x"
proof -
  assume wf: "wf_dict d"
  then have wf': "wf_dict (dappend k x d)" by (simp add: dappend_def wf_dset)
  have "(\<exists>es. (k', es) \<in> set (dappend k x d) \<and> y \<in> set es) \<longleftrightarrow>
      (\<exists>es. dget (dappend k x d) k' = Some es \<and> y \<in> set es)" by (simp only: dget_wf_iff [OF wf'])
  also have "\<dots> \<longleftrightarrow> (\<exists>es. dget d k' = Some es \<and> y \<in> set es) \<or> k' = k \<and> y = x"
    by (cases "dget d k") (auto simp: dappend_def dget_dset)
  finally show ?thesis by (simp only: dget_wf_iff [OF wf])
qed

lemma wf_dappend: "wf_dict d \<Longrightarrow> wf_dict (dappend k x d)"
  by (simp add: dappend_def wf_dset)

lemma log_loop_entries:
  assumes "wf_dict d" and "seen = map mi_raw pre" and "idx = length pre"
    and "\<And>k r i. (\<exists>es. (k, es) \<in> set d \<and> (r, i) \<in> set es) \<longleftrightarrow>
           i < idx \<and> k = cluster_at drain (pre @ items) i \<and> r = rank_at (pre @ items) i"
  shows "(\<exists>es. (k, es) \<in> set (log_loop drain seen idx items d) \<and> (r, i) \<in> set es) \<longleftrightarrow>
     i < idx + length items \<and> k = cluster_at drain (pre @ items) i \<and> r = rank_at (pre @ items) i"
  using assms
proof (induction items arbitrary: seen idx d pre k r i)
  case (Cons item items)
  let ?c = "cluster_at drain (pre @ item # items) idx" and ?r = "rank_at (pre @ item # items) idx"
  let ?d = "dappend ?c (?r, idx) d"
  have eqs: "?c = drain (seen @ [mi_raw item])" "?r = level_rank (level_of (mi_raw item))"
    using Cons.prems by (simp_all add: cluster_at_def rank_at_def nth_append)
  have ent: "(\<exists>es. (k, es) \<in> set ?d \<and> (r, i) \<in> set es) \<longleftrightarrow>
      i < Suc idx \<and> k = cluster_at drain (pre @ item # items) i \<and> r = rank_at (pre @ item # items) i"
    for k r i
    unfolding set_dappend [OF Cons.prems(1)] Cons.prems(4) by (auto simp: less_Suc_eq)
  have "(\<exists>es. (k, es) \<in> set (log_loop drain (seen @ [mi_raw item]) (Suc idx) items ?d) \<and> (r, i) \<in> set es)
      \<longleftrightarrow> i < Suc idx + length items \<and> k = cluster_at drain ((pre @ [item]) @ items) i \<and>
          r = rank_at ((pre @ [item]) @ items) i"
    by (rule Cons.IH) (use Cons.prems ent in \<open>simp_all add: wf_dappend\<close>)
  then show ?case by (simp add: Let_def eqs)
qed simp

lemma log_buckets_entries:
  "(\<exists>es. (k, es) \<in> set (log_buckets drain items) \<and> (r, i) \<in> set es) \<longleftrightarrow>
     i < length items \<and> k = cluster_at drain items i \<and> r = rank_at items i"
  using log_loop_entries [of "[]" "[]" "[]" 0 drain items k r i] by (simp add: log_buckets_def)

lemma length_log_buckets:
  "length (log_buckets drain items) = card (cluster_at drain items ` {..<length items})"
proof -
  have "wf_dict (log_buckets drain items)" and ne: "\<forall>(k, es)\<in>set (log_buckets drain items). es \<noteq> []"
    using log_buckets_covers [of drain items] by (simp_all add: covers_def)
  then have "card (set (dkeys (log_buckets drain items))) = length (log_buckets drain items)"
    using distinct_card [of "dkeys (log_buckets drain items)"] by (simp add: wf_dict_def)
  moreover have "set (dkeys (log_buckets drain items)) = cluster_at drain items ` {..<length items}"
  proof (intro equalityI subsetI)
    fix k assume "k \<in> set (dkeys (log_buckets drain items))"
    then obtain es where es: "(k, es) \<in> set (log_buckets drain items)" by auto
    then obtain r i where "(r, i) \<in> set es" using ne by (cases es) auto
    then show "k \<in> cluster_at drain items ` {..<length items}"
      using es log_buckets_entries [of k drain items r i] by auto
  next
    fix k assume "k \<in> cluster_at drain items ` {..<length items}"
    then obtain i where "i < length items" "k = cluster_at drain items i" by auto
    then obtain es where "(k, es) \<in> set (log_buckets drain items)"
      using log_buckets_entries [of k drain items "rank_at items i" i] by auto
    then show "k \<in> set (dkeys (log_buckets drain items))" by force
  qed
  ultimately show ?thesis by simp
qed

lemma hd_sort_le: "x \<in> set xs \<Longrightarrow> hd (sort xs) \<le> x" and hd_sort_in: "xs \<noteq> [] \<Longrightarrow> hd (sort xs) \<in> set xs"
  for xs :: "'a::linorder list"
proof -
  assume "x \<in> set xs"
  then have "x \<in> set (sort xs)" by simp
  then show "hd (sort xs) \<le> x" using sorted_sort [of xs] by (cases "sort xs") auto
next
  assume "xs \<noteq> []"
  then have "sort xs \<noteq> []" by (metis length_0_conv length_sort)
  then show "hd (sort xs) \<in> set xs" using hd_in_set [of "sort xs"] by simp
qed

lemma log_groups:
  obtains gs where "ordered_groups (log_buckets drain items) = Inr gs"
    and "length gs = length (log_buckets drain items)"
    and "set gs = (\<lambda>(k, es). map snd (sort es)) ` set (log_buckets drain items)"
  by (rule wf_ordered_groups [OF log_buckets_wf [of drain items]])

lemma select_logs_diverse:
  assumes sel: "select_signals drain tim cfg Log items tt limit = Inr sel"
    and cap: "cap = (case limit of None \<Rightarrow> cfg | Some l \<Rightarrow> l)" and big: "cap < int (length items)"
    and few: "int (card (cluster_at drain items ` {..<length items})) \<le> cap"
    and j: "j < length items"
  shows "\<exists>i<length items. cluster_at drain items i = cluster_at drain items j \<and>
           rank_at items i \<le> rank_at items j \<and> items ! i \<in> set (sel_items sel)"
proof -
  obtain gs where gs: "groups_of drain tim Log items tt = Inr gs"
    and items: "sel_items sel = map ((!) items) (in_time_order items (round_robin gs cap))"
    using select_signals_picks [OF sel cap big] by blast
  from gs have og: "ordered_groups (log_buckets drain items) = Inr gs" by (simp add: groups_of_def)
  obtain es where es: "(cluster_at drain items j, es) \<in> set (log_buckets drain items)"
    and je: "(rank_at items j, j) \<in> set es"
    using log_buckets_entries [of "cluster_at drain items j" drain items "rank_at items j" j] j by auto
  then have ne: "es \<noteq> []" by auto
  obtain r i where ri: "hd (sort es) = (r, i)" by fastforce
  have "(r, i) \<in> set es" using hd_sort_in [OF ne] ri by simp
  then have i: "i < length items" "cluster_at drain items i = cluster_at drain items j" "r = rank_at items i"
    using log_buckets_entries [of "cluster_at drain items j" drain items r i] es by auto
  have "rank_at items i \<le> rank_at items j" using hd_sort_le [OF je] ri i(3) by (simp add: less_eq_prod_def) auto
  moreover have "i \<in> set (round_robin gs cap)"
  proof -
    obtain gs' where "ordered_groups (log_buckets drain items) = Inr gs'"
      and "length gs' = length (log_buckets drain items)"
      and "set gs' = (\<lambda>(k, es). map snd (sort es)) ` set (log_buckets drain items)"
      by (rule log_groups)
    then have len: "length gs = length (log_buckets drain items)"
      and set_gs: "set gs = (\<lambda>(k, es). map snd (sort es)) ` set (log_buckets drain items)"
      using og by simp_all
    have g: "map snd (sort es) \<in> set gs" unfolding set_gs using es by (intro rev_image_eqI) auto
    have "sort es \<noteq> []" using ne by (metis length_0_conv length_sort)
    then have "hd (map snd (sort es)) = i" using ri by (simp add: hd_map)
    then show ?thesis
      using round_robin_diverse [OF g] few len length_log_buckets [of drain items] \<open>sort es \<noteq> []\<close> by simp
  qed
  ultimately show ?thesis
    using i mset_eq_setD [OF in_time_order_props(1) [of items "round_robin gs cap"]] items by auto
qed

lemma select_logs_total: "\<exists>sel. select_signals drain tim cfg Log items tt limit = Inr sel"
proof -
  obtain gs where "ordered_groups (log_buckets drain items) = Inr gs"
    by (rule log_groups)
  then show ?thesis by (simp add: select_signals_def groups_of_def Let_def)
qed

section \<open>Properties\<close>

text \<open>C21. What \<open>select_signals\<close> returns above the cap: exactly \<open>cap\<close> of the items, each at most once, and in order
  of time with ties broken by the place in the input. Drain is arbitrary; \<open>list.sort\<close> on NaN durations is
  only assumed to permute; metrics must not already use the label kept for unparsed points.\<close>

theorem selection_exact:
  assumes "select_signals drain tim cfg m items tt limit = Inr sel"
    and "cap = (case limit of None \<Rightarrow> cfg | Some l \<Rightarrow> l)" and "cap < int (length items)"
    and "permutes_spans tim" and "m = Metric \<longrightarrow> no_unparsed_name items"
  shows "\<exists>idxs. sel_items sel = map ((!) items) idxs \<and> length idxs = nat cap \<and> distinct idxs \<and>
           set idxs \<subseteq> {..<length items} \<and>
           sorted (map (\<lambda>i. (chron (mi_timestamp (items ! i)), i)) idxs)"
proof -
  from select_signals_exact [OF assms] obtain idxs where "sel_items sel = map ((!) items) idxs"
    "length idxs = nat cap" "distinct idxs" "set idxs \<subseteq> {..<length items}"
    "sorted (map (\<lambda>i. (chron (mi_timestamp (items ! i)), i)) idxs)" by blast
  then show ?thesis by blast
qed

definition sample_logs :: "modality_item list" where
  "sample_logs =
     [\<lparr>mi_timestamp = lit ''2026-07-24T02:33:25'', mi_service = lit ''cart'', mi_raw = lit ''INFO ok''\<rparr>,
      \<lparr>mi_timestamp = lit ''2026-07-24T02:33:24'', mi_service = lit ''cart'', mi_raw = lit ''ERROR boom''\<rparr>,
      \<lparr>mi_timestamp = lit ''2026-07-24T02:33:23'', mi_service = lit ''pay'', mi_raw = lit ''WARN slow''\<rparr>]"

lemma length_sample_logs: "length sample_logs = 3"
  by (simp add: sample_logs_def)

theorem selection_exact_witness:
  "\<exists>sel idxs. select_signals (\<lambda>ms. length (last ms)) sort 200 Log sample_logs [] (Some 2) = Inr sel \<and>
     sel_items sel = map ((!) sample_logs) idxs \<and> length idxs = 2 \<and> distinct idxs"
proof -
  obtain sel where s: "select_signals (\<lambda>ms. length (last ms)) sort 200 Log sample_logs [] (Some 2) = Inr sel"
    using select_logs_total by blast
  show ?thesis
    using selection_exact [OF s, of 2] s by (auto simp: length_sample_logs permutes_spans_def)
qed

text \<open>C22. Diversity of the logs sent: while there are no more Drain clusters than the cap, every cluster is
  represented, and by an item of its most severe level.\<close>

theorem selection_keeps_clusters:
  assumes "select_signals drain tim cfg Log items tt limit = Inr sel"
    and "cap = (case limit of None \<Rightarrow> cfg | Some l \<Rightarrow> l)" and "cap < int (length items)"
    and "int (card (cluster_at drain items ` {..<length items})) \<le> cap"
    and "j < length items"
  shows "\<exists>i<length items. cluster_at drain items i = cluster_at drain items j \<and>
           rank_at items i \<le> rank_at items j \<and> items ! i \<in> set (sel_items sel)"
  using assms by (rule select_logs_diverse)

theorem selection_keeps_clusters_witness:
  "\<exists>sel. select_signals (\<lambda>_. 0) sort 200 Log sample_logs [] (Some 2) = Inr sel \<and>
     (\<exists>i<3. rank_at sample_logs i \<le> rank_at sample_logs 1 \<and> sample_logs ! i \<in> set (sel_items sel))"
proof -
  obtain sel where s: "select_signals (\<lambda>_. 0) sort 200 Log sample_logs [] (Some 2) = Inr sel"
    using select_logs_total by blast
  have "cluster_at (\<lambda>_. 0) sample_logs ` {..<length sample_logs} \<subseteq> {0}" by (auto simp: cluster_at_def)
  then have "card (cluster_at (\<lambda>_. 0) sample_logs ` {..<length sample_logs}) \<le> 1"
    using card_mono [of "{0::nat}"] by fastforce
  then show ?thesis
    using selection_keeps_clusters [OF s, of 2 1] s unfolding length_sample_logs by auto
qed

text \<open>Up to the cap everything passes unchanged and untouched by the grouping, for every modality.\<close>

theorem selection_small_identity:
  assumes "int (length items) \<le> (case limit of None \<Rightarrow> cfg | Some l \<Rightarrow> l)"
  shows "select_signals drain tim cfg m items tt limit = Inr \<lparr>sel_items = items, sel_total = length items\<rparr>"
  using assms by (simp add: select_signals_def Let_def)

theorem selection_small_identity_witness:
  "select_signals (\<lambda>_. 0) sort 200 Trace sample_logs [] None = Inr \<lparr>sel_items = sample_logs, sel_total = 3\<rparr>"
  using selection_small_identity [of sample_logs 200 None "\<lambda>_. 0" sort Trace "[]"] by (simp add: length_sample_logs)

end
