(* ===== verification/Raw_Normalizer.thy ===== *)
theory Raw_Normalizer
  imports Contracts Json
begin

text \<open>
  \<open>app/services/raw_normalizer.py\<close>: the raw text of an item becomes the JSON text of its modality, with
  every key of the contract present. Reading is by \<open>json.loads\<close>, the known keys and the patterns the
  compressor uses; writing is \<open>model_dump_json\<close>, compact JSON of scalars. What the code does not catch
  (an \<open>OverflowError\<close> of a duration, a unit outside the table) is a result of the model.
\<close>

section \<open>Common\<close>

fun first_some :: "(pystr, json) dict \<Rightarrow> pystr list \<Rightarrow> json" where
  "first_some d [] = JNull"
| "first_some d (k # ks) = (if jget d k \<noteq> JNull then jget d k else first_some d ks)"

fun scalar_text :: "json \<Rightarrow> pystr" where
  "scalar_text JNull = []"
| "scalar_text (JObj _) = []"
| "scalar_text (JArr _) = []"
| "scalar_text (JBool b) = (if b then lit ''true'' else lit ''false'')"
| "scalar_text (JFloat x) = fmt_g 6 x"
| "scalar_text v = py_str v"

section \<open>Logs\<close>

definition log_level_keys :: "pystr list" where
  "log_level_keys = [lit ''level'', lit ''severity'', lit ''lvl'', lit ''levelname'']"

definition log_msg_keys :: "pystr list" where
  "log_msg_keys = [lit ''msg'', lit ''message'', lit ''log'', lit ''text'']"

definition level_or_empty :: "pystr \<Rightarrow> pystr" where
  "level_or_empty msg = (case re_search rx_level msg of Some h \<Rightarrow> str_upper (hit_group 1 h) | None \<Rightarrow> [])"

definition log_line :: "pystr \<Rightarrow> pystr \<times> pystr" where
  "log_line raw =
     (let (level, msg) =
        (case loads_dict raw of
           Some d \<Rightarrow> (let msg_v = first_some d log_msg_keys
                      in (scalar_text (first_some d log_level_keys),
                          if msg_v \<noteq> JNull then scalar_text msg_v else raw))
         | None \<Rightarrow> ([], raw))
      in (if level = [] then level_or_empty msg else level, msg))"

definition normalize_log :: "pystr \<Rightarrow> pystr" where
  "normalize_log raw =
     (let (level, msg) = log_line raw in dump_flat [(lit ''level'', JStr level), (lit ''msg'', JStr msg)])"

section \<open>Metrics\<close>

definition label_keys :: "pystr list" where
  "label_keys = [lit ''label'', lit ''metric'', lit ''name'', lit ''__name__'', lit ''metric_name'']"

fun is_number :: "json \<Rightarrow> bool" where
  "is_number (JInt _) = True"
| "is_number (JFloat _) = True"
| "is_number _ = False"

definition metric_label_value :: "pystr \<Rightarrow> pystr \<times> pystr" where
  "metric_label_value raw =
     (case loads_dict raw of
        Some d \<Rightarrow>
          (let label = first_some d label_keys; value = first_some d metric_value_keys
           in if label \<noteq> JNull \<and> value \<noteq> JNull then (scalar_text label, scalar_text value)
              else case find (\<lambda>(k, v). is_number v) d of
                     Some (k, v) \<Rightarrow> (k, scalar_text v)
                   | None \<Rightarrow> (scalar_text label, scalar_text value))
      | None \<Rightarrow>
          (case re_match rx_prom (str_strip is_space raw) of
             Some m \<Rightarrow> (hit_group 1 m, hit_group 2 m)
           | None \<Rightarrow> (case re_findall rx_pair raw of
                         m # _ \<Rightarrow> (hit_group 1 m, hit_group 2 m)
                       | [] \<Rightarrow> ([], []))))"

definition metric_exceeded :: "(pystr, json) dict \<Rightarrow> json" where
  "metric_exceeded d = (case jget d (lit ''exceeded'') of JBool b \<Rightarrow> JBool b | _ \<Rightarrow> JNull)"

definition metric_threshold :: "pystr \<Rightarrow> pystr \<times> json" where
  "metric_threshold raw =
     (case loads_dict raw of
        Some d \<Rightarrow> (scalar_text (jget d (lit ''threshold'')), metric_exceeded d)
      | None \<Rightarrow> ([], JNull))"

definition normalize_metric :: "pystr \<Rightarrow> pystr" where
  "normalize_metric raw =
     (let (label, value) = metric_label_value raw; (threshold, exceeded) = metric_threshold raw
      in dump_flat [(lit ''label'', JStr label), (lit ''value'', JStr value),
                    (lit ''threshold'', JStr threshold), (lit ''exceeded'', exceeded)])"

section \<open>Traces\<close>

definition trace_id_keys :: "pystr list" where
  "trace_id_keys = [lit ''traceId'', lit ''trace_id'', lit ''traceID'', lit ''tid'']"

definition trace_from_keys :: "pystr list" where
  "trace_from_keys = [lit ''from'', lit ''caller'', lit ''source'', lit ''client'', lit ''parent'']"

definition trace_to_keys :: "pystr list" where
  "trace_to_keys = [lit ''to'', lit ''callee'', lit ''operation'', lit ''operationName'', lit ''name'', lit ''target'']"

definition trace_status_keys :: "pystr list" where
  "trace_status_keys = [lit ''status'', lit ''http_status_code'', lit ''statusCode'', lit ''code'']"

text \<open>\<open>try: ... except (ValueError, TypeError): return None\<close>.\<close>

fun caught :: "int res \<Rightarrow> int option res" where
  "caught (Inl (ValueError m)) = Inr None"
| "caught (Inl TypeError) = Inr None"
| "caught (Inl e) = Inl e"
| "caught (Inr i) = Inr (Some i)"

definition trace_duration_ms :: "(pystr, json) dict \<Rightarrow> int option res" where
  "trace_duration_ms d =
     (if jget d (lit ''duration_us'') \<noteq> JNull then
        caught (rbind (py_float (jget d (lit ''duration_us''))) (\<lambda>x. int_of_fl (fl_scale (1 / 1000) x)))
      else if jget d (lit ''duration_ms'') \<noteq> JNull then
        caught (rbind (py_float (jget d (lit ''duration_ms''))) int_of_fl)
      else if jget d (lit ''duration'') \<noteq> JNull then
        caught (rbind (py_float (jget d (lit ''duration''))) int_of_fl)
      else Inr None)"

definition text_duration_ms :: "pystr \<Rightarrow> int option res" where
  "text_duration_ms raw =
     rbind (text_duration raw) (\<lambda>x. case x of
       None \<Rightarrow> Inr None
     | Some x \<Rightarrow> rbind (int_of_fl x) (\<lambda>i. Inr (Some i)))"

definition text_status :: "pystr \<Rightarrow> pystr" where
  "text_status raw = (case re_search rx_trace_err raw of Some m \<Rightarrow> str_upper (hit_group 1 m) | None \<Rightarrow> [])"

definition span_text :: "pystr \<Rightarrow> pystr \<Rightarrow> pystr \<Rightarrow> int option \<Rightarrow> pystr \<Rightarrow> pystr" where
  "span_text tid frm dst duration status = dump_flat
     [(lit ''traceId'', JStr tid), (lit ''from'', JStr frm), (lit ''to'', JStr dst),
      (lit ''duration'', case duration of Some i \<Rightarrow> JInt i | None \<Rightarrow> JNull), (lit ''status'', JStr status)]"

definition normalize_trace :: "pystr \<Rightarrow> pystr res" where
  "normalize_trace raw =
     (case loads_dict raw of
        Some d \<Rightarrow> rbind (trace_duration_ms d) (\<lambda>duration.
          Inr (span_text (scalar_text (first_some d trace_id_keys)) (scalar_text (first_some d trace_from_keys))
                 (scalar_text (first_some d trace_to_keys)) duration
                 (scalar_text (first_some d trace_status_keys))))
      | None \<Rightarrow> rbind (text_duration_ms raw) (\<lambda>duration.
          Inr (span_text [] [] [] duration (text_status raw))))"

section \<open>Applying\<close>

definition normalize_raw :: "modality \<Rightarrow> pystr \<Rightarrow> pystr res" where
  "normalize_raw m raw =
     (case m of Log \<Rightarrow> Inr (normalize_log raw) | Metric \<Rightarrow> Inr (normalize_metric raw) | Trace \<Rightarrow> normalize_trace raw)"

definition normalize_items :: "modality \<Rightarrow> modality_item list \<Rightarrow> modality_item list res" where
  "normalize_items m = rmap (\<lambda>i. rbind (normalize_raw m (mi_raw i)) (\<lambda>r. Inr (i\<lparr>mi_raw := r\<rparr>)))"

definition normalize_payload_signals :: "ingest_bundle \<Rightarrow> ingest_bundle res" where
  "normalize_payload_signals b =
     rbind (normalize_items Log (b_logs b)) (\<lambda>ls.
     rbind (normalize_items Metric (b_metrics b)) (\<lambda>ms.
     rbind (normalize_items Trace (b_traces b)) (\<lambda>ts.
       Inr (b\<lparr>b_logs := ls, b_metrics := ms, b_traces := ts\<rparr>))))"

section \<open>The contract of the normalized texts\<close>

definition contract_keys :: "modality \<Rightarrow> pystr list" where
  "contract_keys m = map lit
     (case m of Log \<Rightarrow> [''level'', ''msg'']
      | Metric \<Rightarrow> [''label'', ''value'', ''threshold'', ''exceeded'']
      | Trace \<Rightarrow> [''traceId'', ''from'', ''to'', ''duration'', ''status''])"

lemma normalize_log_reads:
  "json_loads (normalize_log raw) =
     Some (JObj [(lit ''level'', JStr (fst (log_line raw))), (lit ''msg'', JStr (snd (log_line raw)))])"
  unfolding normalize_log_def case_prod_unfold Let_def by (rule json_loads_dump_flat) simp_all

lemma metric_exceeded_scalar: "is_plain_scalar (snd (metric_threshold raw))"
  by (simp add: metric_threshold_def metric_exceeded_def split: option.split json.split)

lemma normalize_metric_reads:
  "json_loads (normalize_metric raw) =
     Some (JObj [(lit ''label'', JStr (fst (metric_label_value raw))),
                 (lit ''value'', JStr (snd (metric_label_value raw))),
                 (lit ''threshold'', JStr (fst (metric_threshold raw))),
                 (lit ''exceeded'', snd (metric_threshold raw))])"
  unfolding normalize_metric_def case_prod_unfold Let_def
  by (rule json_loads_dump_flat) (simp_all add: metric_exceeded_scalar)

lemma span_text_reads:
  "json_loads (span_text tid frm dst duration status) = Some (JObj
     [(lit ''traceId'', JStr tid), (lit ''from'', JStr frm), (lit ''to'', JStr dst),
      (lit ''duration'', case duration of Some i \<Rightarrow> JInt i | None \<Rightarrow> JNull), (lit ''status'', JStr status)])"
  unfolding span_text_def by (rule json_loads_dump_flat) (simp_all split: option.split)

lemma normalize_raw_keys:
  assumes "normalize_raw m raw = Inr t"
  shows "\<exists>d. json_loads t = Some (JObj d) \<and> dkeys d = contract_keys m"
proof (cases m)
  case Log
  with assms show ?thesis by (auto simp: normalize_raw_def normalize_log_reads contract_keys_def)
next
  case Metric
  with assms show ?thesis
    using normalize_metric_reads [of raw] by (auto simp: normalize_raw_def contract_keys_def)
next
  case Trace
  with assms show ?thesis
    by (auto simp: normalize_raw_def normalize_trace_def res_simps contract_keys_def span_text_reads
        split: option.splits)
qed

section \<open>Properties\<close>

text \<open>C34. Whatever the raw text is, a normalized text is a JSON object with exactly the keys of its modality's
  contract, in their order: fields that cannot be read are empty, never missing.\<close>

theorem normalized_raw_has_contract_keys:
  assumes "normalize_raw m raw = Inr t"
  shows "\<exists>d. json_loads t = Some (JObj d) \<and> dkeys d = contract_keys m"
  using assms by (rule normalize_raw_keys)

theorem normalized_raw_has_contract_keys_witness:
  "\<exists>d. json_loads (normalize_log (lit ''12:00 ERROR disk full'')) = Some (JObj d) \<and>
     dkeys d = [lit ''level'', lit ''msg'']"
  using normalized_raw_has_contract_keys [of Log "lit ''12:00 ERROR disk full''"]
  by (simp add: normalize_raw_def contract_keys_def)

text \<open>No log line is lost: a text that is no JSON object is carried whole as the message, and its level is the
  first level word in it, in upper case.\<close>

theorem normalized_log_keeps_text:
  assumes "loads_dict raw = None"
  shows "json_loads (normalize_log raw) =
     Some (JObj [(lit ''level'', JStr (level_or_empty raw)), (lit ''msg'', JStr raw)])"
  using assms by (simp add: normalize_log_reads log_line_def)

theorem normalized_log_keeps_text_witness:
  "json_loads (normalize_log (lit ''disk full'')) =
     Some (JObj [(lit ''level'', JStr (level_or_empty (lit ''disk full''))), (lit ''msg'', JStr (lit ''disk full''))])"
proof (rule normalized_log_keeps_text)
  show "loads_dict (lit ''disk full'') = None" by code_simp
qed

end
