(* ===== verification/Rca_Validation.thy ===== *)
theory Rca_Validation
  imports Contract_Laws
begin

text \<open>
  The gate between a runner's output and a job: \<open>app/core/schema_errors.py\<close> (the one-line summary of
  validation errors) and \<open>app/services/rca_validation.py\<close>. Pydantic's error list for a rejected
  dictionary is the argument \<open>errors_of\<close>; whether it is rejected is \<open>validate_result\<close>.
\<close>

section \<open>Summary of validation errors\<close>

record schema_error =
  se_loc :: "pystr list"
  se_type :: pystr
  se_msg :: pystr

definition msg_max :: nat where "msg_max = 120"
definition max_errors :: nat where "max_errors = 20"

definition unknown_loc :: pystr where "unknown_loc = [40, 50948, 52824, 32, 48520, 47749, 41]"
definition no_details :: pystr where
  "no_details = [40, 50724, 47448, 32, 49345, 49464, 32, 50630, 51020, 41]"

definition format_one :: "schema_error \<Rightarrow> pystr" where
  "format_one err =
     (let joined = str_join (lit ''.'') (se_loc err);
          loc = (if joined = [] then unknown_loc else joined);
          err_type = (if se_type err = [] then lit ''unknown'' else se_type err);
          msg = (if msg_max < length (se_msg err) then take msg_max (se_msg err) @ [8230] else se_msg err)
      in str_rstrip is_space (loc @ lit ''['' @ err_type @ lit ''] '' @ msg))"

definition omitted_text :: "nat \<Rightarrow> nat \<Rightarrow> pystr" where
  "omitted_text left n = [40, 8230, 50808, 32] @ str_of_nat left @ [44148, 32, 49373, 47029, 44, 32, 52509, 32]
     @ str_of_nat n @ [44148, 41]"

definition summary_parts :: "nat \<Rightarrow> schema_error list \<Rightarrow> pystr list" where
  "summary_parts limit errors =
     map format_one (take limit errors) @
     (if limit < length errors then [omitted_text (length errors - limit) (length errors)] else [])"

definition summarize_validation_errors :: "nat \<Rightarrow> schema_error list \<Rightarrow> pystr" where
  "summarize_validation_errors limit errors =
     (if length errors = 0 then no_details else str_join (lit '' | '') (summary_parts limit errors))"

section \<open>The gate\<close>

text \<open>What a runner may return: an instance, a dictionary, or something else (with its type's name).\<close>

datatype raw_output = Raw_result rca_result | Raw_dict "(pystr, json) dict" | Raw_other pystr

definition mismatch_text :: pystr where
  "mismatch_text = [82, 99, 97, 82, 101, 115, 117, 108, 116, 32, 49828, 53412, 47560, 32, 48520, 51068, 52824, 58, 32]"

definition wrong_type_text :: "pystr \<Rightarrow> pystr" where
  "wrong_type_text name = [82, 67, 65, 32, 49328, 52636, 47932, 32, 53440, 51077, 32, 48512, 51201, 54633, 58, 32] @ name
     @ [32, 40, 100, 105, 99, 116, 32, 46608, 45716, 32, 82, 99, 97, 82, 101, 115, 117, 108, 116, 32, 54596, 50836, 41]"

fun validate_rca_result ::
  "lax_int \<Rightarrow> ((pystr, json) dict \<Rightarrow> schema_error list) \<Rightarrow> raw_output \<Rightarrow> rca_result res" where
  "validate_rca_result lax errors_of (Raw_result r) = Inr r"
| "validate_rca_result lax errors_of (Raw_dict d) =
     (case validate_result lax d of
        Some r \<Rightarrow> Inr r
      | None \<Rightarrow> Inl (RcaResultInvalid (mismatch_text @ summarize_validation_errors max_errors (errors_of d))))"
| "validate_rca_result lax errors_of (Raw_other name) = Inl (RcaResultInvalid (wrong_type_text name))"

section \<open>Laws\<close>

lemma length_format_one:
  "length (format_one err) \<le> max 7 (length (str_join (lit ''.'') (se_loc err))) + max 7 (length (se_type err)) + msg_max + 4"
proof -
  have r: "length (str_rstrip P s) \<le> length s" for P s
    using length_dropWhile_le [of P "rev s"] by (simp add: str_rstrip_def)
  show ?thesis
    unfolding format_one_def Let_def
    by (rule order_trans [OF r]) (auto simp: msg_max_def unknown_loc_def max_def)
qed

lemma length_summary_parts: "length (summary_parts limit errors) \<le> Suc limit"
  by (simp add: summary_parts_def)

lemma validate_rca_result_cases:
  "validate_rca_result lax errors_of raw =
     (case raw of
        Raw_result r \<Rightarrow> Inr r
      | Raw_dict d \<Rightarrow> (case validate_result lax d of
           Some r \<Rightarrow> Inr r
         | None \<Rightarrow> Inl (RcaResultInvalid (mismatch_text @ summarize_validation_errors max_errors (errors_of d))))
      | Raw_other name \<Rightarrow> Inl (RcaResultInvalid (wrong_type_text name)))"
  by (cases raw) simp_all

text \<open>A validated result is stored as its dictionary and comes back from it unchanged.\<close>

lemma validate_rca_result_dict: "validate_rca_result lax errors_of (Raw_dict (result_fields r)) = Inr r"
  by (simp add: validate_result_dump)

lemma validate_rca_result_error:
  "validate_rca_result lax errors_of raw = Inl e \<Longrightarrow> \<exists>m. e = RcaResultInvalid m"
  by (cases raw) (auto split: option.splits)

section \<open>Properties\<close>

text \<open>The gate lets through results only: an instance as it is, a dictionary exactly when it validates (and then
  as its validated value), and everything else is \<open>RcaResultInvalid\<close>, never another exception.\<close>

theorem rca_gate:
  "(case validate_rca_result lax errors_of raw of
      Inr r \<Rightarrow> raw = Raw_result r \<or> (\<exists>d. raw = Raw_dict d \<and> validate_result lax d = Some r)
    | Inl e \<Rightarrow> (\<exists>m. e = RcaResultInvalid m) \<and>
        ((\<exists>name. raw = Raw_other name) \<or> (\<exists>d. raw = Raw_dict d \<and> validate_result lax d = None)))"
  by (cases raw) (auto split: option.splits)

text \<open>The reason stored for a rejected result is bounded in the number of errors: at most the limit plus one line
  saying how many were left out, and each message is cut at 120 characters.\<close>

theorem error_summary_bounded:
  "length (summary_parts limit errors) \<le> Suc limit \<and>
   (\<forall>err. length (format_one err) \<le> max 7 (length (str_join (lit ''.'') (se_loc err))) +
      max 7 (length (se_type err)) + 124)"
  using length_format_one length_summary_parts by (simp add: msg_max_def add.commute add.left_commute)

end
