(* ===== verification/Spring_Client.thy ===== *)
theory Spring_Client
  imports Signal_Selector Raw_Normalizer Rca_Validation
begin

text \<open>
  \<open>app/services/spring_client.py\<close>: the payload of one POST and the reading of its answer. The payload
  is the bundle dumped with camel case names plus status and result. The code dumps first and edits the
  dictionary in place (selection, source notes, time formats, raw texts); every edit is a change of the
  value of one declared field, so the model changes the record and dumps it last. The HTTP exchange is
  an argument: an exception of \<open>httpx\<close>, or a status code with a text.
\<close>

text \<open>The parameters of a run: what lies outside the repository, and the settings the parts read.\<close>

record env =
  env_drain :: drain
  env_tim :: nan_sort
  env_lax :: lax_int
  env_signal_limit :: int
  env_max_requeue :: int
  env_stuck_after :: int
  env_grace :: int
  env_retention :: int
  env_orphan_hours :: int
  env_errors_of :: "(pystr, json) dict \<Rightarrow> schema_error list"
  env_text :: "exc \<Rightarrow> pystr"

section \<open>Payload\<close>

definition apply_selection :: "env \<Rightarrow> ingest_bundle \<Rightarrow> (ingest_bundle \<times> (modality \<times> selection) list) res" where
  "apply_selection env b =
     (let tt = trigger_time (b_trigger b);
          select = (\<lambda>m items. select_signals (env_drain env) (env_tim env) (env_signal_limit env) m items tt None)
      in rbind (select Log (b_logs b)) (\<lambda>ls.
         rbind (select Metric (b_metrics b)) (\<lambda>ms.
         rbind (select Trace (b_traces b)) (\<lambda>ts.
           Inr (b\<lparr>b_logs := sel_items ls, b_metrics := sel_items ms, b_traces := sel_items ts\<rparr>,
                [(Log, ls), (Metric, ms), (Trace, ts)])))))"

text \<open>\<open>_annotate_sources\<close>: the note on how many items are sent goes after the source the report has.\<close>

definition source_note :: "selection \<Rightarrow> pystr" where
  "source_note s =
     [51204, 52404, 32] @ str_of_nat (sel_total s) @
     (if truncated s then [44148, 32, 51473, 32, 51452, 50836, 32] @ str_of_nat (length (sel_items s)) @
                          [44148, 32, 49688, 47197]
      else [44148, 32, 51204, 47049, 32, 49688, 47197])"

definition annotate :: "selection \<Rightarrow> pystr option \<Rightarrow> pystr option" where
  "annotate s source =
     (if sel_total s = 0 then source
      else case source of
             None \<Rightarrow> Some (source_note s)
           | Some t \<Rightarrow> Some (if t = [] then source_note s else t @ lit '' ('' @ source_note s @ lit '')''))"

fun annotate_sources :: "(modality \<times> selection) list \<Rightarrow> evidence \<Rightarrow> evidence" where
  "annotate_sources [] e = e"
| "annotate_sources ((Log, s) # ss) e =
     annotate_sources ss (e\<lparr>e_log := (e_log e)\<lparr>ev_source := annotate s (ev_source (e_log e))\<rparr>\<rparr>)"
| "annotate_sources ((Metric, s) # ss) e =
     annotate_sources ss (e\<lparr>e_metric := (e_metric e)\<lparr>ev_source := annotate s (ev_source (e_metric e))\<rparr>\<rparr>)"
| "annotate_sources ((Trace, s) # ss) e =
     annotate_sources ss (e\<lparr>e_trace := (e_trace e)\<lparr>ev_source := annotate s (ev_source (e_trace e))\<rparr>\<rparr>)"

text \<open>\<open>_normalize_timestamps\<close>: window, trigger, the items, and the intervals' ends where present.\<close>

definition stamp_item :: "modality_item \<Rightarrow> modality_item res" where
  "stamp_item i = rbind (to_spring_ts (mi_timestamp i)) (\<lambda>t. Inr (i\<lparr>mi_timestamp := t\<rparr>))"

fun stamp_option :: "pystr option \<Rightarrow> pystr option res" where
  "stamp_option None = Inr None"
| "stamp_option (Some t) = rbind (to_spring_ts t) (\<lambda>t'. Inr (Some t'))"

definition stamp_interval :: "modality_interval \<Rightarrow> modality_interval res" where
  "stamp_interval v =
     rbind (stamp_option (iv_start v)) (\<lambda>s. rbind (stamp_option (iv_end v)) (\<lambda>e.
       Inr (v\<lparr>iv_start := s, iv_end := e\<rparr>)))"

definition normalize_timestamps :: "ingest_bundle \<Rightarrow> ingest_bundle res" where
  "normalize_timestamps b =
     rbind (to_spring_ts (win_start (b_window b))) (\<lambda>ws.
     rbind (to_spring_ts (win_end (b_window b))) (\<lambda>we.
     rbind (to_spring_ts (trigger_time (b_trigger b))) (\<lambda>tt.
     rbind (rmap stamp_item (b_logs b)) (\<lambda>ls.
     rbind (rmap stamp_item (b_metrics b)) (\<lambda>ms.
     rbind (rmap stamp_item (b_traces b)) (\<lambda>ts.
     rbind (rmap stamp_interval (info_log (b_info b))) (\<lambda>il.
     rbind (rmap stamp_interval (info_metric (b_info b))) (\<lambda>im.
     rbind (rmap stamp_interval (info_trace (b_info b))) (\<lambda>it.
       Inr (b\<lparr>b_window := \<lparr>win_start = ws, win_end = we\<rparr>,
              b_trigger := (b_trigger b)\<lparr>trigger_time := tt\<rparr>,
              b_info := \<lparr>info_log = il, info_metric = im, info_trace = it\<rparr>,
              b_logs := ls, b_metrics := ms, b_traces := ts\<rparr>))))))))))"

definition result_payload :: "env \<Rightarrow> ingest_bundle \<Rightarrow> rca_result \<Rightarrow> (pystr, json) dict res" where
  "result_payload env b r =
     rbind (apply_selection env b) (\<lambda>(b1, sels).
       let detail = (r_detail r)\<lparr>d_evidence := annotate_sources sels (d_evidence (r_detail r))\<rparr>
       in rbind (normalize_timestamps b1) (\<lambda>b2. rbind (normalize_payload_signals b2) (\<lambda>b3.
            Inr (bundle_fields to_camel b3 @
                 [(lit ''status'', JStr (lit ''DONE'')), (lit ''severity'', JStr (r_severity r)),
                  (lit ''result'', JObj ((lit ''type'', JStr (r_type r)) #
                     (lit ''service'', JStr (r_service r)) # detail_fields detail))]))))"

definition failure_payload :: "env \<Rightarrow> ingest_bundle \<Rightarrow> pystr \<Rightarrow> (pystr, json) dict res" where
  "failure_payload env b reason =
     rbind (apply_selection env b) (\<lambda>(b1, sels).
       rbind (normalize_timestamps b1) (\<lambda>b2. rbind (normalize_payload_signals b2) (\<lambda>b3.
         Inr (bundle_fields to_camel b3 @
              [(lit ''status'', JStr (lit ''FAILED'')), (lit ''reason'', JStr reason)]))))"

section \<open>Sending\<close>

type_synonym reply = "(nat \<times> pystr) res"

definition is_success :: "nat \<Rightarrow> bool" where
  "is_success code \<longleftrightarrow> 200 \<le> code \<and> code < 300"

definition classify_reply :: "reply \<Rightarrow> unit res" where
  "classify_reply reply =
     rbind reply (\<lambda>(code, text).
       if code = 409 then Inr ()
       else if is_success code then Inr ()
       else let body = take 500 text
            in if code = 401 then Inl (DeliveryPermanentError code body)
               else if 400 \<le> code \<and> code < 500 then Inl (DeliveryPermanentError code body)
               else Inl (DeliveryTransientError code body))"

definition save_result :: "env \<Rightarrow> reply \<Rightarrow> ingest_bundle \<Rightarrow> rca_result \<Rightarrow> unit res" where
  "save_result env reply b r = rbind (result_payload env b r) (\<lambda>_. classify_reply reply)"

definition save_failure :: "env \<Rightarrow> reply \<Rightarrow> ingest_bundle \<Rightarrow> pystr \<Rightarrow> unit res" where
  "save_failure env reply b reason = rbind (failure_payload env b reason) (\<lambda>_. classify_reply reply)"

text \<open>The text of a delivery error.\<close>

fun delivery_text :: "exc \<Rightarrow> pystr" where
  "delivery_text (DeliveryPermanentError code body) = lit ''Spring '' @ str_of_nat code @ lit '': '' @ body"
| "delivery_text (DeliveryTransientError code body) = lit ''Spring '' @ str_of_nat code @ lit '': '' @ body"
| "delivery_text _ = []"

section \<open>What is on the wire\<close>

definition zulu :: "pystr \<Rightarrow> bool" where
  "zulu s \<longleftrightarrow> (\<exists>u. wf_datetime u \<and> dt_tz u = Some 0 \<and> s = spring_text u)"

definition same_instant :: "pystr \<Rightarrow> pystr \<Rightarrow> bool" where
  "same_instant a b \<longleftrightarrow> parse_ts a \<noteq> None \<and> parse_ts b \<noteq> None \<and>
     map_option instant (parse_ts a) = map_option instant (parse_ts b)"

lemma to_spring_zulu:
  assumes "to_spring_ts v = Inr s" shows "zulu s" and "same_instant v s" and "valid_iso8601 s"
proof -
  from assms obtain t u where tu: "parse_ts v = Some t" "wf_datetime u" "dt_tz u = Some 0"
    "instant u = instant t" "s = spring_text u" by (rule to_spring_ts_Inr)
  moreover have "parse_ts s = Some u" using tu by (simp add: parse_spring_text)
  ultimately show "zulu s" and "same_instant v s" and "valid_iso8601 s"
    by (auto simp: zulu_def same_instant_def valid_iso8601_def parse_ts_def)
qed

text \<open>An item as it is sent, and an item of the bundle it comes from.\<close>

definition sent_as :: "modality \<Rightarrow> modality_item \<Rightarrow> modality_item \<Rightarrow> bool" where
  "sent_as m i j \<longleftrightarrow> mi_service j = mi_service i \<and> zulu (mi_timestamp j) \<and>
     same_instant (mi_timestamp i) (mi_timestamp j) \<and> normalize_raw m (mi_raw i) = Inr (mi_raw j)"

lemma stamp_itemD: "stamp_item i = Inr j \<Longrightarrow> \<exists>t. to_spring_ts (mi_timestamp i) = Inr t \<and> j = i\<lparr>mi_timestamp := t\<rparr>"
  by (auto simp: stamp_item_def res_simps)

lemma rmap_list_all2: "rmap f xs = Inr ys \<longleftrightarrow> list_all2 (\<lambda>x y. f x = Inr y) xs ys"
  by (induction xs arbitrary: ys) (auto simp: res_simps list_all2_Cons1)

lemma stamp_normalize_items:
  assumes "rmap stamp_item xs = Inr ys" and "normalize_items m ys = Inr zs"
  shows "list_all2 (sent_as m) xs zs" and "list_all wf_item zs"
proof -
  have a: "list_all2 (\<lambda>x y. stamp_item x = Inr y) xs ys" using assms(1) by (simp add: rmap_list_all2)
  have b: "list_all2 (\<lambda>y z. rbind (normalize_raw m (mi_raw y)) (\<lambda>r. Inr (y\<lparr>mi_raw := r\<rparr>)) = Inr z) ys zs"
    using assms(2) by (simp add: normalize_items_def rmap_list_all2)
  show "list_all2 (sent_as m) xs zs"
    by (rule list_all2_trans [OF _ a b])
      (auto simp: stamp_item_def sent_as_def res_simps dest: to_spring_zulu)
  have "wf_item z" if "z \<in> set zs" for z
  proof -
    from that obtain k where k: "k < length zs" "z = zs ! k" by (auto simp: in_set_conv_nth)
    have "stamp_item (xs ! k) = Inr (ys ! k)"
      using k list_all2_nthD [OF a, of k] list_all2_lengthD [OF a] list_all2_lengthD [OF b] by simp
    moreover have "rbind (normalize_raw m (mi_raw (ys ! k))) (\<lambda>r. Inr ((ys ! k)\<lparr>mi_raw := r\<rparr>)) = Inr z"
      using k list_all2_nthD2 [OF b, of k] by simp
    then have "\<exists>r. z = (ys ! k)\<lparr>mi_raw := r\<rparr>" by (auto simp: res_simps)
    ultimately show ?thesis by (auto simp: wf_item_def dest!: stamp_itemD dest: to_spring_zulu)
  qed
  then show "list_all wf_item zs" by (simp add: list_all_iff)
qed

lemma stamp_interval_wf:
  assumes "rmap stamp_interval xs = Inr ys" shows "list_all wf_interval ys"
proof -
  have opt: "stamp_option t = Inr t' \<Longrightarrow> iso_or_none t'" for t t'
    by (cases t) (auto simp: res_simps dest: to_spring_zulu)
  have "stamp_interval v = Inr v' \<Longrightarrow> wf_interval v'" for v v'
    by (auto simp: stamp_interval_def wf_interval_def res_simps dest: opt)
  then show ?thesis
    using assms by (induction xs arbitrary: ys) (auto simp: res_simps)
qed

definition bundle_items :: "modality \<Rightarrow> ingest_bundle \<Rightarrow> modality_item list" where
  "bundle_items m b = (case m of Log \<Rightarrow> b_logs b | Metric \<Rightarrow> b_metrics b | Trace \<Rightarrow> b_traces b)"

lemma wire_bundle:
  assumes ts: "normalize_timestamps b = Inr b2" and sig: "normalize_payload_signals b2 = Inr b3"
  shows "list_all2 (sent_as m) (bundle_items m b) (bundle_items m b3)" and "wf_bundle b3"
    and "same_instant (trigger_time (b_trigger b)) (trigger_time (b_trigger b3))"
    and "zulu (trigger_time (b_trigger b3))" and "company_code b3 = company_code b"
proof -
  from ts sig show "list_all2 (sent_as m) (bundle_items m b) (bundle_items m b3)"
    by (cases m) (auto simp: normalize_timestamps_def normalize_payload_signals_def bundle_items_def
        res_simps intro: stamp_normalize_items)
  from ts sig show "wf_bundle b3"
    by (auto simp: normalize_timestamps_def normalize_payload_signals_def wf_bundle_def res_simps
        dest: stamp_interval_wf intro: stamp_normalize_items to_spring_zulu)
  from ts sig show "same_instant (trigger_time (b_trigger b)) (trigger_time (b_trigger b3))"
    and "zulu (trigger_time (b_trigger b3))" and "company_code b3 = company_code b"
    by (auto simp: normalize_timestamps_def normalize_payload_signals_def res_simps
        dest: to_spring_zulu)
qed

section \<open>The payload as Spring reads it\<close>

lemma fld_append:
  "dget ys (to_camel (lit n)) = None \<Longrightarrow> dget ys (lit n) = None \<Longrightarrow> fld (xs @ ys) n = fld xs n"
  by (simp add: fld_def map_add_def split: option.split)

definition bundle_field_names :: "string list" where
  "bundle_field_names = [''bundle_version'', ''company_code'', ''window'', ''trigger_info'',
     ''modality_info'', ''logs'', ''metrics'', ''traces'']"

lemma validate_bundle_append:
  assumes "\<And>n. n \<in> set bundle_field_names \<Longrightarrow> dget ys (to_camel (lit n)) = None \<and> dget ys (lit n) = None"
  shows "validate_bundle lax (xs @ ys) = validate_bundle lax xs"
proof -
  have "fld (xs @ ys) n = fld xs n" if "n \<in> set bundle_field_names" for n
    using assms [OF that] by (simp add: fld_append)
  then show ?thesis
    by (simp add: validate_bundle_def v_req_def v_dflt_def bundle_field_names_def del: lit_simps)
qed

definition outside_keys :: "pystr list" where
  "outside_keys = [lit ''status'', lit ''severity'', lit ''result'', lit ''reason'']"

lemma outside_keys_clear:
  "list_all (\<lambda>n. to_camel (lit n) \<notin> set outside_keys \<and> lit n \<notin> set outside_keys) bundle_field_names"
  by code_simp

lemma validate_payload:
  assumes "set (dkeys ys) \<subseteq> set outside_keys" and "wf_bundle b"
  shows "validate_bundle lax (bundle_fields to_camel b @ ys) = Some b"
proof -
  have none: "dget ys k = None" if "k \<notin> set outside_keys" for k
    using that assms(1) by (force simp: map_of_eq_None_iff)
  have "validate_bundle lax (bundle_fields to_camel b @ ys) = validate_bundle lax (bundle_fields to_camel b)"
    by (rule validate_bundle_append) (use outside_keys_clear none in \<open>auto simp: list_all_iff\<close>)
  then show ?thesis using assms(2) by (simp add: validate_bundle_dump)
qed

lemma apply_selection_parts:
  assumes "apply_selection env b = Inr (b1, sels)"
  shows "\<exists>s. select_signals (env_drain env) (env_tim env) (env_signal_limit env) m (bundle_items m b)
               (trigger_time (b_trigger b)) None = Inr s \<and> bundle_items m b1 = sel_items s \<and>
             (m, s) \<in> set sels"
    and "b_trigger b1 = b_trigger b" and "company_code b1 = company_code b"
proof -
  from assms obtain ls ms ts where
    "select_signals (env_drain env) (env_tim env) (env_signal_limit env) Log (b_logs b) (trigger_time (b_trigger b)) None = Inr ls"
    "select_signals (env_drain env) (env_tim env) (env_signal_limit env) Metric (b_metrics b) (trigger_time (b_trigger b)) None = Inr ms"
    "select_signals (env_drain env) (env_tim env) (env_signal_limit env) Trace (b_traces b) (trigger_time (b_trigger b)) None = Inr ts"
    and eqs: "b1 = b\<lparr>b_logs := sel_items ls, b_metrics := sel_items ms, b_traces := sel_items ts\<rparr>"
      "sels = [(Log, ls), (Metric, ms), (Trace, ts)]"
    by (auto simp: apply_selection_def res_simps Let_def)
  then show "\<exists>s. select_signals (env_drain env) (env_tim env) (env_signal_limit env) m (bundle_items m b)
      (trigger_time (b_trigger b)) None = Inr s \<and> bundle_items m b1 = sel_items s \<and> (m, s) \<in> set sels"
    by (cases m) (simp_all add: bundle_items_def)
  from eqs show "b_trigger b1 = b_trigger b" and "company_code b1 = company_code b" by simp_all
qed

lemma select_signals_bound:
  assumes "select_signals drain tim cfg m items tt None = Inr s" and "0 \<le> cfg"
  shows "int (length (sel_items s)) \<le> cfg"
  using assms mset_eq_length [OF in_time_order_props(1)]
  by (auto simp: select_signals_def res_simps Let_def length_round_robin split: if_splits)

lemma result_payload_parts:
  assumes "result_payload env b r = Inr p"
  obtains b1 sels b2 b3 ys where "apply_selection env b = Inr (b1, sels)"
    and "normalize_timestamps b1 = Inr b2" and "normalize_payload_signals b2 = Inr b3"
    and "p = bundle_fields to_camel b3 @ ys" and "set (dkeys ys) \<subseteq> set outside_keys"
  using assms by (auto simp: result_payload_def res_simps Let_def outside_keys_def simp del: lit_simps)

lemma failure_payload_parts:
  assumes "failure_payload env b reason = Inr p"
  obtains b1 sels b2 b3 ys where "apply_selection env b = Inr (b1, sels)"
    and "normalize_timestamps b1 = Inr b2" and "normalize_payload_signals b2 = Inr b3"
    and "p = bundle_fields to_camel b3 @ ys" and "set (dkeys ys) \<subseteq> set outside_keys"
  using assms by (auto simp: failure_payload_def res_simps outside_keys_def simp del: lit_simps)

text \<open>What Spring can count on in the three arrays of a payload.\<close>

definition payload_ok :: "env \<Rightarrow> ingest_bundle \<Rightarrow> ingest_bundle \<Rightarrow> bool" where
  "payload_ok env b b3 \<longleftrightarrow>
     same_instant (trigger_time (b_trigger b)) (trigger_time (b_trigger b3)) \<and>
     zulu (trigger_time (b_trigger b3)) \<and> company_code b3 = company_code b \<and>
     (\<forall>m. \<exists>s. select_signals (env_drain env) (env_tim env) (env_signal_limit env) m (bundle_items m b)
                 (trigger_time (b_trigger b)) None = Inr s \<and>
               list_all2 (sent_as m) (sel_items s) (bundle_items m b3))"

lemma payload_parts_ok:
  assumes "apply_selection env b = Inr (b1, sels)" and "normalize_timestamps b1 = Inr b2"
    and "normalize_payload_signals b2 = Inr b3"
  shows "payload_ok env b b3" and "wf_bundle b3"
  using apply_selection_parts [OF assms(1)] wire_bundle [OF assms(2,3)]
  unfolding payload_ok_def by (auto simp del: lit_simps) metis

section \<open>Properties\<close>

text \<open>The answer of Spring decides the delivery as documented: 2xx and 409 are success, every other 4xx is
  permanent, anything else is transient, an exception of the HTTP client passes through, and an error
  carries at most 500 characters of the body.\<close>

theorem reply_classification:
  "(classify_reply (Inr (code, text)) = Inr () \<longleftrightarrow> 200 \<le> code \<and> code < 300 \<or> code = 409) \<and>
   ((\<exists>body. classify_reply (Inr (code, text)) = Inl (DeliveryPermanentError code body)) \<longleftrightarrow>
      400 \<le> code \<and> code < 500 \<and> code \<noteq> 409) \<and>
   ((\<exists>body. classify_reply (Inr (code, text)) = Inl (DeliveryTransientError code body)) \<longleftrightarrow>
      code < 200 \<or> 300 \<le> code \<and> code < 400 \<or> 500 \<le> code) \<and>
   (case classify_reply (Inr (code, text)) of
      Inl (DeliveryPermanentError c body) \<Rightarrow> c = code \<and> body = take 500 text
    | Inl (DeliveryTransientError c body) \<Rightarrow> c = code \<and> body = take 500 text
    | Inl e \<Rightarrow> False
    | Inr u \<Rightarrow> True) \<and>
   classify_reply (Inl e) = Inl e"
  by (auto simp: classify_reply_def is_success_def Let_def)

text \<open>C20. Spring can read what is sent: a result payload validates as a bundle whose arrays are the selected items
  one by one, each with its service, its moment in UTC and its raw text in the contract's JSON; the window
  and trigger are normalized too, and the company code is the sender's.\<close>

theorem result_payload_contract:
  assumes "result_payload env b r = Inr p"
  shows "\<exists>b3. validate_bundle lax p = Some b3 \<and> wf_bundle b3 \<and> payload_ok env b b3"
proof -
  from assms obtain b1 sels b2 b3 ys where parts: "apply_selection env b = Inr (b1, sels)"
    "normalize_timestamps b1 = Inr b2" "normalize_payload_signals b2 = Inr b3"
    and p: "p = bundle_fields to_camel b3 @ ys" "set (dkeys ys) \<subseteq> set outside_keys"
    by (rule result_payload_parts)
  note ok = payload_parts_ok [OF parts]
  then have "validate_bundle lax p = Some b3" using p validate_payload by simp
  with ok show ?thesis by blast
qed

definition sample_env :: env where
  "sample_env = \<lparr>env_drain = (\<lambda>_. 0), env_tim = (\<lambda>es. es), env_lax = (\<lambda>_. None),
     env_signal_limit = 200, env_max_requeue = 1, env_stuck_after = 1500,
     env_grace = 30, env_retention = 86400, env_orphan_hours = 24, env_errors_of = (\<lambda>_. []), env_text = (\<lambda>_. [])\<rparr>"

definition sample_result :: rca_result where
  "sample_result =
     \<lparr>r_type = lit ''db'', r_severity = lit ''HIGH'', r_service = lit ''cart'',
      r_detail = \<lparr>d_rca = \<lparr>root_cause = lit ''pool'', propagation = lit ''cart''\<rparr>,
        d_summary = \<lparr>highlight = lit ''h'', chips = None, error_tags = None, neutral_tags = None\<rparr>,
        d_evidence = \<lparr>e_log = \<lparr>ev_conclusion = lit ''c'', ev_source = None\<rparr>,
          e_trace = \<lparr>ev_conclusion = lit ''c'', ev_source = None, ev_origin_service = None\<rparr>,
          e_metric = \<lparr>ev_conclusion = lit ''c'', ev_source = None\<rparr>\<rparr>,
        d_impact = \<lparr>im_affected = [], im_metrics = None\<rparr>,
        d_actions = \<lparr>steps = [lit ''s''], recovery = None\<rparr>\<rparr>\<rparr>"

lemma sample_payload: "\<exists>p. result_payload sample_env sample_bundle sample_result = Inr p"
proof -
  have "(case result_payload sample_env sample_bundle sample_result of Inr _ \<Rightarrow> True | Inl _ \<Rightarrow> False)"
    by code_simp
  then show ?thesis by (simp split: sum.splits)
qed

theorem result_payload_contract_witness:
  "\<exists>p b3. result_payload sample_env sample_bundle sample_result = Inr p \<and>
     validate_bundle (\<lambda>_. None) p = Some b3 \<and> payload_ok sample_env sample_bundle b3"
  using sample_payload result_payload_contract by blast

text \<open>The bound on what is sent: each array of a payload has at most \<open>spring_signal_limit\<close> items.\<close>

theorem payload_arrays_bounded:
  assumes "result_payload env b r = Inr p" and "0 \<le> env_signal_limit env"
  shows "\<exists>b3. validate_bundle lax p = Some b3 \<and>
           (\<forall>m. int (length (bundle_items m b3)) \<le> env_signal_limit env)"
proof -
  from assms(1) obtain b1 sels b2 b3 ys where parts: "apply_selection env b = Inr (b1, sels)"
    "normalize_timestamps b1 = Inr b2" "normalize_payload_signals b2 = Inr b3"
    and p: "p = bundle_fields to_camel b3 @ ys" "set (dkeys ys) \<subseteq> set outside_keys"
    by (rule result_payload_parts)
  note ok = payload_parts_ok [OF parts]
  have "validate_bundle lax p = Some b3" using p validate_payload [OF p(2) ok(2)] by simp
  moreover have "int (length (bundle_items m b3)) \<le> env_signal_limit env" for m
    using ok(1) select_signals_bound [OF _ assms(2)] unfolding payload_ok_def
    by (metis list_all2_lengthD)
  ultimately show ?thesis by blast
qed

theorem payload_arrays_bounded_witness:
  "\<exists>p b3. result_payload sample_env sample_bundle sample_result = Inr p \<and>
     validate_bundle (\<lambda>_. None) p = Some b3 \<and> (\<forall>m. length (bundle_items m b3) \<le> 200)"
proof -
  obtain p where p: "result_payload sample_env sample_bundle sample_result = Inr p" using sample_payload by blast
  show ?thesis using payload_arrays_bounded [OF p, of "\<lambda>_. None"] p by (simp add: sample_env_def)
qed

end
