(* ===== verification/Job_Store.thy ===== *)
theory Job_Store
  imports Bundle_Store Spring_Client Rca_Validation
begin

text \<open>
  The table \<open>ingest_job\<close> (\<open>app/db/models.py\<close>) and what the stages share: the world they act on (rows,
  files, the in-memory queue, the clock, the calls made to the outside), one unit of work of an ORM
  session, and the calls to Spring. The object a session has loaded is a copy of the row; a commit writes
  the columns whose value changed since it was loaded, to whatever the row is by then, and sets
  \<open>updated_at\<close>. A commit may fail with an error of the driver (an argument) and fails when the row is gone.
\<close>

section \<open>Rows\<close>

datatype status = PENDING | RUNNING | DELIVERING | DONE | FAILED

record job =
  j_status :: status
  j_bundle :: "(pystr, json) dict"
  j_signals :: "pystr option"
  j_result :: "(pystr, json) dict option"
  j_error :: "pystr option"
  j_requeue :: int
  j_updated :: int

type_synonym jobs = "(nat, job) dict"

text \<open>Calls to the outside, in order: runs of the analysis and deliveries with their outcome.\<close>

datatype event =
    Ran nat "rca_result option res"
  | Sent_result nat "unit res"
  | Sent_failure nat pystr "unit res"

record world =
  w_jobs :: jobs
  w_next :: nat
  w_files :: files
  w_queue :: "nat list"
  w_now :: int
  w_log :: "event list"

definition row :: "world \<Rightarrow> nat \<Rightarrow> job option" where
  "row w jid = dget (w_jobs w) jid"

definition empty_world :: "int \<Rightarrow> world" where
  "empty_world t = \<lparr>w_jobs = [], w_next = 1, w_files = [], w_queue = [], w_now = t, w_log = []\<rparr>"

section \<open>Units of work\<close>

definition write_changes :: "int \<Rightarrow> job \<Rightarrow> job \<Rightarrow> job \<Rightarrow> job" where
  "write_changes now old new r =
     r\<lparr>j_status := (if j_status new = j_status old then j_status r else j_status new),
       j_result := (if j_result new = j_result old then j_result r else j_result new),
       j_error := (if j_error new = j_error old then j_error r else j_error new),
       j_requeue := (if j_requeue new = j_requeue old then j_requeue r else j_requeue new),
       j_updated := now\<rparr>"

definition row_gone :: exc where
  "row_gone = DbError (lit ''StaleDataError'')"

definition set_row :: "nat \<Rightarrow> job \<Rightarrow> world \<Rightarrow> world" where
  "set_row jid r w = w\<lparr>w_jobs := dset jid r (w_jobs w)\<rparr>"

definition commit :: "exc option \<Rightarrow> nat \<Rightarrow> job \<Rightarrow> job \<Rightarrow> world \<Rightarrow> unit res \<times> world" where
  "commit fault jid old new w =
     (case fault of
        Some e \<Rightarrow> (Inl e, w)
      | None \<Rightarrow>
          if new = old then (Inr (), w)
          else case row w jid of
                 None \<Rightarrow> (Inl row_gone, w)
               | Some r \<Rightarrow> (Inr (), set_row jid (write_changes (w_now w) old new r) w))"

text \<open>After a failed commit the session has rolled back and forgotten the loaded values: the next one
  writes every column assigned since, here always status and error.\<close>

definition commit_failure :: "exc option \<Rightarrow> nat \<Rightarrow> job option \<Rightarrow> pystr \<Rightarrow> world \<Rightarrow> unit res \<times> world" where
  "commit_failure fault jid loaded msg w =
     (case loaded of
        Some old \<Rightarrow> commit fault jid old (old\<lparr>j_status := FAILED, j_error := Some msg\<rparr>) w
      | None \<Rightarrow>
          (case fault of
             Some e \<Rightarrow> (Inl e, w)
           | None \<Rightarrow> (case row w jid of
                        None \<Rightarrow> (Inl row_gone, w)
                      | Some r \<Rightarrow> (Inr (), set_row jid (r\<lparr>j_status := FAILED, j_error := Some msg,
                                                        j_updated := w_now w\<rparr>) w))))"

section \<open>Calls\<close>

definition log_event :: "event \<Rightarrow> world \<Rightarrow> world" where
  "log_event e w = w\<lparr>w_log := w_log w @ [e]\<rparr>"

definition send_result :: "env \<Rightarrow> reply \<Rightarrow> nat \<Rightarrow> ingest_bundle \<Rightarrow> rca_result \<Rightarrow> world \<Rightarrow> unit res \<times> world" where
  "send_result env reply jid b r w =
     (let out = save_result env reply b r in (out, log_event (Sent_result jid out) w))"

definition send_failure :: "env \<Rightarrow> reply \<Rightarrow> nat \<Rightarrow> ingest_bundle \<Rightarrow> pystr \<Rightarrow> world \<Rightarrow> world" where
  "send_failure env reply jid b msg w = log_event (Sent_failure jid msg (save_failure env reply b msg)) w"

definition drop_signals :: "pystr set \<Rightarrow> pystr option \<Rightarrow> world \<Rightarrow> world" where
  "drop_signals stuck path w = w\<lparr>w_files := discard stuck path (w_files w)\<rparr>"

definition enqueue :: "nat \<Rightarrow> world \<Rightarrow> world" where
  "enqueue jid w = w\<lparr>w_queue := w_queue w @ [jid]\<rparr>"

text \<open>\<open>str(exc)\<close>: the texts of the program's own exceptions; those of libraries are an argument.\<close>

definition exc_text :: "(exc \<Rightarrow> pystr) \<Rightarrow> exc \<Rightarrow> pystr" where
  "exc_text other e =
     (case e of
        SignalsMissing m \<Rightarrow> m
      | RcaResultInvalid m \<Rightarrow> m
      | DeliveryPermanentError code body \<Rightarrow> delivery_text e
      | DeliveryTransientError code body \<Rightarrow> delivery_text e
      | _ \<Rightarrow> other e)"

section \<open>Actions\<close>

text \<open>Code that awaits several effects: the world is passed on, an exception ends it.\<close>

type_synonym 'a act = "world \<Rightarrow> 'a res \<times> world"

definition wbind :: "'a act \<Rightarrow> ('a \<Rightarrow> 'b act) \<Rightarrow> 'b act" where
  "wbind m f w = (case m w of (Inl e, w') \<Rightarrow> (Inl e, w') | (Inr x, w') \<Rightarrow> f x w')"

definition wret :: "'a \<Rightarrow> 'a act" where
  "wret x w = (Inr x, w)"

definition wdo :: "(world \<Rightarrow> world) \<Rightarrow> unit act" where
  "wdo f w = (Inr (), f w)"

definition wmay_fail :: "exc option \<Rightarrow> unit act" where
  "wmay_fail fault w = (case fault of Some e \<Rightarrow> (Inl e, w) | None \<Rightarrow> (Inr (), w))"

section \<open>Laws of rows and commits\<close>

named_theorems job_simps \<open>rows and the other parts of the world under the shared operations\<close>

lemma row_set_row [job_simps]: "row (set_row jid r w) k = (if k = jid then Some r else row w k)"
  by (simp add: row_def set_row_def dget_dset)

lemma set_row_parts [job_simps]:
  "w_next (set_row jid r w) = w_next w" "w_files (set_row jid r w) = w_files w"
  "w_queue (set_row jid r w) = w_queue w" "w_now (set_row jid r w) = w_now w" "w_log (set_row jid r w) = w_log w"
  by (simp_all add: set_row_def)

lemma row_others [job_simps]:
  "row (log_event e w) k = row w k" "row (drop_signals stuck p w) k = row w k" "row (enqueue i w) k = row w k"
  by (simp_all add: row_def log_event_def drop_signals_def enqueue_def)

lemma parts_others [job_simps]:
  "w_log (log_event e w) = w_log w @ [e]" "w_queue (log_event e w) = w_queue w" "w_next (log_event e w) = w_next w"
  "w_log (drop_signals stuck p w) = w_log w" "w_queue (drop_signals stuck p w) = w_queue w"
  "w_next (drop_signals stuck p w) = w_next w" "w_files (log_event e w) = w_files w"
  "w_log (enqueue i w) = w_log w" "w_queue (enqueue i w) = w_queue w @ [i]" "w_next (enqueue i w) = w_next w"
  "w_files (enqueue i w) = w_files w"
  by (simp_all add: log_event_def drop_signals_def enqueue_def)

lemma commit_cases:
  "commit fault jid old new w = (out, w') \<Longrightarrow>
     (w' = w \<and> (new = old \<or> (\<exists>e. out = Inl e))) \<or>
     (\<exists>r. out = Inr () \<and> new \<noteq> old \<and> row w jid = Some r \<and> w' = set_row jid (write_changes (w_now w) old new r) w)"
  by (auto simp: commit_def split: option.splits if_splits)

lemma commit_Inr:
  "commit fault jid old new w = (Inr (), w') \<Longrightarrow> new \<noteq> old \<Longrightarrow>
     \<exists>r. row w jid = Some r \<and> w' = set_row jid (write_changes (w_now w) old new r) w"
  by (auto simp: commit_def split: option.splits if_splits)

lemma commit_Inl: "commit fault jid old new w = (Inl e, w') \<Longrightarrow> w' = w"
  by (auto simp: commit_def split: option.splits if_splits)

lemma commit_failure_Inl: "commit_failure fault jid loaded msg w = (Inl e, w') \<Longrightarrow> w' = w"
  by (auto simp: commit_failure_def dest: commit_Inl split: option.splits)

lemma commit_failure_Inr:
  assumes "commit_failure fault jid loaded msg w = (Inr u, w')"
    and "\<And>old. loaded = Some old \<Longrightarrow> j_status old \<noteq> FAILED"
  shows "\<exists>r r'. row w jid = Some r \<and> w' = set_row jid r' w \<and> j_status r' = FAILED \<and>
     j_result r' = j_result r \<and> j_requeue r' = j_requeue r \<and> j_signals r' = j_signals r \<and>
     j_bundle r' = j_bundle r"
proof (cases loaded)
  case None
  with assms(1) show ?thesis by (auto simp: commit_failure_def split: option.splits)
next
  case (Some old)
  let ?new = "old\<lparr>j_status := FAILED, j_error := Some msg\<rparr>"
  have "j_status ?new \<noteq> j_status old" using assms(2) [OF Some] by simp
  then have "?new \<noteq> old" by metis
  moreover have "commit fault jid old ?new w = (Inr (), w')"
    using assms(1) Some by (simp add: commit_failure_def)
  ultimately obtain r where "row w jid = Some r" "w' = set_row jid (write_changes (w_now w) old ?new r) w"
    using commit_Inr by blast
  with assms(2) [OF Some] show ?thesis
    by (intro exI [of _ r] exI [of _ "write_changes (w_now w) old ?new r"]) (simp add: write_changes_def)
qed

end
