(* ===== verification/Job_Queue.thy ===== *)
theory Job_Queue
  imports Job_Store
begin

text \<open>
  The RCA worker (\<open>app/services/job_queue.py\<close>), undisturbed: one call of \<open>_process\<close> from the SELECT to the
  discard of the signal file, with everything it awaits answered by an argument: failures of the database
  at each unit of work, the runner's outcome per attempt, Spring's replies. \<open>Lifecycle\<close> cuts the same code
  at its awaits and runs it between other tasks.
\<close>

record answers =
  a_select :: "exc option"
  a_start :: "exc option"
  a_runs :: "nat \<Rightarrow> raw_output option res"
  a_save :: "exc option"
  a_fail :: "exc option"
  a_reply :: reply
  a_mark_select :: "exc option"
  a_mark :: "exc option"
  a_notify :: reply
  a_stuck :: "pystr set"

section \<open>The analysis and its two attempts\<close>

definition attempt :: "env \<Rightarrow> raw_output option res \<Rightarrow> rca_result option res" where
  "attempt env answer =
     rbind answer (\<lambda>raw. case raw of
       None \<Rightarrow> Inr None
     | Some x \<Rightarrow> rbind (validate_rca_result (env_lax env) (env_errors_of env) x) (\<lambda>r. Inr (Some r)))"

fun rca_attempts :: "env \<Rightarrow> (nat \<Rightarrow> raw_output option res) \<Rightarrow> nat \<Rightarrow> nat list \<Rightarrow> exc option \<Rightarrow> rca_result option act" where
  "rca_attempts env runs jid [] last_exc w =
     (case last_exc of Some e \<Rightarrow> (Inl e, w) | None \<Rightarrow> (Inl AssertionError, w))"
| "rca_attempts env runs jid (k # ks) last_exc w =
     (let out = attempt env (runs k); w' = log_event (Ran jid out) w
      in case out of
           Inr x \<Rightarrow> (Inr x, w')
         | Inl e \<Rightarrow> rca_attempts env runs jid ks (Some e) w')"

definition run_rca :: "env \<Rightarrow> (nat \<Rightarrow> raw_output option res) \<Rightarrow> nat \<Rightarrow> rca_result option act" where
  "run_rca env runs jid = rca_attempts env runs jid [1, 2] None"

section \<open>Delivery\<close>

definition mark_done :: "exc option \<Rightarrow> exc option \<Rightarrow> nat \<Rightarrow> unit act" where
  "mark_done select_fault fault jid =
     wbind (wmay_fail select_fault) (\<lambda>_ w.
       case row w jid of
         None \<Rightarrow> (Inr (), w)
       | Some job \<Rightarrow> if j_status job \<noteq> DELIVERING then (Inr (), w)
                     else commit fault jid job (job\<lparr>j_status := DONE\<rparr>) w)"

definition mark_failed :: "exc option \<Rightarrow> exc option \<Rightarrow> nat \<Rightarrow> pystr \<Rightarrow> unit act" where
  "mark_failed select_fault fault jid reason =
     wbind (wmay_fail select_fault) (\<lambda>_ w.
       case row w jid of
         None \<Rightarrow> (Inr (), w)
       | Some job \<Rightarrow> if j_status job \<noteq> DELIVERING then (Inr (), w)
                     else commit fault jid job (job\<lparr>j_status := FAILED, j_error := Some reason\<rparr>) w)"

definition deliver_and_finalize :: "env \<Rightarrow> answers \<Rightarrow> nat \<Rightarrow> ingest_bundle \<Rightarrow> rca_result \<Rightarrow> bool act" where
  "deliver_and_finalize env a jid b r w =
     (case send_result env (a_reply a) jid b r w of
        (Inl e, w1) \<Rightarrow>
          (case e of
             DeliveryPermanentError code body \<Rightarrow>
               wbind (mark_failed (a_mark_select a) (a_mark a) jid (exc_text (env_text env) e)) (\<lambda>_. wret True) w1
           | _ \<Rightarrow> (Inr False, w1))
      | (Inr u, w1) \<Rightarrow> wbind (mark_done (a_mark_select a) (a_mark a) jid) (\<lambda>_. wret True) w1)"

definition deliver_failure :: "env \<Rightarrow> answers \<Rightarrow> nat \<Rightarrow> ingest_bundle \<Rightarrow> pystr \<Rightarrow> unit act" where
  "deliver_failure env a jid b msg = wdo (send_failure env (a_notify a) jid b msg)"

section \<open>The state machine of one job\<close>

text \<open>What is left to do once the session is closed.\<close>

datatype outcome = Nothing_to_send | Deliver rca_result | Failure pystr

text \<open>The \<open>except SignalsMissing\<close> branch.\<close>

definition signals_missing :: "env \<Rightarrow> answers \<Rightarrow> nat \<Rightarrow> job \<Rightarrow> pystr \<Rightarrow> unit act" where
  "signals_missing env a jid job msg =
     wbind (commit (a_fail a) jid job (job\<lparr>j_status := FAILED, j_error := Some msg\<rparr>)) (\<lambda>_ w.
       case model_validate (env_lax env) (j_bundle job) of
         Inl e \<Rightarrow> (Inl e, w)
       | Inr light \<Rightarrow>
           wbind (deliver_failure env a jid light msg) (\<lambda>_. wdo (drop_signals (a_stuck a) (j_signals job))) w)"

text \<open>The inner \<open>try ... except Exception\<close>: the object has status RUNNING; a failed save makes the session
  forget the loaded values.\<close>

definition analyse :: "env \<Rightarrow> answers \<Rightarrow> nat \<Rightarrow> job \<Rightarrow> outcome act" where
  "analyse env a jid job w =
     (let failed = (\<lambda>loaded e. wbind (commit_failure (a_fail a) jid loaded (exc_text (env_text env) e))
                                 (\<lambda>_. wret (Failure (exc_text (env_text env) e))))
      in case run_rca env (a_runs a) jid w of
           (Inl e, w1) \<Rightarrow> failed (Some job) e w1
         | (Inr None, w1) \<Rightarrow>
             (case commit (a_save a) jid job (job\<lparr>j_status := DONE, j_error := None\<rparr>) w1 of
                (Inl e, w2) \<Rightarrow> failed None e w2
              | (Inr u, w2) \<Rightarrow> (Inr Nothing_to_send, w2))
         | (Inr (Some r), w1) \<Rightarrow>
             (case commit (a_save a) jid job (job\<lparr>j_result := Some (result_fields r),
                      j_status := DELIVERING, j_error := None\<rparr>) w1 of
                (Inl e, w2) \<Rightarrow> failed None e w2
              | (Inr u, w2) \<Rightarrow> (Inr (Deliver r), w2)))"

definition after_session :: "env \<Rightarrow> answers \<Rightarrow> nat \<Rightarrow> job \<Rightarrow> ingest_bundle \<Rightarrow> outcome \<Rightarrow> unit act" where
  "after_session env a jid job b out =
     (case out of
        Nothing_to_send \<Rightarrow> wdo (drop_signals (a_stuck a) (j_signals job))
      | Deliver r \<Rightarrow>
          wbind (deliver_and_finalize env a jid b r) (\<lambda>final.
            if final then wdo (drop_signals (a_stuck a) (j_signals job)) else wret ())
      | Failure msg \<Rightarrow>
          wbind (deliver_failure env a jid b msg) (\<lambda>_. wdo (drop_signals (a_stuck a) (j_signals job))))"

definition process :: "env \<Rightarrow> answers \<Rightarrow> nat \<Rightarrow> unit act" where
  "process env a jid =
     wbind (wmay_fail (a_select a)) (\<lambda>_ w.
       case row w jid of
         None \<Rightarrow> (Inr (), w)
       | Some job \<Rightarrow>
           (case restore_bundle (env_lax env) (w_files w) (j_bundle job) (j_signals job) of
              Inl (SignalsMissing msg) \<Rightarrow> signals_missing env a jid job msg w
            | Inl e \<Rightarrow> (Inl e, w)
            | Inr b \<Rightarrow>
                wbind (commit (a_start a) jid job (job\<lparr>j_status := RUNNING\<rparr>)) (\<lambda>_.
                wbind (analyse env a jid (job\<lparr>j_status := RUNNING\<rparr>)) (\<lambda>out.
                  after_session env a jid job b out)) w))"

text \<open>One turn of \<open>_worker\<close>: the head of the queue is processed; an exception is logged and forgotten.\<close>

definition worker_turn :: "env \<Rightarrow> answers \<Rightarrow> world \<Rightarrow> world" where
  "worker_turn env a w =
     (case w_queue w of
        [] \<Rightarrow> w
      | jid # q \<Rightarrow> snd (process env a jid (w\<lparr>w_queue := q\<rparr>)))"

end
