(* ===== verification/Ingest_Api.thy ===== *)
theory Ingest_Api
  imports Job_Queue
begin

text \<open>
  The two endpoints of \<open>app/api/ingest.py\<close>. Reception writes the signal file, inserts the row, reads it
  back and queues the job; whatever fails on the way ends in 503 after the file is discarded. The random
  file name, the failures of disk and database and the files that cannot be removed are arguments.
\<close>

record reception =
  in_hex :: pystr
  in_disk :: "exc option"
  in_commit :: "exc option"
  in_refresh :: "exc option"
  in_stuck :: "pystr set"

definition new_job :: "(pystr, json) dict \<Rightarrow> pystr \<Rightarrow> int \<Rightarrow> job" where
  "new_job light path now =
     \<lparr>j_status = PENDING, j_bundle = light, j_signals = Some path, j_result = None, j_error = None,
      j_requeue = 0, j_updated = now\<rparr>"

definition not_persisted :: exc where
  "not_persisted = HTTPException 503 (lit ''failed to persist job'')"

definition save_signals :: "reception \<Rightarrow> ingest_bundle \<Rightarrow> ((pystr, json) dict \<times> pystr) act" where
  "save_signals q b w =
     (case in_disk q of
        Some e \<Rightarrow> (Inl e, w)
      | None \<Rightarrow> (case split_and_save (w_now w) (in_hex q) (bundle_fields (\<lambda>n. n) b) (w_files w) of
                   (light, name, fs) \<Rightarrow> (Inr (light, name), w\<lparr>w_files := fs\<rparr>)))"

definition insert_job :: "exc option \<Rightarrow> job \<Rightarrow> nat act" where
  "insert_job fault job w =
     (case fault of
        Some e \<Rightarrow> (Inl e, w)
      | None \<Rightarrow> (Inr (w_next w), w\<lparr>w_jobs := dset (w_next w) job (w_jobs w), w_next := Suc (w_next w)\<rparr>))"

definition reject :: "pystr set \<Rightarrow> pystr option \<Rightarrow> nat act" where
  "reject stuck path w = (Inl not_persisted, drop_signals stuck path w)"

definition ingest :: "reception \<Rightarrow> ingest_bundle \<Rightarrow> nat act" where
  "ingest q b w =
     (case save_signals q b w of
        (Inl e, w1) \<Rightarrow> reject (in_stuck q) None w1
      | (Inr (light, path), w1) \<Rightarrow>
          (case insert_job (in_commit q) (new_job light path (w_now w1)) w1 of
             (Inl e, w2) \<Rightarrow> reject (in_stuck q) (Some path) w2
           | (Inr jid, w2) \<Rightarrow>
               (case in_refresh q of
                  Some e \<Rightarrow> reject (in_stuck q) (Some path) w2
                | None \<Rightarrow> wbind (wdo (enqueue jid)) (\<lambda>_. wret jid) w2)))"

record job_view =
  v_job_id :: nat
  v_status :: status
  v_result :: "(pystr, json) dict option"
  v_error :: "pystr option"

definition get_job_status :: "nat \<Rightarrow> world \<Rightarrow> job_view res" where
  "get_job_status jid w =
     (case row w jid of
        None \<Rightarrow> Inl (HTTPException 404 (lit ''job not found''))
      | Some job \<Rightarrow> Inr \<lparr>v_job_id = jid, v_status = j_status job, v_result = j_result job, v_error = j_error job\<rparr>)"

section \<open>What a reception leaves behind\<close>

lemma ingest_accepted:
  assumes "ingest q b w = (Inr jid, w')"
  shows "jid = w_next w \<and> w_queue w' = w_queue w @ [jid] \<and> w_log w' = w_log w \<and>
    row w' jid = Some (new_job (light_of (bundle_fields id b)) (final_name (in_hex q)) (w_now w)) \<and>
    w_files w' = store_save (w_now w) (in_hex q) b (w_files w) \<and> w_next w' = Suc (w_next w) \<and>
    (\<forall>k. k \<noteq> jid \<longrightarrow> row w' k = row w k)"
  using assms
  by (auto simp: ingest_def save_signals_def insert_job_def reject_def wbind_def wdo_def wret_def
      split_and_save_def write_sync_def store_save_def row_def enqueue_def dget_dset id_def
      split: option.splits prod.splits sum.splits)

lemma ingest_refused:
  assumes "ingest q b w = (Inl e, w')"
  shows "e = not_persisted \<and> w_queue w' = w_queue w"
    and "in_disk q \<noteq> None \<or> in_commit q \<noteq> None \<Longrightarrow> w_jobs w' = w_jobs w"
    and "in_disk q \<noteq> None \<Longrightarrow> w' = w"
  using assms
  by (auto simp: ingest_def save_signals_def insert_job_def reject_def wbind_def wdo_def wret_def
      drop_signals_def discard_def split: option.splits prod.splits sum.splits)

lemma ingest_restorable:
  assumes "ingest q b w = (Inr jid, w')" and "wf_bundle b" and "hex_name (in_hex q)"
  shows "\<exists>job. row w' jid = Some job \<and> j_status job = PENDING \<and>
           restore_bundle lax (w_files w') (j_bundle job) (j_signals job) = Inr b"
  using ingest_accepted [OF assms(1)] store.restore_save [OF assms(3,2), of lax "w_now w" "w_files w"]
  by (auto simp: new_job_def store_restore_def)

end
