(* ===== verification/Recovery.thy ===== *)
theory Recovery
  imports Job_Queue
begin

text \<open>
  The loops that repair and clean up, one iteration each, undisturbed: \<open>stuck_job_reaper.py\<close> (jobs left in
  RUNNING, and the queue after a restart), \<open>delivery_reconciler.py\<close> (results not yet delivered),
  \<open>job_cleanup.py\<close> (old rows and orphaned files). The rows a SELECT returns come in primary key order, which
  is the order of the dictionary.
\<close>

record loop_answers =
  l_select :: "exc option"
  l_commit :: "exc option"
  l_reply :: "nat \<Rightarrow> reply"
  l_mark_select :: "nat \<Rightarrow> exc option"
  l_mark :: "nat \<Rightarrow> exc option"
  l_stuck :: "pystr set"

section \<open>Stuck jobs\<close>

definition stuck_reason :: pystr where
  "stuck_reason = [50892, 52964, 32, 51473, 45800, 51004, 47196, 32, 54924, 49688, 32, 8212, 32, 82, 85, 78, 78, 73,
     78, 71, 32, 51092, 47448, 44, 32, 51116, 53804, 51077, 32, 54728, 50857, 32, 54943, 49688, 32, 49548, 51652]"

definition select_running :: "int option \<Rightarrow> world \<Rightarrow> jobs" where
  "select_running cutoff w =
     filter (\<lambda>(jid, job). j_status job = RUNNING \<and>
               (case cutoff of None \<Rightarrow> True | Some c \<Rightarrow> j_updated job < c)) (w_jobs w)"

definition may_requeue :: "env \<Rightarrow> job \<Rightarrow> bool" where
  "may_requeue env job \<longleftrightarrow> j_requeue job < env_max_requeue env"

definition recovered :: "env \<Rightarrow> job \<Rightarrow> job" where
  "recovered env job =
     (if may_requeue env job then job\<lparr>j_requeue := j_requeue job + 1, j_status := PENDING\<rparr>
      else job\<lparr>j_status := FAILED, j_error := Some stuck_reason\<rparr>)"

text \<open>One commit for all loaded objects: every row is written or none.\<close>

definition commit_all :: "exc option \<Rightarrow> (nat \<times> job \<times> job) list \<Rightarrow> unit act" where
  "commit_all fault changes w =
     (case fault of
        Some e \<Rightarrow> (Inl e, w)
      | None \<Rightarrow>
          if list_all (\<lambda>(jid, old, new). row w jid \<noteq> None) changes
          then (Inr (), fold (\<lambda>(jid, old, new) w'. snd (commit None jid old new w')) changes w)
          else (Inl row_gone, w))"

definition reap_changes :: "env \<Rightarrow> jobs \<Rightarrow> (nat \<times> job \<times> job) list" where
  "reap_changes env jobs = map (\<lambda>(jid, job). (jid, job, recovered env job)) jobs"

definition to_enqueue :: "env \<Rightarrow> jobs \<Rightarrow> nat list" where
  "to_enqueue env jobs = map fst (filter (\<lambda>(jid, job). may_requeue env job) jobs)"

definition to_fail :: "env \<Rightarrow> jobs \<Rightarrow> (nat \<times> (pystr, json) dict \<times> pystr option) list" where
  "to_fail env jobs =
     map (\<lambda>(jid, job). (jid, j_bundle job, j_signals job)) (filter (\<lambda>(jid, job). \<not> may_requeue env job) jobs)"

text \<open>\<open>_restore\<close>: without the file the light bundle is used.\<close>

definition restore_or_light :: "env \<Rightarrow> files \<Rightarrow> (pystr, json) dict \<Rightarrow> pystr option \<Rightarrow> ingest_bundle res" where
  "restore_or_light env fs stored path =
     (case restore_bundle (env_lax env) fs stored path of
        Inl (SignalsMissing m) \<Rightarrow> model_validate (env_lax env) stored
      | r \<Rightarrow> r)"

definition notify_failure :: "env \<Rightarrow> reply \<Rightarrow> nat \<Rightarrow> (pystr, json) dict \<Rightarrow> pystr option \<Rightarrow> world \<Rightarrow> world" where
  "notify_failure env reply jid stored path w =
     (case restore_or_light env (w_files w) stored path of
        Inl e \<Rightarrow> w
      | Inr b \<Rightarrow> send_failure env reply jid b stuck_reason w)"

fun notify_all :: "env \<Rightarrow> loop_answers \<Rightarrow> (nat \<times> (pystr, json) dict \<times> pystr option) list \<Rightarrow> world \<Rightarrow> world" where
  "notify_all env l [] w = w"
| "notify_all env l ((jid, stored, path) # rest) w =
     notify_all env l rest (drop_signals (l_stuck l) path (notify_failure env (l_reply l jid) jid stored path w))"

definition recover_running :: "env \<Rightarrow> loop_answers \<Rightarrow> int option \<Rightarrow> (nat \<times> nat) act" where
  "recover_running env l cutoff =
     wbind (wmay_fail (l_select l)) (\<lambda>_ w.
       let jobs = select_running cutoff w; enq = to_enqueue env jobs; failed = to_fail env jobs
       in wbind (if jobs \<noteq> [] then commit_all (l_commit l) (reap_changes env jobs) else wret ()) (\<lambda>_.
          wbind (wdo (fold enqueue enq)) (\<lambda>_.
          wbind (wdo (notify_all env l failed)) (\<lambda>_.
            wret (length enq, length failed)))) w)"

definition reap_once :: "env \<Rightarrow> loop_answers \<Rightarrow> (nat \<times> nat) act" where
  "reap_once env l w = recover_running env l (Some (w_now w - env_stuck_after env)) w"

definition requeue_pending :: "exc option \<Rightarrow> nat act" where
  "requeue_pending fault =
     wbind (wmay_fail fault) (\<lambda>_ w.
       let ids = map fst (filter (\<lambda>(jid, job). j_status job = PENDING) (w_jobs w))
       in (Inr (length ids), fold enqueue ids w))"

definition recover_on_startup :: "env \<Rightarrow> exc option \<Rightarrow> loop_answers \<Rightarrow> (nat \<times> nat \<times> nat) act" where
  "recover_on_startup env fault l =
     wbind (requeue_pending fault) (\<lambda>pending.
     wbind (recover_running env l None) (\<lambda>(requeued, failed). wret (pending, requeued, failed)))"

section \<open>Undelivered results\<close>

type_synonym undelivered = "nat \<times> (pystr, json) dict \<times> (pystr, json) dict option \<times> pystr option"

definition select_delivering :: "int \<Rightarrow> world \<Rightarrow> undelivered list" where
  "select_delivering cutoff w =
     map (\<lambda>(jid, job). (jid, j_bundle job, j_result job, j_signals job))
       (filter (\<lambda>(jid, job). j_status job = DELIVERING \<and> j_updated job < cutoff) (w_jobs w))"

text \<open>The reconciler's \<open>_mark_done\<close> and \<open>_mark_failed\<close> say whether they wrote.\<close>

definition mark_if_delivering :: "exc option \<Rightarrow> exc option \<Rightarrow> nat \<Rightarrow> (job \<Rightarrow> job) \<Rightarrow> bool act" where
  "mark_if_delivering select_fault fault jid change =
     wbind (wmay_fail select_fault) (\<lambda>_ w.
       case row w jid of
         None \<Rightarrow> (Inr False, w)
       | Some job \<Rightarrow> if j_status job \<noteq> DELIVERING then (Inr False, w)
                     else wbind (commit fault jid job (change job)) (\<lambda>_. wret True) w)"

definition reconciler_mark_done :: "loop_answers \<Rightarrow> nat \<Rightarrow> bool act" where
  "reconciler_mark_done l jid =
     mark_if_delivering (l_mark_select l jid) (l_mark l jid) jid (\<lambda>job. job\<lparr>j_status := DONE\<rparr>)"

definition reconciler_mark_failed :: "loop_answers \<Rightarrow> nat \<Rightarrow> pystr \<Rightarrow> bool act" where
  "reconciler_mark_failed l jid reason =
     mark_if_delivering (l_mark_select l jid) (l_mark l jid) jid
       (\<lambda>job. job\<lparr>j_status := FAILED, j_error := Some reason\<rparr>)"

text \<open>The body of the \<open>try\<close>: restore, read the stored result, send.\<close>

definition resend :: "env \<Rightarrow> loop_answers \<Rightarrow> undelivered \<Rightarrow> (pystr, json) dict \<Rightarrow> unit act" where
  "resend env l u raw_result w =
     (case u of (jid, stored, _, path) \<Rightarrow>
        case restore_or_light env (w_files w) stored path of
          Inl e \<Rightarrow> (Inl e, w)
        | Inr b \<Rightarrow> (case validate_result (env_lax env) raw_result of
                       None \<Rightarrow> (Inl (ValidationError (lit ''RcaResult'')), w)
                     | Some r \<Rightarrow> send_result env (l_reply l jid) jid b r w))"

definition redeliver_one :: "env \<Rightarrow> loop_answers \<Rightarrow> undelivered \<Rightarrow> bool act" where
  "redeliver_one env l u w =
     (case u of (jid, stored, raw_result, path) \<Rightarrow>
        case raw_result of
          None \<Rightarrow> (Inr False, w)
        | Some raw \<Rightarrow>
            (case resend env l u raw w of
               (Inl e, w1) \<Rightarrow>
                 (case e of
                    DeliveryPermanentError code body \<Rightarrow>
                      wbind (reconciler_mark_failed l jid (exc_text (env_text env) e)) (\<lambda>marked.
                        wbind (wdo (if marked then drop_signals (l_stuck l) path else (\<lambda>w. w))) (\<lambda>_. wret False)) w1
                  | _ \<Rightarrow> (Inr False, w1))
             | (Inr _, w1) \<Rightarrow>
                 wbind (reconciler_mark_done l jid) (\<lambda>marked.
                   wbind (wdo (if marked then drop_signals (l_stuck l) path else (\<lambda>w. w))) (\<lambda>_. wret marked)) w1))"

fun redeliver_all :: "env \<Rightarrow> loop_answers \<Rightarrow> undelivered list \<Rightarrow> nat \<Rightarrow> nat act" where
  "redeliver_all env l [] delivered w = (Inr delivered, w)"
| "redeliver_all env l (u # us) delivered w =
     wbind (redeliver_one env l u) (\<lambda>ok. redeliver_all env l us (if ok then Suc delivered else delivered)) w"

definition redeliver_once :: "env \<Rightarrow> loop_answers \<Rightarrow> nat act" where
  "redeliver_once env l =
     wbind (wmay_fail (l_select l)) (\<lambda>_ w. redeliver_all env l (select_delivering (w_now w - env_grace env) w) 0 w)"

section \<open>Cleaning up\<close>

definition terminal_statuses :: "status set" where
  "terminal_statuses = {DONE, FAILED}"

definition active_statuses :: "status set" where
  "active_statuses = {PENDING, RUNNING, DELIVERING}"

definition purgeable :: "int \<Rightarrow> job \<Rightarrow> bool" where
  "purgeable cutoff job \<longleftrightarrow> j_status job \<in> terminal_statuses \<and> j_updated job < cutoff"

definition purge_once :: "exc option \<Rightarrow> int \<Rightarrow> nat act" where
  "purge_once fault retention w =
     (case fault of
        Some e \<Rightarrow> (Inl e, w)
      | None \<Rightarrow> (let gone = filter (\<lambda>(jid, job). purgeable (w_now w - retention) job) (w_jobs w)
                 in (Inr (length gone),
                     w\<lparr>w_jobs := filter (\<lambda>(jid, job). \<not> purgeable (w_now w - retention) job) (w_jobs w)\<rparr>)))"

definition files_in_use :: "exc option \<Rightarrow> pystr set act" where
  "files_in_use fault w =
     (case fault of
        Some e \<Rightarrow> (Inl e, w)
      | None \<Rightarrow> (Inr (set (concat (map (\<lambda>(jid, job). case j_signals job of
                        Some n \<Rightarrow> if j_status job \<in> active_statuses \<and> n \<noteq> [] then [n] else []
                      | None \<Rightarrow> []) (w_jobs w)))), w))"

definition sweep :: "pystr set \<Rightarrow> int \<Rightarrow> pystr set \<Rightarrow> nat act" where
  "sweep stuck age_hours keep w =
     (case sweep_orphans stuck (w_now w) age_hours None (Some keep) (w_files w) of
        (n, fs) \<Rightarrow> (Inr n, w\<lparr>w_files := fs\<rparr>))"

text \<open>One iteration of \<open>_loop\<close> inside its \<open>try\<close>.\<close>

definition clean_once :: "env \<Rightarrow> exc option \<Rightarrow> exc option \<Rightarrow> pystr set \<Rightarrow> (nat \<times> nat) act" where
  "clean_once env fault fault' stuck =
     wbind (purge_once fault (env_retention env)) (\<lambda>deleted.
     wbind (files_in_use fault') (\<lambda>keep.
     wbind (sweep stuck (env_orphan_hours env) keep) (\<lambda>swept. wret (deleted, swept))))"

end
