(* ===== verification/Lifecycle.thy ===== *)
theory Lifecycle
  imports Ingest_Api Recovery
begin

text \<open>
  All tasks of the process on one event loop (\<open>app/main.py\<close>'s lifespan): the workers, the reaper, the
  reconciler, the cleaner and the requests being received. A task runs alone from one \<open>await\<close> to the next,
  so a task is where it waits together with what it has in its variables, and \<open>task_step\<close> is one such
  stretch: the effect of the awaited call (answered by an argument), then the code up to the next await.
  The segments call the same operations as the undisturbed functions of \<open>Job_Queue\<close>, \<open>Recovery\<close> and
  \<open>Ingest_Api\<close>. \<open>sys_step\<close> lets any task move, requests arrive, time pass and the process restart (tasks
  and the in-memory queue are lost, rows and files stay).
\<close>

section \<open>Tasks\<close>

datatype verdict = Delivered | Refused pystr

fun apply_verdict :: "verdict \<Rightarrow> job \<Rightarrow> job" where
  "apply_verdict Delivered job = job\<lparr>j_status := DONE\<rparr>"
| "apply_verdict (Refused reason) job = job\<lparr>j_status := FAILED, j_error := Some reason\<rparr>"

type_synonym to_notify = "(nat \<times> (pystr, json) dict \<times> pystr option) list"

datatype task =
    W_idle
  | W_select nat
  | W_restore nat job
  | W_missing nat job pystr
  | W_start nat job ingest_bundle
  | W_run nat job ingest_bundle nat
  | W_save nat job ingest_bundle "rca_result option"
  | W_fail nat "job option" job ingest_bundle pystr
  | W_deliver nat job ingest_bundle rca_result
  | W_mark nat verdict "pystr option"
  | W_mark_commit nat job verdict "pystr option"
  | W_notify nat ingest_bundle pystr "pystr option"
  | W_discard "pystr option"
  | S_pending
  | R_idle
  | R_select "int option"
  | R_commit jobs
  | R_enqueue jobs
  | R_notify to_notify
  | R_send nat ingest_bundle "pystr option" to_notify
  | R_discard "pystr option" to_notify
  | D_idle
  | D_each "undelivered list"
  | D_send nat ingest_bundle rca_result "pystr option" "undelivered list"
  | D_mark nat verdict "pystr option" "undelivered list"
  | D_mark_commit nat job verdict "pystr option" "undelivered list"
  | D_discard "pystr option" "undelivered list"
  | C_idle
  | C_files
  | C_sweep "pystr set"
  | I_save reception ingest_bundle
  | I_insert reception "(pystr, json) dict" pystr
  | I_refresh reception nat pystr
  | I_reject reception "pystr option"
  | I_end

text \<open>The DELIVERING test of \<open>_mark_done\<close> and \<open>_mark_failed\<close>: \<open>other\<close> when the row is gone or elsewhere.\<close>

definition mark_select :: "exc option \<Rightarrow> task \<Rightarrow> task \<Rightarrow> (job \<Rightarrow> task) \<Rightarrow> nat \<Rightarrow> world \<Rightarrow> task" where
  "mark_select fault raised other found jid w =
     (case fault of
        Some e \<Rightarrow> raised
      | None \<Rightarrow> (case row w jid of
                   None \<Rightarrow> other
                 | Some job \<Rightarrow> if j_status job \<noteq> DELIVERING then other else found job))"

section \<open>One stretch of a task\<close>

fun task_step :: "env \<Rightarrow> answers \<Rightarrow> task \<Rightarrow> world \<Rightarrow> task \<times> world" where
  "task_step env a W_idle w =
     (case w_queue w of [] \<Rightarrow> (W_idle, w) | jid # q \<Rightarrow> (W_select jid, w\<lparr>w_queue := q\<rparr>))"
| "task_step env a (W_select jid) w =
     (case a_select a of
        Some e \<Rightarrow> (W_idle, w)
      | None \<Rightarrow> (case row w jid of None \<Rightarrow> (W_idle, w) | Some job \<Rightarrow> (W_restore jid job, w)))"
| "task_step env a (W_restore jid job) w =
     (case restore_bundle (env_lax env) (w_files w) (j_bundle job) (j_signals job) of
        Inl (SignalsMissing msg) \<Rightarrow> (W_missing jid job msg, w)
      | Inl e \<Rightarrow> (W_idle, w)
      | Inr b \<Rightarrow> (W_start jid job b, w))"
| "task_step env a (W_missing jid job msg) w =
     (case commit (a_fail a) jid job (job\<lparr>j_status := FAILED, j_error := Some msg\<rparr>) w of
        (Inl e, w1) \<Rightarrow> (W_idle, w1)
      | (Inr u, w1) \<Rightarrow> (case model_validate (env_lax env) (j_bundle job) of
                          Inl e \<Rightarrow> (W_idle, w1)
                        | Inr light \<Rightarrow> (W_notify jid light msg (j_signals job), w1)))"
| "task_step env a (W_start jid job b) w =
     (case commit (a_start a) jid job (job\<lparr>j_status := RUNNING\<rparr>) w of
        (Inl e, w1) \<Rightarrow> (W_idle, w1)
      | (Inr u, w1) \<Rightarrow> (W_run jid (job\<lparr>j_status := RUNNING\<rparr>) b 1, w1))"
| "task_step env a (W_run jid job b k) w =
     (let out = attempt env (a_runs a k); w1 = log_event (Ran jid out) w
      in case out of
           Inr x \<Rightarrow> (W_save jid job b x, w1)
         | Inl e \<Rightarrow> if k = 1 then (W_run jid job b 2, w1)
                    else (W_fail jid (Some job) job b (exc_text (env_text env) e), w1))"
| "task_step env a (W_save jid job b None) w =
     (case commit (a_save a) jid job (job\<lparr>j_status := DONE, j_error := None\<rparr>) w of
        (Inl e, w1) \<Rightarrow> (W_fail jid None job b (exc_text (env_text env) e), w1)
      | (Inr u, w1) \<Rightarrow> (W_discard (j_signals job), w1))"
| "task_step env a (W_save jid job b (Some r)) w =
     (case commit (a_save a) jid job (job\<lparr>j_result := Some (result_fields r), j_status := DELIVERING,
              j_error := None\<rparr>) w of
        (Inl e, w1) \<Rightarrow> (W_fail jid None job b (exc_text (env_text env) e), w1)
      | (Inr u, w1) \<Rightarrow> (W_deliver jid job b r, w1))"
| "task_step env a (W_fail jid loaded job b msg) w =
     (case commit_failure (a_fail a) jid loaded msg w of
        (Inl e, w1) \<Rightarrow> (W_idle, w1)
      | (Inr u, w1) \<Rightarrow> (W_notify jid b msg (j_signals job), w1))"
| "task_step env a (W_deliver jid job b r) w =
     (case send_result env (a_reply a) jid b r w of
        (Inl e, w1) \<Rightarrow>
          (case e of
             DeliveryPermanentError code body \<Rightarrow>
               (W_mark jid (Refused (exc_text (env_text env) e)) (j_signals job), w1)
           | _ \<Rightarrow> (W_idle, w1))
      | (Inr u, w1) \<Rightarrow> (W_mark jid Delivered (j_signals job), w1))"
| "task_step env a (W_mark jid v path) w =
     (mark_select (a_mark_select a) W_idle (W_discard path) (\<lambda>job. W_mark_commit jid job v path) jid w, w)"
| "task_step env a (W_mark_commit jid job v path) w =
     (case commit (a_mark a) jid job (apply_verdict v job) w of
        (Inl e, w1) \<Rightarrow> (W_idle, w1)
      | (Inr u, w1) \<Rightarrow> (W_discard path, w1))"
| "task_step env a (W_notify jid b msg path) w = (W_discard path, send_failure env (a_notify a) jid b msg w)"
| "task_step env a (W_discard path) w = (W_idle, drop_signals (a_stuck a) path w)"
| "task_step env a S_pending w =
     (case requeue_pending (a_select a) w of
        (Inl e, w1) \<Rightarrow> (R_idle, w1)
      | (Inr n, w1) \<Rightarrow> (R_select None, w1))"
| "task_step env a R_idle w = (R_select (Some (w_now w - env_stuck_after env)), w)"
| "task_step env a (R_select cutoff) w =
     (case a_select a of
        Some e \<Rightarrow> (R_idle, w)
      | None \<Rightarrow> (let jobs = select_running cutoff w in if jobs = [] then (R_idle, w) else (R_commit jobs, w)))"
| "task_step env a (R_commit jobs) w =
     (case commit_all (a_save a) (reap_changes env jobs) w of
        (Inl e, w1) \<Rightarrow> (R_idle, w1)
      | (Inr u, w1) \<Rightarrow> (R_enqueue jobs, w1))"
| "task_step env a (R_enqueue jobs) w = (R_notify (to_fail env jobs), fold enqueue (to_enqueue env jobs) w)"
| "task_step env a (R_notify []) w = (R_idle, w)"
| "task_step env a (R_notify ((jid, stored, path) # rest)) w =
     (case restore_or_light env (w_files w) stored path of
        Inl e \<Rightarrow> (R_discard path rest, w)
      | Inr b \<Rightarrow> (R_send jid b path rest, w))"
| "task_step env a (R_send jid b path rest) w =
     (R_discard path rest, send_failure env (a_notify a) jid b stuck_reason w)"
| "task_step env a (R_discard path rest) w = (R_notify rest, drop_signals (a_stuck a) path w)"
| "task_step env a D_idle w =
     (case a_select a of
        Some e \<Rightarrow> (D_idle, w)
      | None \<Rightarrow> (D_each (select_delivering (w_now w - env_grace env) w), w))"
| "task_step env a (D_each []) w = (D_idle, w)"
| "task_step env a (D_each ((jid, stored, raw_result, path) # us)) w =
     (case raw_result of
        None \<Rightarrow> (D_each us, w)
      | Some raw \<Rightarrow>
          (case restore_or_light env (w_files w) stored path of
             Inl e \<Rightarrow> (D_each us, w)
           | Inr b \<Rightarrow> (case validate_result (env_lax env) raw of
                          None \<Rightarrow> (D_each us, w)
                        | Some r \<Rightarrow> (D_send jid b r path us, w))))"
| "task_step env a (D_send jid b r path us) w =
     (case send_result env (a_reply a) jid b r w of
        (Inl e, w1) \<Rightarrow>
          (case e of
             DeliveryPermanentError code body \<Rightarrow> (D_mark jid (Refused (exc_text (env_text env) e)) path us, w1)
           | _ \<Rightarrow> (D_each us, w1))
      | (Inr u, w1) \<Rightarrow> (D_mark jid Delivered path us, w1))"
| "task_step env a (D_mark jid v path us) w =
     (mark_select (a_mark_select a) D_idle (D_each us) (\<lambda>job. D_mark_commit jid job v path us) jid w, w)"
| "task_step env a (D_mark_commit jid job v path us) w =
     (case commit (a_mark a) jid job (apply_verdict v job) w of
        (Inl e, w1) \<Rightarrow> (D_idle, w1)
      | (Inr u, w1) \<Rightarrow> (D_discard path us, w1))"
| "task_step env a (D_discard path us) w = (D_each us, drop_signals (a_stuck a) path w)"
| "task_step env a C_idle w =
     (case purge_once (a_save a) (env_retention env) w of
        (Inl e, w1) \<Rightarrow> (C_idle, w1)
      | (Inr n, w1) \<Rightarrow> (C_files, w1))"
| "task_step env a C_files w =
     (case files_in_use (a_select a) w of
        (Inl e, w1) \<Rightarrow> (C_idle, w1)
      | (Inr keep, w1) \<Rightarrow> (C_sweep keep, w1))"
| "task_step env a (C_sweep keep) w = (C_idle, snd (sweep (a_stuck a) (env_orphan_hours env) keep w))"
| "task_step env a (I_save q b) w =
     (case save_signals q b w of
        (Inl e, w1) \<Rightarrow> (I_reject q None, w1)
      | (Inr (light, path), w1) \<Rightarrow> (I_insert q light path, w1))"
| "task_step env a (I_insert q light path) w =
     (case insert_job (in_commit q) (new_job light path (w_now w)) w of
        (Inl e, w1) \<Rightarrow> (I_reject q (Some path), w1)
      | (Inr jid, w1) \<Rightarrow> (I_refresh q jid path, w1))"
| "task_step env a (I_refresh q jid path) w =
     (case in_refresh q of
        Some e \<Rightarrow> (I_reject q (Some path), w)
      | None \<Rightarrow> (I_end, enqueue jid w))"
| "task_step env a (I_reject q path) w = (I_end, drop_signals (in_stuck q) path w)"
| "task_step env a I_end w = (I_end, w)"

section \<open>The system\<close>

record sys =
  s_tasks :: "task list"
  s_world :: world

definition start_tasks :: "nat \<Rightarrow> task list" where
  "start_tasks n = replicate n W_idle @ [S_pending, D_idle, C_idle]"

definition start_sys :: "nat \<Rightarrow> int \<Rightarrow> sys" where
  "start_sys n t = \<lparr>s_tasks = start_tasks n, s_world = empty_world t\<rparr>"

text \<open>What may happen next: task \<open>i\<close> moves with some answers, a request arrives, time passes, a restart.\<close>

datatype move = Run nat answers | Request reception ingest_bundle | Tick nat | Restart nat

fun sys_do :: "env \<Rightarrow> move \<Rightarrow> sys \<Rightarrow> sys" where
  "sys_do env (Run i a) s =
     (if i < length (s_tasks s) then
        (case task_step env a (s_tasks s ! i) (s_world s) of
           (t, w) \<Rightarrow> \<lparr>s_tasks = (s_tasks s)[i := t], s_world = w\<rparr>)
      else s)"
| "sys_do env (Request q b) s = s\<lparr>s_tasks := s_tasks s @ [I_save q b]\<rparr>"
| "sys_do env (Tick d) s = s\<lparr>s_world := (s_world s)\<lparr>w_now := w_now (s_world s) + int d\<rparr>\<rparr>"
| "sys_do env (Restart n) s =
     \<lparr>s_tasks = start_tasks n, s_world = (s_world s)\<lparr>w_queue := []\<rparr>\<rparr>"

inductive sys_step :: "env \<Rightarrow> sys \<Rightarrow> sys \<Rightarrow> bool" for env where
  run: "i < length (s_tasks s) \<Longrightarrow> task_step env a (s_tasks s ! i) (s_world s) = (t, w) \<Longrightarrow>
     sys_step env s \<lparr>s_tasks = (s_tasks s)[i := t], s_world = w\<rparr>"
| request: "sys_step env s (s\<lparr>s_tasks := s_tasks s @ [I_save q b]\<rparr>)"
| tick: "sys_step env s (s\<lparr>s_world := (s_world s)\<lparr>w_now := w_now (s_world s) + int d\<rparr>\<rparr>)"
| restart: "sys_step env s \<lparr>s_tasks = start_tasks n, s_world = (s_world s)\<lparr>w_queue := []\<rparr>\<rparr>"

inductive reachable :: "env \<Rightarrow> sys \<Rightarrow> bool" for env where
  start: "reachable env (start_sys n t)"
| step: "reachable env s \<Longrightarrow> sys_step env s s' \<Longrightarrow> reachable env s'"

text \<open>Every schedule of moves is a run of the system, so it can be evaluated.\<close>

lemma sys_do_step: "sys_step env s (sys_do env m s) \<or> sys_do env m s = s"
proof (cases m)
  case (Run i a)
  show ?thesis
  proof (cases "i < length (s_tasks s)")
    case True
    obtain t w where tw: "task_step env a (s_tasks s ! i) (s_world s) = (t, w)" by fastforce
    show ?thesis using sys_step.run [OF True tw] Run True tw by simp
  qed (simp add: Run)
qed (auto intro: sys_step.intros)

lemma schedule_reachable: "reachable env s \<Longrightarrow> reachable env (fold (sys_do env) ms s)"
proof (induction ms arbitrary: s)
  case (Cons m ms)
  have "reachable env (sys_do env m s)"
    using sys_do_step [of env s m] Cons.prems by (auto intro: reachable.step)
  then show ?case by (simp add: Cons.IH)
qed simp

end
