(* ===== verification/Lifecycle_Inv.thy ===== *)
theory Lifecycle_Inv
  imports Lifecycle
begin

text \<open>
  What holds in every reachable state of the system, whatever the interleaving, the failures and the
  restarts: an invariant over the rows, the calls made and what every waiting task carries, kept by every
  stretch of every task, and the safety properties that follow from it.
\<close>

section \<open>The invariant\<close>

definition stored :: "world \<Rightarrow> nat \<Rightarrow> bool" where
  "stored w jid \<longleftrightarrow> (case row w jid of None \<Rightarrow> True | Some r \<Rightarrow> j_result r \<noteq> None)"

text \<open>Spring accepted a delivery of the job, or an analysis of it ended without a product.\<close>

definition settled :: "world \<Rightarrow> nat \<Rightarrow> bool" where
  "settled w jid \<longleftrightarrow> Sent_result jid (Inr ()) \<in> set (w_log w) \<or> Ran jid (Inr None) \<in> set (w_log w)"

definition requeue_ok :: "env \<Rightarrow> int \<Rightarrow> bool" where
  "requeue_ok env n \<longleftrightarrow> 0 \<le> n \<and> n \<le> max 0 (env_max_requeue env)"

definition row_ok :: "env \<Rightarrow> world \<Rightarrow> nat \<Rightarrow> job \<Rightarrow> bool" where
  "row_ok env w jid r \<longleftrightarrow> jid < w_next w \<and>
     (j_status r = DELIVERING \<longrightarrow> j_result r \<noteq> None) \<and>
     (\<forall>d. j_result r = Some d \<longrightarrow> (\<exists>x. d = result_fields x)) \<and>
     (j_status r = DONE \<longrightarrow> settled w jid) \<and> requeue_ok env (j_requeue r)"

text \<open>A loaded object: what it says of the result is still true of the row.\<close>

definition held_ok :: "env \<Rightarrow> world \<Rightarrow> nat \<Rightarrow> job \<Rightarrow> bool" where
  "held_ok env w jid job \<longleftrightarrow> jid < w_next w \<and> (j_result job \<noteq> None \<longrightarrow> stored w jid) \<and>
     (\<forall>d. j_result job = Some d \<longrightarrow> (\<exists>x. d = result_fields x)) \<and> requeue_ok env (j_requeue job)"

fun verdict_ok :: "world \<Rightarrow> nat \<Rightarrow> verdict \<Rightarrow> bool" where
  "verdict_ok w jid Delivered = settled w jid"
| "verdict_ok w jid (Refused r) = True"

definition to_send_ok :: "world \<Rightarrow> undelivered list \<Rightarrow> bool" where
  "to_send_ok w us \<longleftrightarrow> (\<forall>(jid, b, raw, path)\<in>set us. jid < w_next w \<and> (raw \<noteq> None \<longrightarrow> stored w jid))"

fun task_ok :: "env \<Rightarrow> world \<Rightarrow> task \<Rightarrow> bool" where
  "task_ok env w (W_restore jid job) = held_ok env w jid job"
| "task_ok env w (W_missing jid job m) = held_ok env w jid job"
| "task_ok env w (W_start jid job b) = held_ok env w jid job"
| "task_ok env w (W_run jid job b k) = (held_ok env w jid job \<and> j_status job = RUNNING)"
| "task_ok env w (W_save jid job b out) =
     (held_ok env w jid job \<and> j_status job = RUNNING \<and> (out = None \<longrightarrow> settled w jid))"
| "task_ok env w (W_fail jid loaded job b m) = (\<forall>old. loaded = Some old \<longrightarrow> held_ok env w jid old \<and> j_status old = RUNNING)"
| "task_ok env w (W_deliver jid job b r) = (jid < w_next w \<and> stored w jid)"
| "task_ok env w (W_mark jid v path) = verdict_ok w jid v"
| "task_ok env w (W_mark_commit jid job v path) =
     (held_ok env w jid job \<and> verdict_ok w jid v \<and> j_status job = DELIVERING)"
| "task_ok env w (R_commit jobs) = (\<forall>(jid, job)\<in>set jobs. held_ok env w jid job \<and> j_status job = RUNNING)"
| "task_ok env w (D_each us) = to_send_ok w us"
| "task_ok env w (D_send jid b r path us) = (jid < w_next w \<and> stored w jid \<and> to_send_ok w us)"
| "task_ok env w (D_mark jid v path us) = (verdict_ok w jid v \<and> to_send_ok w us)"
| "task_ok env w (D_mark_commit jid job v path us) =
     (held_ok env w jid job \<and> verdict_ok w jid v \<and> j_status job = DELIVERING \<and> to_send_ok w us)"
| "task_ok env w (D_discard path us) = to_send_ok w us"
| "task_ok env w _ = True"

definition world_ok :: "env \<Rightarrow> world \<Rightarrow> bool" where
  "world_ok env w \<longleftrightarrow> wf_dict (w_jobs w) \<and> (\<forall>jid r. row w jid = Some r \<longrightarrow> row_ok env w jid r) \<and>
     (\<forall>jid out. Sent_result jid out \<in> set (w_log w) \<longrightarrow> jid < w_next w \<and> stored w jid)"

definition sys_ok :: "env \<Rightarrow> sys \<Rightarrow> bool" where
  "sys_ok env s \<longleftrightarrow> world_ok env (s_world s) \<and> (\<forall>t\<in>set (s_tasks s). task_ok env (s_world s) t)"

section \<open>Worlds only grow\<close>

text \<open>What one stretch does to the world that other tasks can rely on.\<close>

definition grows :: "world \<Rightarrow> world \<Rightarrow> bool" where
  "grows w w' \<longleftrightarrow> set (w_log w) \<subseteq> set (w_log w') \<and> w_next w \<le> w_next w' \<and>
     (\<forall>jid < w_next w. stored w jid \<longrightarrow> stored w' jid)"

lemma grows_refl [simp]: "grows w w"
  by (simp add: grows_def)

lemma grows_trans: "grows u v \<Longrightarrow> grows v w \<Longrightarrow> grows u w"
  by (force simp: grows_def)

lemma grows_stored: "grows w w' \<Longrightarrow> jid < w_next w \<Longrightarrow> stored w jid \<Longrightarrow> jid < w_next w' \<and> stored w' jid"
  by (auto simp: grows_def)

lemma grows_settled: "grows w w' \<Longrightarrow> settled w jid \<Longrightarrow> settled w' jid"
  by (auto simp: grows_def settled_def)

lemma grows_held: "grows w w' \<Longrightarrow> held_ok env w jid job \<Longrightarrow> held_ok env w' jid job"
  by (auto simp: held_ok_def grows_def)

lemma grows_verdict: "grows w w' \<Longrightarrow> verdict_ok w jid v \<Longrightarrow> verdict_ok w' jid v"
  by (cases v) (auto simp: grows_settled)

lemma grows_to_send: "grows w w' \<Longrightarrow> to_send_ok w us \<Longrightarrow> to_send_ok w' us"
  by (fastforce simp: to_send_ok_def grows_def)

lemmas grows_rules = grows_stored grows_settled grows_held grows_verdict grows_to_send

lemma grows_task: "grows w w' \<Longrightarrow> task_ok env w t \<Longrightarrow> task_ok env w' t"
  by (cases t) (auto dest: grows_rules)

section \<open>The operations keep the world\<close>

definition keeps :: "env \<Rightarrow> world \<Rightarrow> world \<Rightarrow> bool" where
  "keeps env w w' \<longleftrightarrow> world_ok env w' \<and> grows w w'"

lemma keeps_trans: "keeps env u v \<Longrightarrow> keeps env v w \<Longrightarrow> keeps env u w"
  by (auto simp: keeps_def intro: grows_trans)

lemma stored_cong: "w_jobs w' = w_jobs w \<Longrightarrow> stored w' jid = stored w jid"
  by (simp add: stored_def row_def)

lemma row_ok_mono:
  "row_ok env w k r \<Longrightarrow> w_next w \<le> w_next w' \<Longrightarrow> set (w_log w) \<subseteq> set (w_log w') \<Longrightarrow> row_ok env w' k r"
  by (auto simp: row_ok_def settled_def)

lemma keepsI:
  assumes ok: "world_ok env w" and "wf_dict (w_jobs w')" and next_: "w_next w \<le> w_next w'"
    and logs: "set (w_log w) \<subseteq> set (w_log w')"
    and rows: "\<And>k r. row w' k = Some r \<Longrightarrow> row_ok env w' k r"
    and st: "\<And>k. k < w_next w \<Longrightarrow> stored w k \<Longrightarrow> stored w' k"
    and sent: "\<And>k out. Sent_result k out \<in> set (w_log w') \<Longrightarrow> Sent_result k out \<in> set (w_log w) \<or>
           k < w_next w \<and> stored w k"
  shows "keeps env w w'"
proof -
  have "k < w_next w' \<and> stored w' k" if "Sent_result k out \<in> set (w_log w')" for k out
    using sent [OF that] ok st [of k] next_ by (auto simp: world_ok_def)
  then show ?thesis using assms(2) next_ logs rows st by (simp add: keeps_def world_ok_def grows_def)
qed

lemma keeps_same_rows:
  assumes "world_ok env w" and "w_jobs w' = w_jobs w" and "w_next w' = w_next w"
    and "set (w_log w) \<subseteq> set (w_log w')"
    and "\<And>jid out. Sent_result jid out \<in> set (w_log w') \<Longrightarrow> Sent_result jid out \<in> set (w_log w) \<or>
           jid < w_next w \<and> stored w jid"
  shows "keeps env w w'"
proof (rule keepsI [OF assms(1)])
  show "row_ok env w' k r" if "row w' k = Some r" for k r
    using that assms by (intro row_ok_mono [of env w k r w']) (auto simp: world_ok_def row_def)
qed (use assms in \<open>auto simp: world_ok_def stored_cong [OF assms(2)]\<close>)

lemma keeps_refl: "world_ok env w \<Longrightarrow> keeps env w w"
  by (simp add: keeps_def)

lemma keeps_quiet:
  assumes "world_ok env w" and "w_jobs w' = w_jobs w" and "w_next w' = w_next w" and "w_log w' = w_log w"
  shows "keeps env w w'"
  by (rule keeps_same_rows) (use assms in simp_all)

lemma keeps_drop: "world_ok env w \<Longrightarrow> keeps env w (drop_signals stuck p w)"
  by (rule keeps_quiet) (simp_all add: drop_signals_def)

lemma keeps_enqueue: "world_ok env w \<Longrightarrow> keeps env w (enqueue k w)"
  by (rule keeps_quiet) (simp_all add: enqueue_def)

lemma keeps_send_failure: "world_ok env w \<Longrightarrow> keeps env w (send_failure env' reply k b m w)"
  by (rule keeps_same_rows) (auto simp: send_failure_def log_event_def)

lemma keeps_ran: "world_ok env w \<Longrightarrow> keeps env w (log_event (Ran k out) w)"
  by (rule keeps_same_rows) (auto simp: log_event_def)

lemma keeps_fields:
  assumes "world_ok env w"
  shows "keeps env w (w\<lparr>w_queue := q\<rparr>)" and "keeps env w (w\<lparr>w_now := n\<rparr>)" and "keeps env w (w\<lparr>w_files := fs\<rparr>)"
  by (rule keeps_quiet; use assms in simp)+

lemmas keeps_parts = keeps_refl keeps_drop keeps_enqueue keeps_send_failure keeps_ran keeps_fields

lemma keeps_fold_enqueue: "world_ok env w \<Longrightarrow> keeps env w (fold enqueue ks w)"
proof (induction ks arbitrary: w)
  case Nil
  then show ?case by (simp add: keeps_parts)
next
  case (Cons k ks)
  from keeps_enqueue [OF Cons.prems, of k] show ?case
    using Cons.IH [of "enqueue k w"] by (auto simp: keeps_def intro: grows_trans)
qed

lemma keeps_send_result:
  assumes "world_ok env w" and "jid < w_next w" and "stored w jid" and "send_result env' reply jid b r w = (out, w')"
  shows "keeps env w w' \<and> (out = Inr () \<longrightarrow> settled w' jid)"
proof -
  have w': "w' = log_event (Sent_result jid out) w"
    using assms(4) by (auto simp: send_result_def Let_def)
  have "keeps env w w'"
    by (rule keeps_same_rows) (use assms(1-3) w' in \<open>auto simp: log_event_def\<close>)
  then show ?thesis by (simp add: w' settled_def job_simps)
qed

lemma keeps_set_row:
  assumes ok: "world_ok env w" and r: "row w jid = Some r" and r': "row_ok env w jid r'"
    and mono: "j_result r \<noteq> None \<longrightarrow> j_result r' \<noteq> None"
  shows "keeps env w (set_row jid r' w)"
proof (rule keepsI [OF ok])
  show "row_ok env (set_row jid r' w) k x" if "row (set_row jid r' w) k = Some x" for k x
    
    by (rule row_ok_mono [of env w k x])
       (use that r' ok in \<open>auto simp: job_simps world_ok_def split: if_splits\<close>)
  show "stored (set_row jid r' w) k" if "stored w k" for k
    using that r mono by (auto simp: stored_def job_simps)
  show "wf_dict (w_jobs (set_row jid r' w))"
    using ok by (simp add: world_ok_def set_row_def wf_dset)
qed (simp_all add: job_simps)

definition good_change :: "env \<Rightarrow> world \<Rightarrow> nat \<Rightarrow> job \<Rightarrow> job \<Rightarrow> bool" where
  "good_change env w jid old new \<longleftrightarrow>
     (j_result new = j_result old \<or> (\<exists>x. j_result new = Some (result_fields x))) \<and>
     (j_status new = DELIVERING \<longrightarrow> j_status old = DELIVERING \<or> j_result new \<noteq> None) \<and>
     (j_status new = DONE \<longrightarrow> j_status old = DONE \<or> settled w jid) \<and>
     (j_requeue new = j_requeue old \<or> requeue_ok env (j_requeue new))"

lemma write_changes_result:
  assumes "row w jid = Some r" and "held_ok env w jid old" and "good_change env w jid old new"
    and "j_result r \<noteq> None \<or> j_result new \<noteq> None"
  shows "j_result (write_changes t old new r) \<noteq> None"
proof (cases "j_result new = j_result old")
  case True
  have "j_result r \<noteq> None" using assms True by (auto simp: held_ok_def stored_def)
  with True show ?thesis by (simp add: write_changes_def)
qed (use assms in \<open>auto simp: write_changes_def good_change_def\<close>)

lemma write_changes_ok:
  assumes "row_ok env w jid r" and "row w jid = Some r" and "held_ok env w jid old" and "good_change env w jid old new"
  shows "row_ok env w jid (write_changes t old new r)"
proof -
  let ?r = "write_changes t old new r"
  note res = write_changes_result [OF assms(2-4), of t]
  have "j_status ?r = DELIVERING \<longrightarrow> j_result ?r \<noteq> None"
    using res assms(1,4) by (simp add: row_ok_def good_change_def write_changes_def split: if_splits) metis
  moreover have "\<exists>x. d = result_fields x" if "j_result ?r = Some d" for d
    using that assms(1,4) by (auto simp: row_ok_def good_change_def write_changes_def split: if_splits)
  moreover have "j_status ?r = DONE \<longrightarrow> settled w jid"
    using assms(1,4) by (auto simp: row_ok_def good_change_def write_changes_def)
  moreover have "requeue_ok env (j_requeue ?r)"
    using assms(1,4) by (auto simp: row_ok_def good_change_def write_changes_def)
  ultimately show ?thesis using assms(1) by (simp add: row_ok_def)
qed

lemma keeps_commit:
  assumes "world_ok env w" and "held_ok env w jid old" and "good_change env w jid old new"
    and "commit fault jid old new w = (out, w')"
  shows "keeps env w w'" and "out = Inr u \<Longrightarrow> j_result new \<noteq> None \<Longrightarrow> stored w' jid"
proof -
  have row: "row w jid = Some r \<Longrightarrow> row_ok env w jid r" for r
    using assms(1) by (simp add: world_ok_def)
  note wr = write_changes_ok [OF row _ assms(2,3)] and res = write_changes_result [OF _ assms(2,3)]
  show "keeps env w w'"
    using commit_cases [OF assms(4)] keeps_refl [OF assms(1)] keeps_set_row [OF assms(1)] wr res by blast
  show "stored w' jid" if "out = Inr u" "j_result new \<noteq> None"
    using commit_cases [OF assms(4)] that res assms(2)
    by (auto simp: held_ok_def stored_def job_simps)
qed

lemma keeps_commit_failure:
  assumes ok: "world_ok env w" and loaded: "\<And>old. loaded = Some old \<Longrightarrow> held_ok env w jid old \<and> j_status old = RUNNING"
    and c: "commit_failure fault jid loaded msg w = (out, w')"
  shows "keeps env w w'"
proof (cases out)
  case (Inl e)
  then show ?thesis using commit_failure_Inl [of fault jid loaded msg w e w'] c keeps_refl [OF ok] by simp
next
  case (Inr u)
  then obtain r r' where "row w jid = Some r" "w' = set_row jid r' w" "j_status r' = FAILED"
    "j_result r' = j_result r" "j_requeue r' = j_requeue r"
    using commit_failure_Inr [of fault jid loaded msg w u w'] c loaded by force
  moreover have "row_ok env w jid r" using ok calculation(1) by (simp add: world_ok_def)
  ultimately show ?thesis using keeps_set_row [OF ok] by (auto simp: row_ok_def)
qed

lemma keeps_commits:
  assumes "world_ok env w" and "\<And>jid old new. (jid, old, new) \<in> set cs \<Longrightarrow> held_ok env w jid old"
    and "\<And>jid old new v. (jid, old, new) \<in> set cs \<Longrightarrow> good_change env v jid old new"
  shows "keeps env w (fold (\<lambda>(jid, old, new) w'. snd (commit None jid old new w')) cs w)"
  using assms
proof (induction cs arbitrary: w)
  case Nil
  then show ?case by (simp add: keeps_parts)
next
  case (Cons c cs)
  obtain jid old new where c: "c = (jid, old, new)" by (cases c) auto
  let ?w = "snd (commit None jid old new w)"
  have k: "keeps env w ?w"
    using Cons.prems c by (intro keeps_commit(1) [of env w jid old new None "fst (commit None jid old new w)"]) auto
  then have "keeps env ?w (fold (\<lambda>(jid, old, new) w'. snd (commit None jid old new w')) cs ?w)"
    using Cons.prems c by (intro Cons.IH) (auto simp: keeps_def intro: grows_held)
  with k show ?case by (auto simp: c intro: keeps_trans)
qed

lemma keeps_commit_all:
  assumes "world_ok env w" and "\<And>jid old new. (jid, old, new) \<in> set cs \<Longrightarrow> held_ok env w jid old"
    and "\<And>jid old new v. (jid, old, new) \<in> set cs \<Longrightarrow> good_change env v jid old new"
    and "commit_all fault cs w = (out, w')"
  shows "keeps env w w'"
  using assms(4) keeps_commits [OF assms(1-3)] keeps_refl [OF assms(1)]
  by (auto simp: commit_all_def split: option.splits if_splits)

lemma recovered_good:
  assumes "held_ok env w jid job" and "j_status job = RUNNING"
  shows "good_change env v jid job (recovered env job)"
  using assms by (auto simp: good_change_def recovered_def may_requeue_def held_ok_def requeue_ok_def)

lemma keeps_insert:
  assumes ok: "world_ok env w" and i: "insert_job fault (new_job light path t) w = (out, w')"
  shows "keeps env w w'"
proof (cases fault)
  case None
  let ?job = "new_job light path t"
  have w': "w' = w\<lparr>w_jobs := dset (w_next w) ?job (w_jobs w), w_next := Suc (w_next w)\<rparr>"
    using i None by (simp add: insert_job_def)
  have row: "row w' k = (if k = w_next w then Some ?job else row w k)" for k
    by (simp add: row_def w' dget_dset)
  have job: "row_ok env w' (w_next w) ?job"
    by (simp add: row_ok_def new_job_def requeue_ok_def w')
  show ?thesis
  proof (rule keepsI [OF ok])
    show "row_ok env w' k r" if "row w' k = Some r" for k r
    proof (cases "k = w_next w")
      case True
      with that job show ?thesis by (simp add: row)
    next
      case False
      with that have "row_ok env w k r" using ok by (simp add: row world_ok_def)
      then show ?thesis by (rule row_ok_mono) (simp_all add: w')
    qed
    show "stored w' k" if "k < w_next w" "stored w k" for k
      using that by (simp add: stored_def row)
    show "wf_dict (w_jobs w')" using ok by (simp add: w' world_ok_def wf_dset)
  qed (simp_all add: w')
qed (use i ok in \<open>auto simp: insert_job_def keeps_parts\<close>)

lemma row_filter:
  "wf_dict d \<Longrightarrow> dget (filter (\<lambda>(k, v). P v) d) k = (case dget d k of Some v \<Rightarrow> if P v then Some v else None | None \<Rightarrow> None)"
  by (induction d) (auto simp: wf_dict_def map_of_eq_None_iff split: option.splits)

lemma keeps_purge:
  assumes ok: "world_ok env w" and p: "purge_once fault retention w = (out, w')"
  shows "keeps env w w'"
proof (cases fault)
  case None
  let ?P = "\<lambda>job. \<not> purgeable (w_now w - retention) job"
  have wf: "wf_dict (w_jobs w)" using ok by (simp add: world_ok_def)
  have w': "w' = w\<lparr>w_jobs := filter (\<lambda>(jid, job). ?P job) (w_jobs w)\<rparr>"
    using p None by (simp add: purge_once_def Let_def)
  have row: "row w' k = (case row w k of Some v \<Rightarrow> if ?P v then Some v else None | None \<Rightarrow> None)" for k
    using row_filter [OF wf, of ?P k] by (simp add: row_def w')
  show ?thesis
  proof (rule keepsI [OF ok])
    show "row_ok env w' k r" if "row w' k = Some r" for k r
    proof -
      have "row w k = Some r" using that by (auto simp: row split: option.splits if_splits)
      then have "row_ok env w k r" using ok by (simp add: world_ok_def)
      then show ?thesis by (rule row_ok_mono) (simp_all add: w')
    qed
    show "stored w' k" if "stored w k" for k
      using that by (auto simp: stored_def row split: option.splits)
  qed (simp_all add: w' wf wf_dict_filter)
qed (use p ok in \<open>auto simp: purge_once_def keeps_parts\<close>)

section \<open>Every stretch keeps the invariant\<close>

definition step_ok :: "env \<Rightarrow> world \<Rightarrow> task \<times> world \<Rightarrow> bool" where
  "step_ok env w tw \<longleftrightarrow> keeps env w (snd tw) \<and> task_ok env (snd tw) (fst tw)"

lemma step_ok_pair [simp]: "step_ok env w (t, w') = (keeps env w w' \<and> task_ok env w' t)"
  by (simp add: step_ok_def)

lemma row_held: "world_ok env w \<Longrightarrow> row w jid = Some r \<Longrightarrow> held_ok env w jid r"
  by (auto simp: world_ok_def row_ok_def held_ok_def stored_def)

lemma keeps_grows: "keeps env w w' \<Longrightarrow> grows w w'"
  by (simp add: keeps_def)

lemmas kept = grows_rules [OF keeps_grows]

lemma step_ok_act:
  assumes "\<And>e w1. c = (Inl e, w1) \<Longrightarrow> step_ok env w (f e w1)" and "\<And>u w1. c = (Inr u, w1) \<Longrightarrow> step_ok env w (g u w1)"
  shows "step_ok env w (case c of (Inl e, w1) \<Rightarrow> f e w1 | (Inr u, w1) \<Rightarrow> g u w1)"
  using assms by (auto split: prod.splits sum.splits)

lemma step_ok_commit:
  assumes "world_ok env w" and "held_ok env w jid old" and "good_change env w jid old new"
    and "\<And>e w1. keeps env w w1 \<Longrightarrow> step_ok env w (f e w1)"
    and "\<And>u w1. keeps env w w1 \<Longrightarrow> (j_result new \<noteq> None \<Longrightarrow> stored w1 jid) \<Longrightarrow> step_ok env w (g u w1)"
  shows "step_ok env w (case commit fault jid old new w of (Inl e, w1) \<Rightarrow> f e w1 | (Inr u, w1) \<Rightarrow> g u w1)"
proof (rule step_ok_act)
  show "step_ok env w (f e w1)" if "commit fault jid old new w = (Inl e, w1)" for e w1
    using assms(4) keeps_commit(1) [OF assms(1-3) that] .
  show "step_ok env w (g u w1)" if "commit fault jid old new w = (Inr u, w1)" for u w1
    using assms(5) keeps_commit(1) [OF assms(1-3) that] keeps_commit(2) [OF assms(1-3) that refl] by simp
qed

lemma good_failed: "good_change env w jid old (old\<lparr>j_status := FAILED, j_error := m\<rparr>)"
  by (simp add: good_change_def)

lemma good_running: "good_change env w jid old (old\<lparr>j_status := RUNNING\<rparr>)"
  by (simp add: good_change_def)

lemma good_done: "settled w jid \<Longrightarrow> good_change env w jid old (old\<lparr>j_status := DONE, j_error := m\<rparr>)"
  by (simp add: good_change_def)

lemma good_result:
  "good_change env w jid old (old\<lparr>j_result := Some (result_fields r), j_status := DELIVERING, j_error := m\<rparr>)"
  unfolding good_change_def by (simp, rule disjI2, rule exI [of _ r], rule refl)

lemma good_verdict: "verdict_ok w jid v \<Longrightarrow> good_change env w jid old (apply_verdict v old)"
  by (cases v) (simp_all add: good_change_def)

lemmas good_changes = good_failed good_running good_done good_result good_verdict

lemma held_status: "held_ok env w jid (job\<lparr>j_status := s\<rparr>) = held_ok env w jid job"
  by (simp add: held_ok_def)

subsection \<open>The workers\<close>

lemma step_ok_idle: "world_ok env w \<Longrightarrow> step_ok env w (task_step env a W_idle w)"
  by (simp add: keeps_parts split: list.splits)

lemma step_ok_select: "world_ok env w \<Longrightarrow> step_ok env w (task_step env a (W_select jid) w)"
  by (simp add: keeps_refl row_held split: option.splits)

lemma step_ok_restore:
  "world_ok env w \<Longrightarrow> task_ok env w (W_restore jid job) \<Longrightarrow> step_ok env w (task_step env a (W_restore jid job) w)"
  by (simp add: keeps_refl split: sum.splits exc.splits)

lemma step_ok_missing:
  "world_ok env w \<Longrightarrow> task_ok env w (W_missing jid job m) \<Longrightarrow> step_ok env w (task_step env a (W_missing jid job m) w)"
  by (auto intro!: step_ok_commit good_changes split: sum.splits)

lemma step_ok_start:
  "world_ok env w \<Longrightarrow> task_ok env w (W_start jid job b) \<Longrightarrow> step_ok env w (task_step env a (W_start jid job b) w)"
  by (auto intro!: step_ok_commit good_changes simp: held_status intro: kept)

lemma step_ok_run:
  assumes w: "world_ok env w" and t: "task_ok env w (W_run jid job b k)"
  shows "step_ok env w (task_step env a (W_run jid job b k) w)"
proof -
  let ?w = "log_event (Ran jid (attempt env (a_runs a k))) w"
  have "keeps env w ?w" by (rule keeps_ran [OF w])
  then show ?thesis using t kept(3) [of env w ?w env jid job]
    by (auto simp: Let_def settled_def job_simps split: sum.splits)
qed

lemma step_ok_save:
  assumes w: "world_ok env w" and t: "task_ok env w (W_save jid job b out)"
  shows "step_ok env w (task_step env a (W_save jid job b out) w)"
proof (cases out)
  case None
  then show ?thesis using t by (auto intro!: step_ok_commit [OF w] good_changes)
next
  case (Some r)
  then show ?thesis using t
    by (auto intro!: step_ok_commit [OF w] good_changes simp: held_ok_def keeps_def grows_def)
qed

lemma step_ok_fail:
  assumes w: "world_ok env w" and t: "task_ok env w (W_fail jid loaded job b m)"
  shows "step_ok env w (task_step env a (W_fail jid loaded job b m) w)"
proof -
  have "keeps env w w1" if "commit_failure (a_fail a) jid loaded m w = (out, w1)" for out w1
    by (rule keeps_commit_failure [OF w _ that]) (use t in auto)
  then show ?thesis unfolding task_step.simps by (intro step_ok_act) auto
qed

lemma step_ok_deliver:
  assumes w: "world_ok env w" and t: "task_ok env w (W_deliver jid job b r)"
  shows "step_ok env w (task_step env a (W_deliver jid job b r) w)"
  unfolding task_step.simps using t keeps_send_result [OF w]
  by (intro step_ok_act) (auto split: exc.splits)

lemma mark_select_cases:
  "mark_select fault raised other found jid w = raised \<or> mark_select fault raised other found jid w = other \<or>
   (\<exists>job. row w jid = Some job \<and> j_status job = DELIVERING \<and> mark_select fault raised other found jid w = found job)"
  by (auto simp: mark_select_def split: option.splits)

lemma step_ok_mark:
  "world_ok env w \<Longrightarrow> task_ok env w (W_mark jid v p) \<Longrightarrow> step_ok env w (task_step env a (W_mark jid v p) w)"
  by (auto simp: keeps_refl row_held mark_select_def split: option.splits)

lemma step_ok_mark_commit:
  "world_ok env w \<Longrightarrow> task_ok env w (W_mark_commit jid job v p) \<Longrightarrow>
     step_ok env w (task_step env a (W_mark_commit jid job v p) w)"
  by (auto intro!: step_ok_commit good_changes)

lemma step_ok_ends:
  "world_ok env w \<Longrightarrow> step_ok env w (task_step env a (W_notify jid b m p) w)"
  "world_ok env w \<Longrightarrow> step_ok env w (task_step env a (W_discard p) w)"
  by (simp_all add: keeps_parts)

subsection \<open>The loops\<close>

lemma step_ok_pending: "world_ok env w \<Longrightarrow> step_ok env w (task_step env a S_pending w)"
  by (auto simp: requeue_pending_def wbind_def wmay_fail_def Let_def keeps_refl keeps_fold_enqueue split: option.splits)

lemma row_in_dict: "world_ok env w \<Longrightarrow> (jid, r) \<in> set (w_jobs w) \<Longrightarrow> row w jid = Some r"
  by (simp add: world_ok_def row_def dget_wf_iff)

lemma select_running_held:
  "world_ok env w \<Longrightarrow> (jid, job) \<in> set (select_running cutoff w) \<Longrightarrow> held_ok env w jid job \<and> j_status job = RUNNING"
  by (auto simp: select_running_def row_held [OF _ row_in_dict])

lemma step_ok_r_select: "world_ok env w \<Longrightarrow> step_ok env w (task_step env a (R_select cutoff) w)"
  by (auto simp: keeps_refl Let_def dest: select_running_held split: option.splits)

lemma step_ok_r_commit:
  assumes w: "world_ok env w" and t: "task_ok env w (R_commit jobs)"
  shows "step_ok env w (task_step env a (R_commit jobs) w)"
proof -
  have held: "held_ok env w jid old" if "(jid, old, new) \<in> set (reap_changes env jobs)" for jid old new
    using that t by (auto simp: reap_changes_def)
  have good: "good_change env v jid old new" if "(jid, old, new) \<in> set (reap_changes env jobs)" for v jid old new
    using that t by (auto simp: reap_changes_def intro!: recovered_good)
  have "keeps env w w1" if "commit_all (a_save a) (reap_changes env jobs) w = (out, w1)" for out w1
    by (rule keeps_commit_all [OF w held good that])
  then show ?thesis unfolding task_step.simps by (intro step_ok_act) simp_all
qed

lemma step_ok_r_rest:
  "world_ok env w \<Longrightarrow> step_ok env w (task_step env a (R_enqueue jobs) w)"
  "world_ok env w \<Longrightarrow> step_ok env w (task_step env a (R_send jid b p rest) w)"
  "world_ok env w \<Longrightarrow> step_ok env w (task_step env a (R_discard p rest) w)"
  "world_ok env w \<Longrightarrow> step_ok env w (task_step env a R_idle w)"
  by (simp_all add: keeps_parts keeps_fold_enqueue)

lemma step_ok_r_notify: "world_ok env w \<Longrightarrow> step_ok env w (task_step env a (R_notify us) w)"
  by (cases us) (auto simp: keeps_refl split: sum.splits)

lemma select_delivering_ok: "world_ok env w \<Longrightarrow> to_send_ok w (select_delivering cutoff w)"
  using row_held [OF _ row_in_dict, of env w] by (fastforce simp: to_send_ok_def select_delivering_def held_ok_def)

lemma step_ok_d_idle: "world_ok env w \<Longrightarrow> step_ok env w (task_step env a D_idle w)"
  by (simp add: keeps_refl select_delivering_ok split: option.splits)

lemma to_send_tl: "to_send_ok w (u # us) \<Longrightarrow> to_send_ok w us"
  by (simp add: to_send_ok_def)

lemma step_ok_d_each:
  assumes w: "world_ok env w" and t: "task_ok env w (D_each us)"
  shows "step_ok env w (task_step env a (D_each us) w)"
proof (cases us)
  case (Cons u us')
  obtain jid stored_bundle raw path where u: "u = (jid, stored_bundle, raw, path)" by (cases u) auto
  have "to_send_ok w us'" and "jid < w_next w" and "raw \<noteq> None \<longrightarrow> stored w jid"
    using t by (auto simp: Cons u to_send_ok_def)
  then show ?thesis by (auto simp: Cons u keeps_refl [OF w] split: option.splits sum.splits)
qed (simp add: keeps_refl w)

lemma step_ok_d_send:
  assumes w: "world_ok env w" and t: "task_ok env w (D_send jid b r p us)"
  shows "step_ok env w (task_step env a (D_send jid b r p us) w)"
proof -
  have "keeps env w w1 \<and> (out = Inr () \<longrightarrow> settled w1 jid) \<and> to_send_ok w1 us"
    if "send_result env (a_reply a) jid b r w = (out, w1)" for out w1
    using keeps_send_result [OF w _ _ that] t by (auto intro: kept)
  then show ?thesis unfolding task_step.simps by (intro step_ok_act) (auto split: exc.splits)
qed

lemma step_ok_d_mark:
  "world_ok env w \<Longrightarrow> task_ok env w (D_mark jid v p us) \<Longrightarrow> step_ok env w (task_step env a (D_mark jid v p us) w)"
  by (auto simp: keeps_refl row_held mark_select_def split: option.splits)

lemma step_ok_d_mark_commit:
  "world_ok env w \<Longrightarrow> task_ok env w (D_mark_commit jid job v p us) \<Longrightarrow>
     step_ok env w (task_step env a (D_mark_commit jid job v p us) w)"
  by (auto intro!: step_ok_commit good_changes intro: kept)

lemma step_ok_d_discard:
  "world_ok env w \<Longrightarrow> task_ok env w (D_discard p us) \<Longrightarrow> step_ok env w (task_step env a (D_discard p us) w)"
  using keeps_drop [of env w "a_stuck a" p] by (auto intro: kept)

lemma step_ok_c_idle: "world_ok env w \<Longrightarrow> step_ok env w (task_step env a C_idle w)"
  unfolding task_step.simps by (intro step_ok_act) (auto intro: keeps_purge)

lemma step_ok_clean:
  assumes "world_ok env w"
  shows "step_ok env w (task_step env a C_files w)" and "step_ok env w (task_step env a (C_sweep ks) w)"
  using assms by (auto simp: files_in_use_def sweep_def keeps_parts split: option.splits prod.splits)

subsection \<open>Reception\<close>

lemma step_ok_i_save: "world_ok env w \<Longrightarrow> step_ok env w (task_step env a (I_save q b) w)"
  by (auto simp: save_signals_def keeps_parts split: option.splits prod.splits)

lemma step_ok_i_insert: "world_ok env w \<Longrightarrow> step_ok env w (task_step env a (I_insert q light p) w)"
  unfolding task_step.simps using keeps_insert by (intro step_ok_act) auto

lemma step_ok_i_rest:
  "world_ok env w \<Longrightarrow> step_ok env w (task_step env a (I_refresh q jid p) w)"
  "world_ok env w \<Longrightarrow> step_ok env w (task_step env a (I_reject q p') w)"
  "world_ok env w \<Longrightarrow> step_ok env w (task_step env a I_end w)"
  by (simp_all add: keeps_parts split: option.splits)

lemmas step_ok_all =
  step_ok_idle step_ok_select step_ok_restore step_ok_missing step_ok_start step_ok_run step_ok_save step_ok_fail
  step_ok_deliver step_ok_mark step_ok_mark_commit step_ok_ends step_ok_pending step_ok_r_select step_ok_r_commit
  step_ok_r_rest step_ok_r_notify step_ok_d_idle step_ok_d_each step_ok_d_send step_ok_d_mark step_ok_d_mark_commit
  step_ok_d_discard step_ok_c_idle step_ok_clean step_ok_i_save step_ok_i_insert step_ok_i_rest

lemma task_step_ok: "world_ok env w \<Longrightarrow> task_ok env w t \<Longrightarrow> step_ok env w (task_step env a t w)"
  by (cases t; simp only: step_ok_all)

section \<open>Reachable states\<close>

lemma sys_step_ok: "sys_step env s s' \<Longrightarrow> sys_ok env s \<Longrightarrow> sys_ok env s'"
proof (induction rule: sys_step.induct)
  case (run i s a t w)
  let ?t = "s_tasks s ! i"
  have "step_ok env (s_world s) (task_step env a ?t (s_world s))"
    using run by (intro task_step_ok) (auto simp: sys_ok_def)
  with run have k: "keeps env (s_world s) w" and t: "task_ok env w t" by (simp_all add: step_ok_def)
  then show ?case using run.prems
    by (auto simp: sys_ok_def keeps_def dest!: set_update_subset_insert [THEN subsetD] intro: grows_task)
next
  case (request s q b)
  then show ?case by (simp add: sys_ok_def)
next
  case (tick s d)
  then have "keeps env (s_world s) ((s_world s)\<lparr>w_now := w_now (s_world s) + int d\<rparr>)"
    by (intro keeps_fields) (simp add: sys_ok_def)
  with tick show ?case by (auto simp: sys_ok_def keeps_def intro: grows_task)
next
  case (restart s n)
  then have "keeps env (s_world s) ((s_world s)\<lparr>w_queue := []\<rparr>)"
    by (intro keeps_fields) (simp add: sys_ok_def)
  then show ?case by (auto simp: sys_ok_def keeps_def start_tasks_def)
qed

lemma reachable_ok: "reachable env s \<Longrightarrow> sys_ok env s"
proof (induction rule: reachable.induct)
  case (start n t)
  show ?case by (auto simp: sys_ok_def world_ok_def start_sys_def start_tasks_def empty_world_def row_def)
qed (rule sys_step_ok)

end
