(* ===== verification/Job_Laws.thy ===== *)
theory Job_Laws
  imports Ingest_Api Recovery
begin

text \<open>
  What the undisturbed operations on jobs achieve: the outcome of a worker's turn on every branch against a
  short specification, the composition with reception, and one iteration of the reaper, the reconciler and
  the cleaner.
\<close>

section \<open>An accepted job\<close>

definition no_faults :: "answers \<Rightarrow> bool" where
  "no_faults a \<longleftrightarrow> a_select a = None \<and> a_start a = None \<and> a_save a = None \<and> a_fail a = None \<and>
     a_mark_select a = None \<and> a_mark a = None"

definition sample_reception :: reception where
  "sample_reception = \<lparr>in_hex = lit ''ab12'', in_disk = None, in_commit = None, in_refresh = None, in_stuck = {}\<rparr>"

definition sample_answers :: answers where
  "sample_answers =
     \<lparr>a_select = None, a_start = None, a_runs = (\<lambda>_. Inr (Some (Raw_dict (result_fields sample_result)))),
      a_save = None, a_fail = None, a_reply = Inr (200, []), a_mark_select = None, a_mark = None,
      a_notify = Inr (200, []), a_stuck = {}\<rparr>"

definition sample_loop :: loop_answers where
  "sample_loop =
     \<lparr>l_select = None, l_commit = None, l_reply = (\<lambda>_. Inr (200, [])), l_mark_select = (\<lambda>_. None), l_mark = (\<lambda>_. None),
      l_stuck = {}\<rparr>"

definition sample_world :: world where
  "sample_world = snd (ingest sample_reception sample_bundle (empty_world 0))"

definition sample_job :: job where
  "sample_job = new_job (light_of (bundle_fields id sample_bundle)) (final_name (lit ''ab12'')) 0"

lemma sample_hex: "hex_name (lit ''ab12'')"
  by (simp add: hex_name_def)

lemma sample_accepted: "ingest sample_reception sample_bundle (empty_world 0) = (Inr 1, sample_world)"
proof -
  have "fst (ingest sample_reception sample_bundle (empty_world 0)) = Inr 1" by code_simp
  then show ?thesis by (simp add: sample_world_def prod_eq_iff)
qed

lemma sample_row: "row sample_world 1 = Some sample_job"
  using ingest_accepted [OF sample_accepted] by (simp add: sample_job_def sample_reception_def empty_world_def)

lemma sample_restore: "restore_bundle (env_lax sample_env) (w_files sample_world) (j_bundle sample_job) (j_signals sample_job) = Inr sample_bundle"
  using ingest_restorable [OF sample_accepted wf_sample_bundle, of "env_lax sample_env"] sample_row
  by (simp add: sample_reception_def hex_name_def)

lemma sample_no_faults: "no_faults sample_answers"
  by (simp add: no_faults_def sample_answers_def)

lemma sample_job_parts: "j_status sample_job = PENDING" "j_signals sample_job = Some (final_name (lit ''ab12''))"
  by (simp_all add: sample_job_def new_job_def)

section \<open>Outcome of one turn\<close>

text \<open>The specification: the analysis is what the first attempt gives, or the second when it failed; the
  status follows from it and from Spring's reply.\<close>

definition analysis :: "env \<Rightarrow> answers \<Rightarrow> rca_result option res" where
  "analysis env a = (case attempt env (a_runs a 1) of Inr x \<Rightarrow> Inr x | Inl e \<Rightarrow> attempt env (a_runs a 2))"

definition final_status :: "env \<Rightarrow> answers \<Rightarrow> ingest_bundle \<Rightarrow> status" where
  "final_status env a b =
     (case analysis env a of
        Inl e \<Rightarrow> FAILED
      | Inr None \<Rightarrow> DONE
      | Inr (Some r) \<Rightarrow>
          (case save_result env (a_reply a) b r of
             Inr u \<Rightarrow> DONE
           | Inl e \<Rightarrow> (case e of DeliveryPermanentError code body \<Rightarrow> FAILED | _ \<Rightarrow> DELIVERING)))"

definition runs_of :: "env \<Rightarrow> answers \<Rightarrow> nat \<Rightarrow> event list" where
  "runs_of env a jid =
     (case attempt env (a_runs a 1) of
        Inr x \<Rightarrow> [Ran jid (Inr x)]
      | Inl e \<Rightarrow> [Ran jid (Inl e), Ran jid (attempt env (a_runs a 2))])"

lemma run_rca_analysis:
  "run_rca env (a_runs a) jid w = (analysis env a, w\<lparr>w_log := w_log w @ runs_of env a jid\<rparr>)"
  by (simp add: run_rca_def analysis_def runs_of_def log_event_def Let_def split: sum.splits)

text \<open>The calls of one turn.\<close>

definition calls_of :: "env \<Rightarrow> answers \<Rightarrow> nat \<Rightarrow> ingest_bundle \<Rightarrow> event list" where
  "calls_of env a jid b =
     runs_of env a jid @
     (case analysis env a of
        Inl e \<Rightarrow> [Sent_failure jid (exc_text (env_text env) e) (save_failure env (a_notify a) b (exc_text (env_text env) e))]
      | Inr None \<Rightarrow> []
      | Inr (Some r) \<Rightarrow> [Sent_result jid (save_result env (a_reply a) b r)])"

text \<open>Only the row \<open>jid\<close> differs, and it has status \<open>s\<close>.\<close>

definition progressed :: "nat \<Rightarrow> world \<Rightarrow> status \<Rightarrow> world \<Rightarrow> bool" where
  "progressed jid w s w' \<longleftrightarrow>
     (\<forall>k. k \<noteq> jid \<longrightarrow> row w' k = row w k) \<and> w_next w' = w_next w \<and> w_queue w' = w_queue w \<and>
     (\<exists>r r'. row w jid = Some r \<and> row w' jid = Some r' \<and> j_status r' = s \<and> j_requeue r' = j_requeue r \<and>
             j_bundle r' = j_bundle r \<and> j_signals r' = j_signals r)"

lemma progressed_others [job_simps]:
  "progressed jid w s (log_event e w') = progressed jid w s w'"
  "progressed jid w s (drop_signals stuck p w') = progressed jid w s w'"
  "progressed jid w s (w'\<lparr>w_log := l\<rparr>) = progressed jid w s w'"
  "progressed jid w s (w'\<lparr>w_files := fs\<rparr>) = progressed jid w s w'"
  by (simp_all add: progressed_def job_simps) (simp_all add: row_def)

lemma commit_progress:
  assumes "progressed jid w0 s w" and "j_status new \<noteq> j_status old" and "j_requeue new = j_requeue old"
  obtains w' where "commit None jid old new w = (Inr (), w')" and "progressed jid w0 (j_status new) w'"
    and "w_files w' = w_files w" and "w_log w' = w_log w"
proof -
  from assms(1) obtain r where r: "row w jid = Some r" by (auto simp: progressed_def)
  have "new \<noteq> old" using assms(2) by auto
  with r have "commit None jid old new w = (Inr (), set_row jid (write_changes (w_now w) old new r) w)"
    by (simp add: commit_def)
  moreover have "progressed jid w0 (j_status new) (set_row jid (write_changes (w_now w) old new r) w)"
    using assms r by (auto simp: progressed_def job_simps write_changes_def)
  ultimately show ?thesis by (rule that) (simp_all add: job_simps)
qed

lemma deliver_outcome:
  assumes "progressed jid w0 DELIVERING w" and "no_faults a"
  shows "\<exists>w' final. deliver_and_finalize env a jid b r w = (Inr final, w') \<and>
    final = (case save_result env (a_reply a) b r of
               Inl (DeliveryPermanentError code body) \<Rightarrow> True | Inl e \<Rightarrow> False | Inr u \<Rightarrow> True) \<and>
    progressed jid w0 (case save_result env (a_reply a) b r of
               Inl (DeliveryPermanentError code body) \<Rightarrow> FAILED | Inl e \<Rightarrow> DELIVERING | Inr u \<Rightarrow> DONE) w' \<and>
    w_files w' = w_files w \<and> w_log w' = w_log w @ [Sent_result jid (save_result env (a_reply a) b r)]"
proof -
  let ?out = "save_result env (a_reply a) b r"
  let ?w = "log_event (Sent_result jid ?out) w"
  have p: "progressed jid w0 DELIVERING ?w" using assms(1) by (simp add: job_simps)
  obtain row' where r: "row ?w jid = Some row'" "j_status row' = DELIVERING"
    using p by (auto simp: progressed_def)
  have mark: "\<exists>w'. commit None jid row' (row'\<lparr>j_status := x, j_error := m\<rparr>) ?w = (Inr (), w') \<and> progressed jid w0 x w' \<and>
      w_files w' = w_files w \<and> w_log w' = w_log ?w" if "x \<noteq> DELIVERING" for x m
    using commit_progress [OF p, of "row'\<lparr>j_status := x, j_error := m\<rparr>" row'] that r by (force simp: job_simps)
  have mark': "\<exists>w'. commit None jid row' (row'\<lparr>j_status := DONE\<rparr>) ?w = (Inr (), w') \<and> progressed jid w0 DONE w' \<and>
      w_files w' = w_files w \<and> w_log w' = w_log ?w"
    using commit_progress [OF p, of "row'\<lparr>j_status := DONE\<rparr>" row'] r by (force simp: job_simps)
  note defs = deliver_and_finalize_def send_result_def Let_def mark_failed_def mark_done_def wbind_def wret_def
    wmay_fail_def
  show ?thesis
  proof (cases ?out)
    case (Inr u)
    with mark' assms(2) r show ?thesis by (auto simp: defs no_faults_def job_simps)
  next
    case (Inl e)
    then show ?thesis using mark [of FAILED "Some (exc_text (env_text env) e)"] assms(2) r p by (cases e) (auto simp: defs no_faults_def job_simps)
  qed
qed

lemma failure_outcome:
  assumes "progressed jid w0 RUNNING w" and "no_faults a"
    and "\<And>old. loaded = Some old \<Longrightarrow> j_status old \<noteq> FAILED"
  shows "\<exists>w'. commit_failure (a_fail a) jid loaded m w = (Inr (), w') \<and> progressed jid w0 FAILED w' \<and>
    w_files w' = w_files w \<and> w_log w' = w_log w"
proof (cases loaded)
  case (Some old)
  let ?new = "old\<lparr>j_status := FAILED, j_error := Some m\<rparr>"
  obtain w' where "commit None jid old ?new w = (Inr (), w')" "progressed jid w0 (j_status ?new) w'"
    "w_files w' = w_files w" "w_log w' = w_log w"
    using commit_progress [OF assms(1), of ?new old] assms(3) [OF Some] by auto
  then show ?thesis using Some assms(2) by (simp add: commit_failure_def no_faults_def)
next
  case None
  from assms(1) obtain r where "row w jid = Some r" by (auto simp: progressed_def)
  then show ?thesis using None assms(1,2)
    by (auto simp: commit_failure_def no_faults_def progressed_def job_simps)
qed

lemma analyse_outcome:
  assumes p: "progressed jid w0 RUNNING w" and ok: "no_faults a" and run: "j_status job = RUNNING"
  shows "\<exists>w'. analyse env a jid job w =
      (Inr (case analysis env a of Inl e \<Rightarrow> Failure (exc_text (env_text env) e)
              | Inr None \<Rightarrow> Nothing_to_send | Inr (Some r) \<Rightarrow> Deliver r), w') \<and>
    progressed jid w0 (case analysis env a of Inl e \<Rightarrow> FAILED | Inr None \<Rightarrow> DONE | Inr (Some r) \<Rightarrow> DELIVERING) w' \<and>
    w_files w' = w_files w \<and> w_log w' = w_log w @ runs_of env a jid"
proof -
  let ?w = "w\<lparr>w_log := w_log w @ runs_of env a jid\<rparr>"
  have p': "progressed jid w0 RUNNING ?w" using p by (simp add: job_simps)
  note defs = analyse_def run_rca_analysis Let_def
  consider (err) e where "analysis env a = Inl e" | (none) "analysis env a = Inr None"
    | (some) r where "analysis env a = Inr (Some r)"
    by (metis not_None_eq sum.exhaust)
  then show ?thesis
  proof cases
    case err
    then show ?thesis using failure_outcome [OF p' ok, of "Some job" "exc_text (env_text env) e"] run
      by (auto simp: defs wbind_def wret_def)
  next
    case none
    obtain w' where "commit None jid job (job\<lparr>j_status := DONE, j_error := None\<rparr>) ?w = (Inr (), w')"
      "progressed jid w0 (j_status (job\<lparr>j_status := DONE, j_error := None\<rparr>)) w'" "w_files w' = w_files ?w"
      "w_log w' = w_log ?w"
      by (rule commit_progress [OF p', of "job\<lparr>j_status := DONE, j_error := None\<rparr>" job]) (use run in auto)
    with none ok show ?thesis by (simp add: defs no_faults_def)
  next
    case some
    let ?new = "job\<lparr>j_result := Some (result_fields r), j_status := DELIVERING, j_error := None\<rparr>"
    obtain w' where "commit None jid job ?new ?w = (Inr (), w')" "progressed jid w0 (j_status ?new) w'"
      "w_files w' = w_files ?w" "w_log w' = w_log ?w"
      by (rule commit_progress [OF p', of ?new job]) (use run in auto)
    with some ok show ?thesis by (simp add: defs no_faults_def)
  qed
qed

definition to_send :: "env \<Rightarrow> answers \<Rightarrow> outcome" where
  "to_send env a =
     (case analysis env a of
        Inl e \<Rightarrow> Failure (exc_text (env_text env) e)
      | Inr None \<Rightarrow> Nothing_to_send
      | Inr (Some r) \<Rightarrow> Deliver r)"

definition saved_status :: "env \<Rightarrow> answers \<Rightarrow> status" where
  "saved_status env a = (case analysis env a of Inl e \<Rightarrow> FAILED | Inr None \<Rightarrow> DONE | Inr (Some r) \<Rightarrow> DELIVERING)"

lemma after_outcome:
  assumes p: "progressed jid w0 (saved_status env a) w" and ok: "no_faults a" and l: "w_log w = l @ runs_of env a jid"
  shows "\<exists>w'. after_session env a jid job b (to_send env a) w = (Inr (), w') \<and>
    progressed jid w0 (final_status env a b) w' \<and> w_log w' = l @ calls_of env a jid b \<and>
    w_files w' = (if final_status env a b = DELIVERING then w_files w
                  else discard (a_stuck a) (j_signals job) (w_files w))"
proof -
  note defs = after_session_def to_send_def saved_status_def final_status_def calls_of_def wbind_def wdo_def wret_def
  consider (err) e where "analysis env a = Inl e" | (none) "analysis env a = Inr None"
    | (some) r where "analysis env a = Inr (Some r)"
    by (metis not_None_eq sum.exhaust)
  then show ?thesis
  proof cases
    case err
    then show ?thesis using p l by (simp add: defs deliver_failure_def send_failure_def drop_signals_def log_event_def job_simps)
  next
    case none
    then show ?thesis using p l by (simp add: defs drop_signals_def job_simps)
  next
    case some
    then have "progressed jid w0 DELIVERING w" using p by (simp add: saved_status_def)
    from deliver_outcome [OF this ok, of env b r] some l show ?thesis
      by (auto simp: defs drop_signals_def job_simps split: sum.splits exc.splits)
  qed
qed

lemma process_outcome:
  assumes ok: "no_faults a" and row: "row w jid = Some job" and idle: "j_status job \<noteq> RUNNING"
    and b: "restore_bundle (env_lax env) (w_files w) (j_bundle job) (j_signals job) = Inr b"
  shows "\<exists>w'. process env a jid w = (Inr (), w') \<and> progressed jid w (final_status env a b) w' \<and>
    w_log w' = w_log w @ calls_of env a jid b \<and>
    w_files w' = (if final_status env a b = DELIVERING then w_files w
                  else discard (a_stuck a) (j_signals job) (w_files w))"
proof -
  have p0: "progressed jid w (j_status job) w" using row by (simp add: progressed_def)
  let ?run = "job\<lparr>j_status := RUNNING\<rparr>"
  obtain w1 where c1: "commit None jid job ?run w = (Inr (), w1)" and p1: "progressed jid w (j_status ?run) w1"
    and f1: "w_files w1 = w_files w" "w_log w1 = w_log w"
    by (rule commit_progress [OF p0, of ?run job]) (use idle in auto)
  obtain w2 where c2: "analyse env a jid ?run w1 = (Inr (to_send env a), w2)"
    and p2: "progressed jid w (saved_status env a) w2"
    and f2: "w_files w2 = w_files w1" "w_log w2 = w_log w1 @ runs_of env a jid"
    using analyse_outcome [of jid w w1 a ?run env] p1 ok by (auto simp: to_send_def saved_status_def)
  have proc: "process env a jid w = after_session env a jid job b (to_send env a) w2"
    using ok row b c1 c2 by (simp add: process_def wbind_def wmay_fail_def no_faults_def)
  show ?thesis using after_outcome [OF p2 ok, of "w_log w" job b] by (simp only: proc f1 f2)
qed

text \<open>C6. A turn of the worker meets its specification when the database answers: the row ends in
  \<open>final_status\<close> (FAILED after two failed attempts, DONE without a product or once Spring accepts, FAILED when
  it refuses, DELIVERING when it must be sent again), no other row changes, the calls made are \<open>calls_of\<close>, and
  the signal file is kept exactly while the job is DELIVERING.\<close>

theorem worker_turn_outcome:
  assumes ok: "no_faults a" and row: "row w jid = Some job" and idle: "j_status job \<noteq> RUNNING"
    and b: "restore_bundle (env_lax env) (w_files w) (j_bundle job) (j_signals job) = Inr b"
  shows "\<exists>w'. process env a jid w = (Inr (), w') \<and> progressed jid w (final_status env a b) w' \<and>
    w_log w' = w_log w @ calls_of env a jid b \<and>
    w_files w' = (if final_status env a b = DELIVERING then w_files w
                  else discard (a_stuck a) (j_signals job) (w_files w))"
  by (rule process_outcome [OF assms])

theorem worker_turn_outcome_witness:
  "\<exists>w'. process sample_env sample_answers 1 sample_world = (Inr (), w') \<and>
     progressed 1 sample_world (final_status sample_env sample_answers sample_bundle) w'"
  using worker_turn_outcome [OF sample_no_faults sample_row _ sample_restore] sample_job_parts by auto

text \<open>C16. A job whose signal file is gone fails at once: without an analysis it becomes FAILED, the failure is
  sent with the light bundle, and what is left of the file is removed.\<close>

theorem missing_signals_fail_job:
  assumes ok: "no_faults a" and row: "row w jid = Some job" and live: "j_status job \<noteq> FAILED"
    and b: "restore_bundle (env_lax env) (w_files w) (j_bundle job) (j_signals job) = Inl (SignalsMissing m)"
    and light: "model_validate (env_lax env) (j_bundle job) = Inr light"
  shows "\<exists>w'. process env a jid w = (Inr (), w') \<and> progressed jid w FAILED w' \<and>
    w_log w' = w_log w @ [Sent_failure jid m (save_failure env (a_notify a) light m)] \<and>
    w_files w' = discard (a_stuck a) (j_signals job) (w_files w)"
proof -
  have p0: "progressed jid w (j_status job) w" using row by (simp add: progressed_def)
  let ?new = "job\<lparr>j_status := FAILED, j_error := Some m\<rparr>"
  obtain w1 where "commit None jid job ?new w = (Inr (), w1)" "progressed jid w (j_status ?new) w1"
    "w_files w1 = w_files w" "w_log w1 = w_log w"
    by (rule commit_progress [OF p0, of ?new job]) (use live in auto)
  then show ?thesis using ok row b light
    by (simp add: process_def signals_missing_def deliver_failure_def wbind_def wdo_def wmay_fail_def no_faults_def
        send_failure_def drop_signals_def log_event_def job_simps)
qed

theorem missing_signals_fail_job_witness:
  "\<exists>w'. process sample_env sample_answers 1 (sample_world\<lparr>w_files := []\<rparr>) = (Inr (), w') \<and>
     progressed 1 (sample_world\<lparr>w_files := []\<rparr>) FAILED w'"
proof -
  let ?w = "sample_world\<lparr>w_files := []\<rparr>"
  have row: "row ?w 1 = Some sample_job" using sample_row by (simp add: row_def)
  have gone: "restore_bundle (env_lax sample_env) (w_files ?w) (j_bundle sample_job) (j_signals sample_job) =
      Inl (SignalsMissing (missing_text @ final_name (lit ''ab12'')))"
    using final_name_file [of "lit ''ab12''"] sample_hex
    by (simp add: restore_bundle_def read_sync_def sample_job_parts is_file_name_def res_simps del: lit_simps)
  have "case model_validate (env_lax sample_env) (j_bundle sample_job) of Inr b \<Rightarrow> True | Inl e \<Rightarrow> False"
    by code_simp
  then obtain b where "model_validate (env_lax sample_env) (j_bundle sample_job) = Inr b"
    by (auto split: sum.splits)
  from missing_signals_fail_job [OF sample_no_faults row _ gone this] sample_job_parts show ?thesis by auto
qed

text \<open>Reception composed with the worker: a well-formed bundle that was accepted is the bundle the worker
  restores, analyses and sends, whatever other jobs there are.\<close>

theorem accepted_bundle_is_processed:
  assumes i: "ingest q b w = (Inr jid, w1)" and wf: "wf_bundle b" and hex: "hex_name (in_hex q)" and ok: "no_faults a"
  shows "\<exists>w2. process env a jid w1 = (Inr (), w2) \<and> progressed jid w1 (final_status env a b) w2 \<and>
    w_log w2 = w_log w @ calls_of env a jid b"
proof -
  obtain job where "row w1 jid = Some job" "j_status job = PENDING"
    "restore_bundle (env_lax env) (w_files w1) (j_bundle job) (j_signals job) = Inr b"
    using ingest_restorable [OF i wf hex, of "env_lax env"] by blast
  then show ?thesis using process_outcome [OF ok, of w1 jid job env b] ingest_accepted [OF i] by auto
qed

theorem accepted_bundle_is_processed_witness:
  "\<exists>w2. process sample_env sample_answers 1 sample_world = (Inr (), w2) \<and>
     w_log w2 = calls_of sample_env sample_answers 1 sample_bundle"
  using accepted_bundle_is_processed [OF sample_accepted wf_sample_bundle _ sample_no_faults, of sample_env]
  by (auto simp: sample_reception_def hex_name_def empty_world_def)



text \<open>When only the read-back after the commit fails, the sender gets 503 but the job stays: PENDING, not
  queued, its file discarded.\<close>

theorem refused_after_commit_leaves_job:
  assumes "in_disk q = None" and "in_commit q = None" and "in_refresh q = Some e"
  shows "\<exists>w' job. ingest q b w = (Inl not_persisted, w') \<and> row w' (w_next w) = Some job \<and> j_status job = PENDING \<and>
    w_queue w' = w_queue w \<and> w_files w' = discard (in_stuck q) (Some (final_name (in_hex q))) (store_save (w_now w) (in_hex q) b (w_files w))"
  using assms
  by (auto simp: ingest_def save_signals_def insert_job_def reject_def new_job_def row_def dget_dset drop_signals_def
      store_save_def split_and_save_def write_sync_def id_def split: prod.splits)

theorem refused_after_commit_leaves_job_witness:
  "\<exists>w' job. ingest (sample_reception\<lparr>in_refresh := Some OSError\<rparr>) sample_bundle (empty_world 0) = (Inl not_persisted, w') \<and>
     row w' 1 = Some job \<and> j_status job = PENDING"
  using refused_after_commit_leaves_job [of "sample_reception\<lparr>in_refresh := Some OSError\<rparr>" OSError sample_bundle "empty_world 0"]
  by (auto simp: sample_reception_def empty_world_def)

section \<open>The loops\<close>

lemma fold_commits_row:
  assumes "distinct (map fst cs)" and "\<And>jid old new. (jid, old, new) \<in> set cs \<Longrightarrow> row w jid = Some old \<and> new \<noteq> old"
  shows "row (fold (\<lambda>(jid, old, new) w'. snd (commit None jid old new w')) cs w) k =
    (case map_of cs k of None \<Rightarrow> row w k | Some (old, new) \<Rightarrow> Some (write_changes (w_now w) old new old))"
  using assms
proof (induction cs arbitrary: w)
  case (Cons c cs)
  obtain jid old new where c: "c = (jid, old, new)" by (cases c) auto
  have r: "row w jid = Some old" "new \<noteq> old" using Cons.prems c by auto
  let ?w = "set_row jid (write_changes (w_now w) old new old) w"
  have one: "snd (commit None jid old new w) = ?w" using r by (simp add: commit_def)
  have fresh: "map_of cs jid = None" using Cons.prems(1) c by (auto simp: map_of_eq_None_iff)
  have "row (fold (\<lambda>(jid, old, new) w'. snd (commit None jid old new w')) cs ?w) k =
      (case map_of cs k of None \<Rightarrow> row ?w k | Some (old, new) \<Rightarrow> Some (write_changes (w_now ?w) old new old))"
    using Cons.prems c by (intro Cons.IH) (force simp: job_simps)+
  then show ?case using c fresh by (auto simp: one job_simps split: option.splits)
qed simp

lemma fold_commits_queue:
  "w_queue (fold (\<lambda>(jid, old, new) w'. snd (commit None jid old new w')) cs w) = w_queue w"
proof (induction cs arbitrary: w)
  case (Cons c cs)
  obtain jid old new where c: "c = (jid, old, new)" by (cases c) auto
  have "w_queue (snd (commit None jid old new w)) = w_queue w"
    by (simp add: commit_def job_simps split: option.split)
  then show ?case using Cons.IH c by simp
qed simp

lemma fold_enqueue_parts: "w_queue (fold enqueue ks w) = w_queue w @ ks \<and> row (fold enqueue ks w) k = row w k"
  by (induction ks arbitrary: w) (simp_all add: job_simps)

definition stuck_at :: "int option \<Rightarrow> job \<Rightarrow> bool" where
  "stuck_at cutoff job \<longleftrightarrow> j_status job = RUNNING \<and> (case cutoff of None \<Rightarrow> True | Some c \<Rightarrow> j_updated job < c)"

definition reaped :: "env \<Rightarrow> int \<Rightarrow> job \<Rightarrow> job" where
  "reaped env now job = (recovered env job)\<lparr>j_updated := now\<rparr>"

lemma map_of_select:
  assumes "wf_dict d"
  shows "map_of (filter (\<lambda>(k, v). P v) d) k = (case map_of d k of None \<Rightarrow> None | Some v \<Rightarrow> if P v then Some v else None)"
  using assms by (induction d) (auto simp: wf_dict_def map_of_eq_None_iff split: option.splits)

lemma notify_all_rows: "row (notify_all env l us w) k = row w k \<and> w_queue (notify_all env l us w) = w_queue w"
  by (induction env l us w rule: notify_all.induct)
     (auto simp: job_simps notify_failure_def send_failure_def split: sum.splits)

lemma recovered_neq: "j_status job = RUNNING \<Longrightarrow> recovered env job \<noteq> job"
  by (rule ccontr) (auto simp: recovered_def dest!: arg_cong [of _ _ j_status] split: if_splits)

lemma reaped_write: "write_changes now job (recovered env job) job = reaped env now job"
  by (cases job) (simp add: write_changes_def reaped_def recovered_def)

lemma commit_reaped:
  assumes wf: "wf_dict (w_jobs w)" and jobs: "jobs = select_running cutoff w"
  shows "\<exists>w'. commit_all None (reap_changes env jobs) w = (Inr (), w') \<and> w_queue w' = w_queue w \<and>
    (\<forall>k. row w' k = map_option (\<lambda>job. if stuck_at cutoff job then reaped env (w_now w) job else job) (row w k))"
proof -
  let ?cs = "reap_changes env jobs"
  have sel: "jobs = filter (\<lambda>(jid, job). stuck_at cutoff job) (w_jobs w)"
    by (simp add: jobs select_running_def stuck_at_def)
  have "distinct (map fst jobs)" using wf_dict_filter [OF wf] by (simp add: sel wf_dict_def)
  then have dist: "distinct (map fst ?cs)" by (simp add: reap_changes_def comp_def case_prod_beta)
  have mem: "row w jid = Some old \<and> new \<noteq> old" if "(jid, old, new) \<in> set ?cs" for jid old new
    using that wf by (auto simp: reap_changes_def sel stuck_at_def row_def dget_wf_iff recovered_neq)
  have all: "list_all (\<lambda>(jid, old, new). row w jid \<noteq> None) ?cs" using mem by (auto simp: list_all_iff)
  have look: "map_of ?cs k = map_option (\<lambda>job. (job, recovered env job)) (map_of jobs k)" for k
    by (induction jobs) (auto simp: reap_changes_def)
  let ?w = "fold (\<lambda>(jid, old, new) w'. snd (commit None jid old new w')) ?cs w"
  have "row ?w k = map_option (\<lambda>job. if stuck_at cutoff job then reaped env (w_now w) job else job) (row w k)" for k
  proof -
    have "map_of jobs k = (case row w k of None \<Rightarrow> None | Some job \<Rightarrow> if stuck_at cutoff job then Some job else None)"
      unfolding sel row_def by (rule map_of_select [OF wf])
    with fold_commits_row [OF dist mem, of k] show ?thesis
      by (simp add: look reaped_write split: option.splits)
  qed
  then show ?thesis using all fold_commits_queue [of ?cs w] by (simp add: commit_all_def)
qed

lemma reap_once_jobs:
  assumes wf: "wf_dict (w_jobs w)" and ok: "l_select l = None" "l_commit l = None"
    and jobs: "jobs = select_running (Some (w_now w - env_stuck_after env)) w"
  shows "\<exists>w'. reap_once env l w = (Inr (length (to_enqueue env jobs), length (to_fail env jobs)), w') \<and>
    w_queue w' = w_queue w @ to_enqueue env jobs \<and>
    (\<forall>k. row w' k = map_option (\<lambda>job. if stuck_at (Some (w_now w - env_stuck_after env)) job
                                     then reaped env (w_now w) job else job) (row w k))"
proof (cases "jobs = []")
  case True
  have none: "\<not> stuck_at (Some (w_now w - env_stuck_after env)) job" if "row w k = Some job" for k job
    using True that dget_wf_iff [OF wf, of k job]
    by (auto simp: jobs select_running_def stuck_at_def row_def filter_empty_conv)
  then have "row w k = map_option (\<lambda>job. if stuck_at (Some (w_now w - env_stuck_after env)) job
                                     then reaped env (w_now w) job else job) (row w k)" for k
    by (cases "row w k") auto
  then show ?thesis using True ok jobs
    by (simp add: reap_once_def recover_running_def wbind_def wmay_fail_def wdo_def wret_def Let_def to_enqueue_def to_fail_def)
next
  case False
  obtain w1 where w1: "commit_all None (reap_changes env jobs) w = (Inr (), w1)" "w_queue w1 = w_queue w"
    "\<And>k. row w1 k = map_option (\<lambda>job. if stuck_at (Some (w_now w - env_stuck_after env)) job
                                     then reaped env (w_now w) job else job) (row w k)"
    using commit_reaped [OF wf jobs] by blast
  then show ?thesis using False ok jobs
    by (simp add: reap_once_def recover_running_def wbind_def wmay_fail_def wdo_def wret_def Let_def
        notify_all_rows fold_enqueue_parts)
qed

lemma reaped_jobs:
  "to_enqueue env (select_running limit w) =
     map fst (filter (\<lambda>(jid, job). stuck_at limit job \<and> j_requeue job < env_max_requeue env) (w_jobs w))"
  "length (to_fail env (select_running limit w)) =
     length (filter (\<lambda>(jid, job). stuck_at limit job \<and> env_max_requeue env \<le> j_requeue job) (w_jobs w))"
  by (simp_all add: to_enqueue_def to_fail_def select_running_def stuck_at_def may_requeue_def case_prod_beta'
      not_less conj_commute)

text \<open>C11. One pass of the reaper: every job RUNNING for longer than the limit, and no other, goes back to PENDING
  with its count raised and into the queue while it has a requeue left, or to FAILED when it has none; only the
  former are queued, in the order of the table, and the numbers reported are those.\<close>

theorem reap_once_exact:
  fixes w :: world
  assumes wf: "wf_dict (w_jobs w)" and ok: "l_select l = None" "l_commit l = None"
    and limit: "limit = Some (w_now w - env_stuck_after env)"
  shows "\<exists>w'. reap_once env l w =
      (Inr (length (filter (\<lambda>(jid, job). stuck_at limit job \<and> j_requeue job < env_max_requeue env) (w_jobs w)),
            length (filter (\<lambda>(jid, job). stuck_at limit job \<and> env_max_requeue env \<le> j_requeue job) (w_jobs w))), w') \<and>
    w_queue w' = w_queue w @
      map fst (filter (\<lambda>(jid, job). stuck_at limit job \<and> j_requeue job < env_max_requeue env) (w_jobs w)) \<and>
    (\<forall>k. row w' k = map_option (\<lambda>job. if stuck_at limit job then reaped env (w_now w) job else job) (row w k))"
  using reap_once_jobs [OF wf ok refl, of env]
  by (simp add: limit reaped_jobs)

theorem reap_once_exact_witness:
  "\<exists>w'. reap_once sample_env sample_loop ((set_row 1 (sample_job\<lparr>j_status := RUNNING\<rparr>) sample_world)\<lparr>w_now := 1501\<rparr>) =
       (Inr (1, 0), w') \<and> w_queue w' = [1, 1]"
proof -
  let ?w = "(set_row 1 (sample_job\<lparr>j_status := RUNNING\<rparr>) sample_world)\<lparr>w_now := 1501\<rparr>"
  let ?limit = "Some (w_now ?w - env_stuck_after sample_env)"
  let ?again = "filter (\<lambda>(jid, job). stuck_at ?limit job \<and> j_requeue job < env_max_requeue sample_env) (w_jobs ?w)"
  let ?over = "filter (\<lambda>(jid, job). stuck_at ?limit job \<and> env_max_requeue sample_env \<le> j_requeue job) (w_jobs ?w)"
  have wf: "wf_dict (w_jobs ?w)" and "l_select sample_loop = None" and "l_commit sample_loop = None"
    by code_simp+
  then obtain w' where w': "reap_once sample_env sample_loop ?w = (Inr (length ?again, length ?over), w')"
    "w_queue w' = w_queue ?w @ map fst ?again"
    using reap_once_exact [of ?w sample_loop ?limit sample_env] by blast
  have e: "map fst ?again = [1]" and l: "length ?again = 1" and f: "length ?over = 0" and q: "w_queue ?w = [1]"
    by code_simp+
  show ?thesis using w' unfolding e l f q by simp
qed

subsection \<open>Redelivery\<close>

definition loop_works :: "loop_answers \<Rightarrow> bool" where
  "loop_works l \<longleftrightarrow> l_select l = None \<and> l_commit l = None \<and> l_mark_select l = (\<lambda>_. None) \<and> l_mark l = (\<lambda>_. None)"

definition resent_status :: "env \<Rightarrow> loop_answers \<Rightarrow> files \<Rightarrow> undelivered \<Rightarrow> status" where
  "resent_status env l fs u =
     (case u of (jid, stored_bundle, raw, path) \<Rightarrow>
        case raw of
          None \<Rightarrow> DELIVERING
        | Some d \<Rightarrow>
            (case restore_or_light env fs stored_bundle path of
               Inl e \<Rightarrow> DELIVERING
             | Inr b \<Rightarrow>
                 (case validate_result (env_lax env) d of
                    None \<Rightarrow> DELIVERING
                  | Some r \<Rightarrow>
                      (case save_result env (l_reply l jid) b r of
                         Inr u \<Rightarrow> DONE
                       | Inl e \<Rightarrow> (case e of DeliveryPermanentError code body \<Rightarrow> FAILED | _ \<Rightarrow> DELIVERING)))))"

lemma restore_or_light_error:
  assumes "restore_or_light env fs stored_bundle path = Inl e"
  shows "e \<in> {OSError, TypeError, ValidationError (lit ''IngestBundle'')}"
proof -
  have "model_validate lax d = Inl e' \<Longrightarrow> e' = ValidationError (lit ''IngestBundle'')" for lax d e'
    by (simp add: model_validate_def split: option.splits)
  moreover have "merge_signals d j = Inl e' \<Longrightarrow> e' = TypeError" for d j e'
    by (cases j) auto
  moreover have "read_sync fs n = Inl e' \<Longrightarrow> e' = OSError \<or> (\<exists>m. e' = SignalsMissing m)" for n e'
    by (auto simp: read_sync_def split: if_splits option.splits)
  ultimately show ?thesis using assms
    unfolding restore_or_light_def restore_bundle_def
    by (auto simp: res_simps split: sum.splits exc.splits option.splits; blast)
qed

lemma mark_if_delivering_outcome:
  assumes p: "progressed jid w0 DELIVERING w" and x: "\<And>job. j_status (change job) = x" "x \<noteq> DELIVERING"
    and c: "\<And>job. j_requeue (change job) = j_requeue job"
  shows "\<exists>w'. mark_if_delivering None None jid change w = (Inr True, w') \<and> progressed jid w0 x w' \<and>
    w_files w' = w_files w"
proof -
  obtain r where r: "row w jid = Some r" "j_status r = DELIVERING" using p by (auto simp: progressed_def)
  obtain w' where "commit None jid r (change r) w = (Inr (), w')" "progressed jid w0 (j_status (change r)) w'"
    "w_files w' = w_files w"
    by (rule commit_progress [OF p, of "change r" r]) (use x c r in auto)
  then show ?thesis using r x by (simp add: mark_if_delivering_def wbind_def wmay_fail_def wret_def)
qed

definition delivering :: "world \<Rightarrow> nat \<Rightarrow> bool" where
  "delivering w jid \<longleftrightarrow> (\<exists>job. row w jid = Some job \<and> j_status job = DELIVERING)"

lemma redeliver_delivering:
  assumes ok: "loop_works l" and row: "row w jid = Some job" and del: "j_status job = DELIVERING"
    and u: "u = (jid, stored_bundle, raw, path)"
  shows "\<exists>w'. redeliver_one env l u w = (Inr (resent_status env l (w_files w) u = DONE), w') \<and>
    progressed jid w (resent_status env l (w_files w) u) w' \<and>
    w_files w' = (if resent_status env l (w_files w) u = DELIVERING then w_files w
                  else discard (l_stuck l) path (w_files w))"
proof -
  have p: "progressed jid w DELIVERING w" using row del by (simp add: progressed_def)
  show ?thesis
  proof (cases "\<exists>d b r. raw = Some d \<and> restore_or_light env (w_files w) stored_bundle path = Inr b \<and>
                  validate_result (env_lax env) d = Some r")
    case False
    with p show ?thesis
      by (auto simp: u redeliver_one_def resend_def resent_status_def dest!: restore_or_light_error
          split: option.splits sum.splits)
  next
    case True
    then obtain d b r where d: "raw = Some d"
      "restore_or_light env (w_files w) stored_bundle path = Inr b"
      "validate_result (env_lax env) d = Some r" by blast
    let ?out = "save_result env (l_reply l jid) b r"
    let ?w = "log_event (Sent_result jid ?out) w"
    have s: "resend env l u d w = (?out, ?w)"
      using d by (simp add: u resend_def send_result_def Let_def)
    have pw: "progressed jid w DELIVERING ?w" using p by (simp add: job_simps)
    note mark = mark_if_delivering_outcome [OF pw]
    note defs = redeliver_one_def resent_status_def reconciler_mark_done_def reconciler_mark_failed_def wbind_def
      wdo_def wret_def drop_signals_def job_simps
    show ?thesis
    proof (cases ?out)
      case (Inr x)
      then show ?thesis using d s mark [of "\<lambda>job. job\<lparr>j_status := DONE\<rparr>" DONE] ok u
        by (auto simp: defs loop_works_def)
    next
      case (Inl e)
      then show ?thesis
        using d s mark [of "\<lambda>job. job\<lparr>j_status := FAILED, j_error := Some (exc_text (env_text env) e)\<rparr>" FAILED] ok u p
        by (cases e) (auto simp: defs loop_works_def)
    qed
  qed
qed

lemma mark_elsewhere:
  assumes "\<not> delivering w jid"
  shows "mark_if_delivering None fault jid change w = (Inr False, w)"
  using assms by (auto simp: mark_if_delivering_def delivering_def wbind_def wmay_fail_def split: option.split)

lemma redeliver_elsewhere:
  assumes ok: "loop_works l" and gone: "\<not> delivering w jid"
  shows "\<exists>w'. redeliver_one env l (jid, stored_bundle, raw, path) w = (Inr False, w') \<and>
    w_jobs w' = w_jobs w \<and> w_files w' = w_files w"
proof (cases "\<exists>d b r. raw = Some d \<and> restore_or_light env (w_files w) stored_bundle path = Inr b \<and>
                validate_result (env_lax env) d = Some r")
  case False
  then show ?thesis
    by (auto simp: redeliver_one_def resend_def dest!: restore_or_light_error split: option.splits sum.splits)
next
  case True
  then obtain d b r where d: "raw = Some d" "restore_or_light env (w_files w) stored_bundle path = Inr b"
    "validate_result (env_lax env) d = Some r" by blast
  let ?out = "save_result env (l_reply l jid) b r"
  let ?w = "log_event (Sent_result jid ?out) w"
  have s: "resend env l (jid, stored_bundle, raw, path) d w = (?out, ?w)"
    using d by (simp add: resend_def send_result_def Let_def)
  have parts: "\<not> delivering (log_event ev w) jid" "w_jobs (log_event ev w) = w_jobs w" "w_files (log_event ev w) = w_files w" for ev
    using gone by (simp_all add: delivering_def log_event_def row_def)
  note defs = redeliver_one_def reconciler_mark_done_def reconciler_mark_failed_def wbind_def wdo_def wret_def
    mark_elsewhere [OF parts(1)] parts(2,3)
  show ?thesis
  proof (cases ?out)
    case (Inr x)
    then show ?thesis using d s ok by (simp add: defs loop_works_def)
  next
    case (Inl e)
    then show ?thesis using d s ok by (cases e) (auto simp: defs loop_works_def)
  qed
qed

text \<open>C12. Redelivering one stored result of the list read at the start of the pass. While its row is still
  DELIVERING, accepted means DONE and counted, refused means FAILED, and in both cases the file goes; anything
  else (not restorable, not readable, an outage, no stored result) leaves the row DELIVERING and the file in
  place for the next pass. A row that was settled or removed in the meantime is left alone, with its file.\<close>

theorem redeliver_one_outcome:
  assumes ok: "loop_works l" and u: "u = (jid, stored_bundle, raw, path)"
  shows "\<exists>w'. redeliver_one env l u w =
      (Inr (delivering w jid \<and> resent_status env l (w_files w) u = DONE), w') \<and>
    (if delivering w jid
     then progressed jid w (resent_status env l (w_files w) u) w' \<and>
       w_files w' = (if resent_status env l (w_files w) u = DELIVERING then w_files w
                     else discard (l_stuck l) path (w_files w))
     else w_jobs w' = w_jobs w \<and> w_files w' = w_files w)"
proof (cases "delivering w jid")
  case True
  then obtain job where "row w jid = Some job" "j_status job = DELIVERING" by (auto simp: delivering_def)
  from redeliver_delivering [OF ok this u, of env] True show ?thesis by simp
next
  case False
  from redeliver_elsewhere [OF ok this, of env stored_bundle raw path] False show ?thesis by (simp add: u)
qed

theorem redeliver_one_outcome_witness:
  "\<exists>w'. redeliver_one sample_env sample_loop
       (1, j_bundle sample_job, Some (result_fields sample_result), j_signals sample_job)
       (set_row 1 (sample_job\<lparr>j_status := DELIVERING, j_result := Some (result_fields sample_result)\<rparr>) sample_world) =
     (Inr True, w') \<and> w_files w' = discard {} (j_signals sample_job) (w_files sample_world)"
proof -
  let ?job = "sample_job\<lparr>j_status := DELIVERING, j_result := Some (result_fields sample_result)\<rparr>"
  let ?w = "set_row 1 ?job sample_world"
  let ?u = "(1, j_bundle sample_job, Some (result_fields sample_result), j_signals sample_job)"
  have row: "row ?w 1 = Some ?job" by (simp add: job_simps)
  have works: "loop_works sample_loop" by (simp add: loop_works_def sample_loop_def)
  have st: "resent_status sample_env sample_loop (w_files ?w) ?u = DONE" by code_simp
  have files: "w_files ?w = w_files sample_world" by (simp add: job_simps)
  have st': "resent_status sample_env sample_loop (w_files sample_world) ?u = DONE" using st unfolding files .
  have stuck: "l_stuck sample_loop = {}" by (simp add: sample_loop_def)
  have "delivering ?w 1" using row by (simp add: delivering_def)
  with redeliver_one_outcome [OF works, of ?u 1 "j_bundle sample_job" "Some (result_fields sample_result)"
      "j_signals sample_job" sample_env ?w] show ?thesis
    unfolding files stuck st' by auto
qed

subsection \<open>Cleaning\<close>

definition in_use :: "world \<Rightarrow> pystr \<Rightarrow> bool" where
  "in_use w n \<longleftrightarrow> (\<exists>k job. row w k = Some job \<and> j_status job \<in> active_statuses \<and> j_signals job = Some n)"

lemma files_in_use_set:
  assumes "wf_dict (w_jobs w)" and "files_in_use None w = (Inr keep, w')" and "n \<noteq> []"
  shows "n \<in> keep \<longleftrightarrow> in_use w n"
  using assms dget_wf_iff [OF assms(1)]
  by (force simp: files_in_use_def in_use_def row_def split: option.splits if_splits)

lemma row_purged:
  assumes "wf_dict (w_jobs w)" and "purge_once None retention w = (out, w')"
  shows "row w' k = (case row w k of None \<Rightarrow> None
                     | Some job \<Rightarrow> if purgeable (w_now w - retention) job then None else Some job)"
  using assms map_of_select [OF assms(1), of "\<lambda>job. \<not> purgeable (w_now w - retention) job" k]
  by (auto simp: purge_once_def Let_def row_def split: option.splits)

text \<open>C13. One pass of the cleaner: exactly the DONE and FAILED rows older than the retention go, and of the files
  exactly those that are old enough, removable and not the signal file of a job still PENDING, RUNNING or
  DELIVERING; an unfinished job keeps its row and its file.\<close>

theorem clean_once_exact:
  assumes wf: "wf_dict (w_jobs w)" "wf_dict (w_files w)" and c: "clean_once env None None stuck w = (out, w')"
    and n: "n \<noteq> []"
  shows "row w' k = (case row w k of None \<Rightarrow> None
                     | Some job \<Rightarrow> if purgeable (w_now w - env_retention env) job then None else Some job) \<and>
    (in_use w n \<longrightarrow> dget (w_files w') n = dget (w_files w) n) \<and>
    (\<not> in_use w n \<longrightarrow> dget (w_files w') n =
       (if n \<notin> stuck \<and> (\<exists>f. dget (w_files w) n = Some f \<and> f_mtime f < w_now w - env_orphan_hours env * 3600)
        then None else dget (w_files w) n))"
proof -
  obtain d w1 where p: "purge_once None (env_retention env) w = (Inr d, w1)"
    by (auto simp: purge_once_def Let_def)
  have w1: "w_files w1 = w_files w" "w_now w1 = w_now w" "wf_dict (w_jobs w1)"
    using p wf(1) by (auto simp: purge_once_def Let_def wf_dict_filter)
  obtain keep where f: "files_in_use None w1 = (Inr keep, w1)" by (simp add: files_in_use_def)
  obtain m fs where s: "sweep_orphans stuck (w_now w1) (env_orphan_hours env) None (Some keep) (w_files w1) = (m, fs)"
    by fastforce
  have w': "w' = w1\<lparr>w_files := fs\<rparr>"
    using c p f s by (auto simp: clean_once_def wbind_def wret_def sweep_def)
  have use: "in_use w1 n = in_use w n"
    by (force simp: in_use_def row_purged [OF wf(1) p] purgeable_def active_statuses_def terminal_statuses_def
        split: option.splits if_splits)
  have "dget fs n = (if sweepable stuck (w_now w - env_orphan_hours env * 3600) keep (w_files w) n then None
                     else dget (w_files w) n)"
    using dget_sweep_sync [OF wf(2), of stuck "w_now w" "env_orphan_hours env * 3600" keep n] s
    by (simp add: sweep_orphans_def w1)
  moreover have "n \<in> keep \<longleftrightarrow> in_use w n" using files_in_use_set [OF w1(3) f n] use by simp
  moreover have "row w' k = row w1 k" by (simp add: w' row_def)
  ultimately show ?thesis by (auto simp: w' row_purged [OF wf(1) p] sweepable_def split: option.splits)
qed

theorem clean_once_exact_witness:
  "dget (w_files (snd (clean_once sample_env None None {} (sample_world\<lparr>w_now := 1000000\<rparr>)))) (final_name (lit ''ab12'')) =
     dget (w_files sample_world) (final_name (lit ''ab12''))"
proof -
  let ?w = "sample_world\<lparr>w_now := 1000000\<rparr>"
  have wf: "wf_dict (w_jobs ?w)" "wf_dict (w_files ?w)" by code_simp+
  have "row ?w 1 = Some sample_job" using sample_row by (simp add: row_def)
  then have "in_use ?w (final_name (lit ''ab12''))"
    using sample_job_parts unfolding in_use_def active_statuses_def by blast
  moreover have "final_name (lit ''ab12'') \<noteq> []" by (simp add: final_name_def)
  ultimately show ?thesis
    using clean_once_exact [OF wf prod.collapse [symmetric], of "final_name (lit ''ab12'')" sample_env "{}"] by simp
qed

end
