(* ===== verification/Lifecycle_Props.thy ===== *)
theory Lifecycle_Props
  imports Lifecycle_Inv Job_Laws
begin

text \<open>
  The safety properties of the running system: what the invariant of \<open>Lifecycle_Inv\<close> says of rows and calls
  in every reachable state, that only the cleaner removes rows, and a run in which a finished job is
  taken up again.
\<close>

section \<open>Rows and calls in reachable states\<close>

lemma reachable_row: "reachable env s \<Longrightarrow> row (s_world s) jid = Some job \<Longrightarrow> row_ok env (s_world s) jid job"
  using reachable_ok by (simp add: sys_ok_def world_ok_def)

lemma reachable_sent:
  "reachable env s \<Longrightarrow> Sent_result jid out \<in> set (w_log (s_world s)) \<Longrightarrow>
     jid < w_next (s_world s) \<and> stored (s_world s) jid"
  using reachable_ok [of env s] unfolding sys_ok_def world_ok_def by blast

text \<open>C1. A job is DONE only when Spring has accepted its result or an analysis of it ended without a
  product, whatever failed, was restarted or ran at the same time.\<close>

theorem done_only_when_settled:
  assumes "reachable env s" and "row (s_world s) jid = Some job" and "j_status job = DONE"
  shows "Sent_result jid (Inr ()) \<in> set (w_log (s_world s)) \<or> Ran jid (Inr None) \<in> set (w_log (s_world s))"
  using reachable_row [OF assms(1,2)] assms(3) by (simp add: row_ok_def settled_def)

text \<open>C2. Store, then send: a job waiting for delivery has a stored result which reads back as an RCA
  result, so that the reconciler can send it again.\<close>

theorem delivering_result_stored:
  assumes "reachable env s" and "row (s_world s) jid = Some job" and "j_status job = DELIVERING"
  shows "\<exists>d r. j_result job = Some d \<and> validate_result lax d = Some r"
proof -
  obtain r where "j_result job = Some (result_fields r)"
    using reachable_row [OF assms(1,2)] assms(3) unfolding row_ok_def by blast
  then show ?thesis using validate_result_dump [of lax r] by blast
qed



section \<open>A run\<close>

text \<open>A job is received and its row committed; the process restarts; \<open>recover_on_startup\<close> puts the job into
  the queue, a worker takes it before the RUNNING rows are selected, and they are selected while it runs.\<close>

definition early_pickup :: "move list" where
  "early_pickup =
     Request sample_reception sample_bundle # map (\<lambda>i. Run i sample_answers) [4, 4] @ [Restart 1] @
     map (\<lambda>i. Run i sample_answers) ([1] @ replicate 4 0 @ [1, 1, 1])"

definition then_finish :: "move list" where
  "then_finish = map (\<lambda>i. Run i sample_answers) (replicate 5 0)"

definition then_again :: "move list" where
  "then_again = map (\<lambda>i. Run i sample_answers) (replicate 5 0)"

definition run_of :: "move list \<Rightarrow> sys" where
  "run_of ms = fold (sys_do sample_env) ms (start_sys 1 0)"

lemma reachable_run: "reachable sample_env (run_of ms)"
  unfolding run_of_def by (rule schedule_reachable) (rule reachable.start)

definition status_of :: "sys \<Rightarrow> status option" where
  "status_of s = map_option j_status (row (s_world s) 1)"

definition to_delivery :: "move list" where
  "to_delivery = map (\<lambda>i. Run i sample_answers) (replicate 2 0)"

lemma status_ofE:
  assumes "status_of s = Some x"
  obtains job where "row (s_world s) 1 = Some job" and "j_status job = x"
  using assms by (auto simp: status_of_def)

lemma status_pickup: "status_of (run_of early_pickup) = Some PENDING"
  by code_simp

lemma status_delivery: "status_of (run_of (early_pickup @ to_delivery)) = Some DELIVERING"
  by code_simp

lemma status_finish: "status_of (run_of (early_pickup @ then_finish)) = Some DONE"
  by code_simp

lemma status_again: "status_of (run_of (early_pickup @ then_finish @ then_again)) = Some FAILED"
  by code_simp

theorem done_only_when_settled_witness:
  "\<exists>job. row (s_world (run_of (early_pickup @ then_finish))) 1 = Some job \<and> j_status job = DONE \<and>
     (Sent_result 1 (Inr ()) \<in> set (w_log (s_world (run_of (early_pickup @ then_finish)))) \<or>
      Ran 1 (Inr None) \<in> set (w_log (s_world (run_of (early_pickup @ then_finish)))))"
proof -
  obtain job where "row (s_world (run_of (early_pickup @ then_finish))) 1 = Some job" and "j_status job = DONE"
    using status_ofE [OF status_finish] .
  then show ?thesis using done_only_when_settled [OF reachable_run, of "early_pickup @ then_finish" 1 job] by blast
qed

theorem delivering_result_stored_witness:
  "\<exists>job d r. row (s_world (run_of (early_pickup @ to_delivery))) 1 = Some job \<and> j_status job = DELIVERING \<and> j_result job = Some d \<and>
     validate_result (\<lambda>_. None) d = Some r"
proof -
  obtain job where "row (s_world (run_of (early_pickup @ to_delivery))) 1 = Some job" and "j_status job = DELIVERING"
    using status_ofE [OF status_delivery] .
  then show ?thesis using delivering_result_stored [OF reachable_run, of "early_pickup @ to_delivery" 1 job "\<lambda>_. None"] by blast
qed

lemma sent_finish: "Sent_result 1 (Inr ()) \<in> set (w_log (s_world (run_of (early_pickup @ then_finish))))"
proof -
  have "list_ex (\<lambda>e. case e of Sent_result jid (Inr _) \<Rightarrow> jid = 1 | _ \<Rightarrow> False)
     (w_log (s_world (run_of (early_pickup @ then_finish))))"
    by code_simp
  then obtain e where e: "e \<in> set (w_log (s_world (run_of (early_pickup @ then_finish))))"
    and c: "case e of Sent_result jid (Inr _) \<Rightarrow> jid = 1 | _ \<Rightarrow> False"
    unfolding list_ex_iff by blast
  from c have "e = Sent_result 1 (Inr ())" by (auto split: event.splits sum.splits)
  with e show ?thesis by simp
qed




section \<open>Rows that are not finished stay\<close>

lemma commit_keeps_rows: "commit fault jid old new w = (out, w') \<Longrightarrow> row w k \<noteq> None \<Longrightarrow> row w' k \<noteq> None"
  using commit_cases [of fault jid old new w out w'] by (auto simp: job_simps)

lemma commits_keep_rows:
  "row w k \<noteq> None \<Longrightarrow> row (fold (\<lambda>(jid, old, new) w'. snd (commit None jid old new w')) cs w) k \<noteq> None"
proof (induction cs arbitrary: w)
  case (Cons c cs)
  obtain jid old new where c: "c = (jid, old, new)" by (cases c) auto
  have "row (snd (commit None jid old new w)) k \<noteq> None"
    using commit_keeps_rows [OF _ Cons.prems] by (metis prod.collapse)
  then show ?case using Cons.IH c by simp
qed simp

lemma insert_keeps_rows:
  "insert_job fault job w = (out, w') \<Longrightarrow> row w k \<noteq> None \<Longrightarrow> row w' k \<noteq> None"
  by (auto simp: insert_job_def row_def dget_dset split: option.splits)

lemma purge_keeps_active:
  assumes "wf_dict (w_jobs w)" and "purge_once fault retention w = (out, w')" and "row w k = Some job"
    and "j_status job \<in> active_statuses"
  shows "row w' k = Some job"
  using assms row_filter [OF assms(1), of "\<lambda>job. \<not> purgeable (w_now w - retention) job" k]
  by (auto simp: purge_once_def Let_def row_def purgeable_def active_statuses_def terminal_statuses_def
      split: option.splits)

lemma fold_enqueue_rows: "row (fold enqueue ks w) k = row w k"
  by (induction ks arbitrary: w) (simp_all add: job_simps)

lemma same_rows:
  "row (snd (send_result env reply jid b r w)) k = row w k"
  "row (send_failure env reply jid b m w) k = row w k"
  "row (snd (sweep stuck age ks w)) k = row w k"
  "row (w\<lparr>w_queue := q\<rparr>) k = row w k" "row (w\<lparr>w_files := fs\<rparr>) k = row w k" "row (w\<lparr>w_now := n\<rparr>) k = row w k"
  by (simp_all add: send_result_def send_failure_def log_event_def Let_def sweep_def row_def split: prod.splits)

lemma case_act_world:
  assumes "\<And>e w1. c = (Inl e, w1) \<Longrightarrow> P (snd (f e w1))" and "\<And>u w1. c = (Inr u, w1) \<Longrightarrow> P (snd (g u w1))"
  shows "P (snd (case c of (Inl e, w1) \<Rightarrow> f e w1 | (Inr u, w1) \<Rightarrow> g u w1))"
  using assms by (auto split: prod.splits sum.splits)

definition rows_stay :: "world \<Rightarrow> world \<Rightarrow> bool" where
  "rows_stay w w' \<longleftrightarrow> (\<forall>k. row w k \<noteq> None \<longrightarrow> row w' k \<noteq> None)"

lemma rows_stay_act:
  assumes "\<And>out w1. c = (out, w1) \<Longrightarrow> rows_stay w w1"
    and "\<And>e w1. snd (f e w1) = w1" and "\<And>u w1. snd (g u w1) = w1"
  shows "rows_stay w (snd (case c of (Inl e, w1) \<Rightarrow> f e w1 | (Inr u, w1) \<Rightarrow> g u w1))"
  using assms by (auto split: prod.splits sum.splits)

lemma rows_stay_ops:
  "commit fault jid old new w = (out, w') \<Longrightarrow> rows_stay w w'"
  "commit_failure fault jid loaded msg w = (out, w') \<Longrightarrow> rows_stay w w'"
  "insert_job fault job w = (made, w') \<Longrightarrow> rows_stay w w'"
  "commit_all fault cs w = (out, w') \<Longrightarrow> rows_stay w w'"
  "send_result env reply jid b r w = (out, w') \<Longrightarrow> rows_stay w w'"
  "requeue_pending fault w = (n, w') \<Longrightarrow> rows_stay w w'"
  "save_signals q b w = (p, w') \<Longrightarrow> rows_stay w w'"
  "files_in_use fault w = (ks, w') \<Longrightarrow> rows_stay w w'"
  subgoal using commit_keeps_rows by (simp add: rows_stay_def)
  subgoal by (auto simp: commit_failure_def rows_stay_def job_simps dest: commit_keeps_rows split: option.splits)
  subgoal using insert_keeps_rows by (simp add: rows_stay_def)
  subgoal using commits_keep_rows by (auto simp: rows_stay_def commit_all_def split: option.splits if_splits)
  subgoal using same_rows(1) by (metis rows_stay_def snd_conv)
  subgoal by (auto simp: requeue_pending_def wbind_def wmay_fail_def Let_def rows_stay_def fold_enqueue_rows
        split: option.splits)
  subgoal by (auto simp: save_signals_def rows_stay_def row_def split: option.splits prod.splits)
  subgoal by (auto simp: files_in_use_def rows_stay_def split: option.splits)
  done

lemma rows_stay_refl: "(\<And>k. row w' k = row w k) \<Longrightarrow> rows_stay w w'"
  by (simp add: rows_stay_def)

lemma task_step_rows:
  assumes "t \<noteq> C_idle"
  shows "rows_stay w (snd (task_step env a t w))"
proof (cases t)
  case (W_save jid job b out)
  then show ?thesis by (cases out) (auto intro!: rows_stay_act intro: rows_stay_ops)
next
  case (R_notify us)
  then show ?thesis by (cases us) (auto intro!: rows_stay_refl split: sum.splits)
next
  case (D_each us)
  then show ?thesis by (cases us) (auto intro!: rows_stay_refl split: option.splits sum.splits)
next
  case (W_missing jid job m)
  then show ?thesis
    by (auto intro!: rows_stay_ops(1) split: sum.splits prod.splits)
qed (use assms in \<open>auto intro!: rows_stay_act intro: rows_stay_refl rows_stay_ops
       simp: same_rows job_simps Let_def fold_enqueue_rows split: option.splits sum.splits list.splits exc.splits\<close>)

lemma purge_step_keeps_active:
  assumes "world_ok env w" and "row w k = Some job" and "j_status job \<in> active_statuses"
  shows "row (snd (task_step env' a C_idle w)) k \<noteq> None"
proof -
  obtain out w1 where p: "purge_once (a_save a) (env_retention env') w = (out, w1)" by fastforce
  have "row w1 k = Some job"
    using purge_keeps_active [OF _ p assms(2,3)] assms(1) by (simp add: world_ok_def)
  then show ?thesis by (simp add: p split: sum.splits)
qed

text \<open>C4. No unfinished job is lost: whatever happens next (a task moves, a request arrives, the process
  restarts), a row whose status is PENDING, RUNNING or DELIVERING is still in the table.\<close>

theorem active_rows_stay:
  assumes "reachable env s" and "sys_step env s s'" and "row (s_world s) jid = Some job"
    and "j_status job \<in> active_statuses"
  shows "row (s_world s') jid \<noteq> None"
  using assms(2)
proof (cases rule: sys_step.cases)
  case (run i a t w)
  let ?t = "s_tasks s ! i"
  have w: "w = snd (task_step env a ?t (s_world s))" using run(3) by simp
  have "row w jid \<noteq> None"
  proof (cases "?t = C_idle")
    case True
    have "world_ok env (s_world s)" using reachable_ok [OF assms(1)] by (simp add: sys_ok_def)
    from purge_step_keeps_active [OF this assms(3,4), of env a] show ?thesis unfolding w True .
  next
    case False
    then show ?thesis using task_step_rows [OF False, of "s_world s" env a] assms(3) w by (simp add: rows_stay_def)
  qed
  then show ?thesis using run(1) by simp
qed (use assms(3) in \<open>simp_all add: row_def\<close>)

theorem active_rows_stay_witness:
  "row (s_world (sys_do sample_env (Restart 3) (run_of early_pickup))) 1 \<noteq> None"
proof -
  obtain job where "row (s_world (run_of early_pickup)) 1 = Some job" and "j_status job = PENDING"
    using status_ofE [OF status_pickup] .
  moreover have "sys_step sample_env (run_of early_pickup) (sys_do sample_env (Restart 3) (run_of early_pickup))"
    by (simp add: sys_step.restart)
  ultimately show ?thesis
    using active_rows_stay [OF reachable_run] by (simp only: active_statuses_def insert_iff simp_thms)
qed

section \<open>A worker that runs undisturbed\<close>

text \<open>The stretches of one worker from the SELECT until it waits for the next job, nobody else moving.\<close>

inductive completes :: "env \<Rightarrow> answers \<Rightarrow> task \<Rightarrow> world \<Rightarrow> world \<Rightarrow> bool" for env a where
  waits: "completes env a W_idle w w"
| goes: "t \<noteq> W_idle \<Longrightarrow> task_step env a t w = (t', w1) \<Longrightarrow> completes env a t' w1 w2 \<Longrightarrow> completes env a t w w2"

inductive_simps completes_idle: "completes env a W_idle w w'"

lemma completes_step:
  "t \<noteq> W_idle \<Longrightarrow> completes env a t w w' = completes env a (fst (task_step env a t w)) (snd (task_step env a t w)) w'"
  by (subst completes.simps) (auto simp: prod_eq_iff)

lemma completes_discard: "completes env a (W_discard p) w w' = (w' = drop_signals (a_stuck a) p w)"
  by (auto simp: completes_step completes_idle)

lemma completes_notify:
  "completes env a (W_notify jid b m p) w w' = (w' = drop_signals (a_stuck a) p (send_failure env (a_notify a) jid b m w))"
  by (simp add: completes_step completes_discard)

definition mark_verdict :: "answers \<Rightarrow> nat \<Rightarrow> verdict \<Rightarrow> unit act" where
  "mark_verdict a jid v =
     (case v of Delivered \<Rightarrow> mark_done (a_mark_select a) (a_mark a) jid
      | Refused reason \<Rightarrow> mark_failed (a_mark_select a) (a_mark a) jid reason)"

lemma completes_mark:
  "completes env a (W_mark jid v p) w w' =
     (w' = snd (wbind (mark_verdict a jid v) (\<lambda>_. wdo (drop_signals (a_stuck a) p)) w))"
  by (cases v)
     (auto simp: completes_step completes_idle completes_discard mark_select_def mark_verdict_def mark_done_def
       mark_failed_def wbind_def wdo_def wmay_fail_def split: option.splits prod.splits sum.splits)

lemma completes_deliver:
  "completes env a (W_deliver jid job b r) w w' =
     (w' = snd (after_session env a jid job b (Deliver r) w))"
  by (auto simp: completes_step completes_idle completes_mark mark_verdict_def after_session_def
      deliver_and_finalize_def wbind_def wdo_def wret_def split: prod.splits sum.splits exc.splits)

lemma completes_failure:
  "completes env a (W_fail jid loaded job b m) w w' =
     (w' = snd (wbind (commit_failure (a_fail a) jid loaded m) (\<lambda>_. after_session env a jid job b (Failure m)) w))"
  by (auto simp: completes_step completes_idle completes_notify after_session_def deliver_failure_def
      wbind_def wdo_def split: prod.splits sum.splits)

lemma completes_missing:
  "completes env a (W_missing jid job m) w w' = (w' = snd (signals_missing env a jid job m w))"
  by (auto simp: completes_step completes_idle completes_notify signals_missing_def deliver_failure_def
      wbind_def wdo_def split: prod.splits sum.splits)

definition saved :: "env \<Rightarrow> answers \<Rightarrow> nat \<Rightarrow> job \<Rightarrow> ingest_bundle \<Rightarrow> rca_result option \<Rightarrow> unit act" where
  "saved env a jid job b out w =
     (let new = (case out of
                   None \<Rightarrow> job\<lparr>j_status := DONE, j_error := None\<rparr>
                 | Some r \<Rightarrow> job\<lparr>j_result := Some (result_fields r), j_status := DELIVERING, j_error := None\<rparr>)
      in case commit (a_save a) jid job new w of
           (Inl e, w1) \<Rightarrow> wbind (commit_failure (a_fail a) jid None (exc_text (env_text env) e))
                             (\<lambda>_. after_session env a jid job b (Failure (exc_text (env_text env) e))) w1
         | (Inr u, w1) \<Rightarrow> after_session env a jid job b
                             (case out of None \<Rightarrow> Nothing_to_send | Some r \<Rightarrow> Deliver r) w1)"

lemma completes_save:
  "completes env a (W_save jid job b out) w w' = (w' = snd (saved env a jid job b out w))"
  by (cases out)
     (auto simp: completes_step [of "W_save jid job b out" for out] completes_failure completes_deliver completes_discard saved_def after_session_def [of _ _ _ _ _ Nothing_to_send]
       wdo_def Let_def split: prod.splits sum.splits)

lemma completes_run:
  "completes env a (W_run jid job b 1) w w' =
     (w' = snd (wbind (analyse env a jid job) (after_session env a jid job b) w))"
  by (auto simp: completes_step [of "W_run jid job b k" for k] completes_failure completes_save analyse_def run_rca_def saved_def
      Let_def wbind_def wret_def split: prod.splits sum.splits option.splits)

lemma completes_start:
  "completes env a (W_start jid job b) w w' =
     (w' = snd (wbind (commit (a_start a) jid job (job\<lparr>j_status := RUNNING\<rparr>)) (\<lambda>_.
                wbind (analyse env a jid (job\<lparr>j_status := RUNNING\<rparr>))
                  (after_session env a jid (job\<lparr>j_status := RUNNING\<rparr>) b)) w))"
  by (auto simp: completes_step [of "W_start jid job b"] completes_idle completes_run [simplified] wbind_def
      split: prod.splits sum.splits)

lemma after_session_status:
  "after_session env a jid (job\<lparr>j_status := x\<rparr>) b = after_session env a jid job b"
proof
  show "after_session env a jid (job\<lparr>j_status := x\<rparr>) b out = after_session env a jid job b out" for out
    by (cases out) (simp_all add: after_session_def cong: if_cong)
qed

lemma completes_restore:
  "completes env a (W_restore jid job) w w' =
     (w' = snd (case restore_bundle (env_lax env) (w_files w) (j_bundle job) (j_signals job) of
              Inl (SignalsMissing msg) \<Rightarrow> signals_missing env a jid job msg w
            | Inl e \<Rightarrow> (Inl e, w)
            | Inr b \<Rightarrow>
                wbind (commit (a_start a) jid job (job\<lparr>j_status := RUNNING\<rparr>)) (\<lambda>_.
                wbind (analyse env a jid (job\<lparr>j_status := RUNNING\<rparr>)) (\<lambda>out.
                  after_session env a jid job b out)) w))"
  by (auto simp: completes_step [of "W_restore jid job"] completes_idle completes_start completes_missing
      after_session_status split: sum.splits exc.splits)

lemma completes_process: "completes env a (W_select jid) w w' = (w' = snd (process env a jid w))"
  by (auto simp: completes_step [of "W_select jid"] completes_idle completes_restore process_def wbind_def [of "wmay_fail f" for f] wmay_fail_def
      split: option.splits)

lemma completes_moves:
  assumes "completes env a t w w'" and "i < length (s_tasks s)" and "s_tasks s ! i = t" and "s_world s = w"
  shows "\<exists>n. fold (sys_do env) (replicate n (Run i a)) s = s\<lparr>s_tasks := (s_tasks s)[i := W_idle], s_world := w'\<rparr>"
  using assms
proof (induction arbitrary: s rule: completes.induct)
  case (waits w)
  then have "fold (sys_do env) (replicate 0 (Run i a)) s = s\<lparr>s_tasks := (s_tasks s)[i := W_idle], s_world := w\<rparr>"
    by (metis (mono_tags) fold_simps(1) id_apply list_update_id replicate_0 sys.surjective sys.update_convs)
  then show ?case by blast
next
  case (goes t w t' w1 w2)
  let ?s = "sys_do env (Run i a) s"
  have s': "?s = \<lparr>s_tasks = (s_tasks s)[i := t'], s_world = w1\<rparr>"
    using goes by simp
  then obtain n where "fold (sys_do env) (replicate n (Run i a)) ?s =
      ?s\<lparr>s_tasks := (s_tasks ?s)[i := W_idle], s_world := w2\<rparr>"
    using goes.IH [of ?s] goes.prems by auto
  also have "\<dots> = s\<lparr>s_tasks := (s_tasks s)[i := W_idle], s_world := w2\<rparr>"
    unfolding s' by simp
  finally have "fold (sys_do env) (replicate (Suc n) (Run i a)) s =
      s\<lparr>s_tasks := (s_tasks s)[i := W_idle], s_world := w2\<rparr>"
    by (simp only: replicate_Suc fold_simps)
  then show ?case by blast
qed



end
