(* ===== verification/Server_Api.thy ===== *)
theory Server_Api
  imports Ingest_Api
begin

text \<open>
  The requests as they reach the server: the API key check of \<open>app/core/auth.py\<close> in front of every endpoint of
  \<open>app/api/ingest.py\<close>, the readiness check of \<open>app/api/health.py\<close>, the refusal to start without a key for the
  language model (\<open>app/main.py\<close>), and the replies. A body that is no JSON is answered 422 before the key is
  looked at, one that is JSON but no bundle after it.
\<close>

section \<open>Keys\<close>

definition mask :: "pystr option \<Rightarrow> pystr" where
  "mask key =
     (case key of
        None \<Rightarrow> [40, 50630, 51020, 41]
      | Some k \<Rightarrow> if k = [] then [40, 50630, 51020, 41]
                  else take 4 k @ [8230] @ lit ''('' @ str_of_nat (length k) @ [51088, 41])"

definition ingest_api_key_set :: "pystr \<Rightarrow> pystr list" where
  "ingest_api_key_set setting = remdups (filter (\<lambda>k. k \<noteq> []) (map (str_strip is_space) (split_on 44 setting)))"

text \<open>\<open>str.encode("utf-8")\<close>.\<close>

definition utf8_char :: "nat \<Rightarrow> nat list" where
  "utf8_char c =
     (if c < 0x80 then [c]
      else if c < 0x800 then [0xC0 + c div 64, 0x80 + c mod 64]
      else if c < 0x10000 then [0xE0 + c div 4096, 0x80 + c div 64 mod 64, 0x80 + c mod 64]
      else [0xF0 + c div 262144, 0x80 + c div 4096 mod 64, 0x80 + c div 64 mod 64, 0x80 + c mod 64])"

definition utf8 :: "pystr \<Rightarrow> nat list" where
  "utf8 s = concat (map utf8_char s)"

definition not_authorised :: exc where
  "not_authorised = HTTPException 401 (lit ''invalid or missing API key'')"

definition require_api_key :: "pystr list \<Rightarrow> pystr option \<Rightarrow> unit res" where
  "require_api_key keys api_key =
     (if keys = [] then Inr ()
      else let provided = utf8 (case api_key of None \<Rightarrow> [] | Some k \<Rightarrow> k)
           in if list_ex (\<lambda>k. provided = utf8 k) keys then Inr () else Inl not_authorised)"

section \<open>Requests and replies\<close>

datatype http_reply = Created nat | Found job_view | Healthy | Unprocessable | Refusal nat pystr

fun error_reply :: "exc \<Rightarrow> http_reply" where
  "error_reply (HTTPException code detail) = Refusal code detail"
| "error_reply e = Refusal 500 (lit ''Internal Server Error'')"

definition post_ingest :: "lax_int \<Rightarrow> pystr \<Rightarrow> pystr option \<Rightarrow> pystr \<Rightarrow> reception \<Rightarrow> world \<Rightarrow> http_reply \<times> world" where
  "post_ingest lax setting key body q w =
     (case json_loads body of
        None \<Rightarrow> (Unprocessable, w)
      | Some j \<Rightarrow>
          (case require_api_key (ingest_api_key_set setting) key of
             Inl e \<Rightarrow> (error_reply e, w)
           | Inr u \<Rightarrow>
               (case v_obj (validate_bundle lax) j of
                  None \<Rightarrow> (Unprocessable, w)
                | Some b \<Rightarrow> (case ingest q b w of
                               (Inl e, w') \<Rightarrow> (error_reply e, w')
                             | (Inr jid, w') \<Rightarrow> (Created jid, w')))))"

definition get_ingest :: "pystr \<Rightarrow> pystr option \<Rightarrow> nat \<Rightarrow> world \<Rightarrow> http_reply" where
  "get_ingest setting key jid w =
     (case require_api_key (ingest_api_key_set setting) key of
        Inl e \<Rightarrow> error_reply e
      | Inr u \<Rightarrow> (case get_job_status jid w of Inl e \<Rightarrow> error_reply e | Inr v \<Rightarrow> Found v))"

definition health :: "exc option \<Rightarrow> unit res" where
  "health select_one =
     (case select_one of None \<Rightarrow> Inr () | Some e \<Rightarrow> Inl (HTTPException 503 (lit ''db unavailable'')))"

definition get_health :: "exc option \<Rightarrow> http_reply" where
  "get_health select_one = (case health select_one of Inl e \<Rightarrow> error_reply e | Inr u \<Rightarrow> Healthy)"

text \<open>The checks before the tasks start.\<close>

definition startup_check :: "pystr \<Rightarrow> unit res" where
  "startup_check openai_api_key =
     (if openai_api_key = [] then Inl (RunnerError (lit ''OPENAI_API_KEY '' @ [48120, 49444, 51221, 32, 8212,
       32, 49892, 49436, 48260, 32, 44592, 46041, 32, 44144, 48512, 32, 40, 47924, 53412, 32, 44592, 46041, 51008, 32, 53580, 49828, 53944, 32, 51204, 50857, 41]))
      else Inr ())"

section \<open>The encoding is injective\<close>

text \<open>Reading one character back; the first byte tells how many follow.\<close>

definition utf8_head :: "nat list \<Rightarrow> nat \<times> nat list" where
  "utf8_head bs =
     (let cont = (\<lambda>i. bs ! i - 0x80); b = bs ! 0
      in if b < 0x80 then (b, drop 1 bs)
         else if b < 0xE0 then ((b - 0xC0) * 64 + cont 1, drop 2 bs)
         else if b < 0xF0 then ((b - 0xE0) * 4096 + cont 1 * 64 + cont 2, drop 3 bs)
         else ((b - 0xF0) * 262144 + cont 1 * 4096 + cont 2 * 64 + cont 3, drop 4 bs))"

lemma sextets:
  fixes c :: nat
  shows "c div 4096 * 4096 + c div 64 mod 64 * 64 + c mod 64 = c"
    and "c div 262144 * 262144 + c div 4096 mod 64 * 4096 + c div 64 mod 64 * 64 + c mod 64 = c"
proof -
  have two: "c div 64 div 64 = c div 4096" "c div 4096 div 64 = c div 262144"
    by (simp_all add: div_mult2_eq [symmetric])
  have a: "c div 64 * 64 + c mod 64 = c" by (rule div_mult_mod_eq)
  have b: "c div 4096 * 64 + c div 64 mod 64 = c div 64"
    using div_mult_mod_eq [of "c div 64" 64] by (simp add: two)
  have d: "c div 262144 * 64 + c div 4096 mod 64 = c div 4096"
    using div_mult_mod_eq [of "c div 4096" 64] by (simp add: two)
  show "c div 4096 * 4096 + c div 64 mod 64 * 64 + c mod 64 = c" using a b by linarith
  then show "c div 262144 * 262144 + c div 4096 mod 64 * 4096 + c div 64 mod 64 * 64 + c mod 64 = c"
    using d by linarith
qed

lemma utf8_head_char: "utf8_head (utf8_char c @ xs) = (c, xs)"
proof -
  have two: "c < 0x800 \<Longrightarrow> c div 64 < 32" and three: "c < 0x10000 \<Longrightarrow> c div 4096 < 16"
    by (simp_all add: less_mult_imp_div_less)
  note s = sextets [of c] div_mult_mod_eq [of c 64]
  consider "c < 0x80" | "\<not> c < 0x80" "c < 0x800" | "\<not> c < 0x80" "\<not> c < 0x800" "c < 0x10000" | "\<not> c < 0x80" "\<not> c < 0x800" "\<not> c < 0x10000"
    by blast
  then show ?thesis
  proof cases
    case 2
    then have "utf8_char c = [0xC0 + c div 64, 0x80 + c mod 64]" by (simp only: utf8_char_def if_False if_True)
    then show ?thesis using two [OF 2(2)] s(3) by (simp add: utf8_head_def)
  next
    case 3
    then have "utf8_char c = [0xE0 + c div 4096, 0x80 + c div 64 mod 64, 0x80 + c mod 64]"
      by (simp only: utf8_char_def if_False if_True)
    then show ?thesis using three [OF 3(3)] s(1) by (simp add: utf8_head_def)
  next
    case 4
    then have "utf8_char c = [0xF0 + c div 262144, 0x80 + c div 4096 mod 64, 0x80 + c div 64 mod 64, 0x80 + c mod 64]"
      by (simp only: utf8_char_def if_False if_True)
    then show ?thesis using s(2) by (simp add: utf8_head_def)
  qed (simp add: utf8_char_def utf8_head_def)
qed

lemma utf8_char_cancel: "utf8_char c @ xs = utf8_char d @ ys \<longleftrightarrow> c = d \<and> xs = ys"
  by (metis utf8_head_char prod.inject)

lemma utf8_char_nonempty: "utf8_char c \<noteq> []"
  by (simp add: utf8_char_def)

lemma utf8_inj: "utf8 s = utf8 t \<longleftrightarrow> s = t"
proof
  show "utf8 s = utf8 t \<Longrightarrow> s = t"
  proof (induction s arbitrary: t)
    case Nil
    then show ?case using utf8_char_nonempty by (cases t) (auto simp: utf8_def)
  next
    case (Cons c s)
    then show ?case using utf8_char_nonempty by (cases t) (auto simp: utf8_def utf8_char_cancel)
  qed
qed simp

lemma key_set_nonempty: "[] \<notin> set (ingest_api_key_set setting)"
  by (simp add: ingest_api_key_set_def)

definition authorised :: "pystr \<Rightarrow> pystr option \<Rightarrow> bool" where
  "authorised setting key \<longleftrightarrow>
     ingest_api_key_set setting = [] \<or> (\<exists>k \<in> set (ingest_api_key_set setting). key = Some k)"

lemma require_api_key_eq:
  "require_api_key (ingest_api_key_set setting) key = (if authorised setting key then Inr () else Inl not_authorised)"
  using key_set_nonempty [of setting]
  by (auto simp: require_api_key_def authorised_def list_ex_iff utf8_inj split: option.splits)

section \<open>What the check decides\<close>

text \<open>The key check is exact: while no key is configured every request passes; otherwise it passes exactly when its
  header is one of the configured keys, compared as texts although the code compares encoded bytes. An absent
  or empty header never passes then, and every rejection is the same 401.\<close>

theorem api_key_decision:
  "require_api_key (ingest_api_key_set setting) key =
     (if ingest_api_key_set setting = [] \<or> (\<exists>k \<in> set (ingest_api_key_set setting). key = Some k \<and> k \<noteq> [])
      then Inr () else Inl not_authorised)"
  using key_set_nonempty [of setting] by (auto simp: require_api_key_eq authorised_def)

text \<open>Keys are rotated by listing both, in any order and with blanks around them.\<close>

lemma split_on_append: "split_on c (a @ [c] @ b) = split_on c a @ split_on c b"
proof (induction a)
  case (Cons x a)
  have "split_on c a \<noteq> []" by (induction a) (auto split: list.splits)
  with Cons show ?case by (auto split: list.splits)
qed simp

lemma key_set_rotation:
  "set (ingest_api_key_set (old @ [44] @ new)) = set (ingest_api_key_set old) \<union> set (ingest_api_key_set new)"
  using split_on_append [of 44 old new] by (auto simp: ingest_api_key_set_def)



text \<open>A short key is logged whole.\<close>

lemma mask_leaks: "k \<noteq> [] \<Longrightarrow> length k \<le> 4 \<Longrightarrow> take (length k) (mask (Some k)) = k"
  by (simp add: mask_def)

end
