(* ===== verification/Log_Compression.thy ===== *)
theory Log_Compression
  imports Signal_Selector "HOL-Library.List_Lexorder"
begin

text \<open>
  The log part of \<open>app/services/bundle_compression.py\<close>: deduplication by template, the highlight section and
  the error counts. Drain (one miner per service) is the argument \<open>mine\<close>: the cluster and the template of the
  last of the messages a miner was fed. The baseline profile, a generated file, is an argument too.
\<close>

type_synonym miner = "pystr list \<Rightarrow> nat \<times> pystr"
type_synonym profile = "(pystr \<times> pystr \<times> pystr, int) dict"
type_synonym log_key = "pystr \<times> pystr \<times> nat"

definition nothing_text :: pystr where
  "nothing_text = [40, 50630, 51020, 41]"

definition newline :: pystr where "newline = [10]"
definition tab :: pystr where "tab = [9]"

definition or_unknown :: "pystr \<Rightarrow> pystr" where
  "or_unknown service = (if service = [] then lit ''?'' else service)"

section \<open>Groups\<close>

record log_group =
  lg_count :: nat
  lg_base :: nat
  lg_incid :: nat
  lg_first :: pystr
  lg_last :: pystr
  lg_sample :: pystr
  lg_template :: pystr

record graded_group = log_group +
  lg_baseline :: "int option"
  lg_surprise :: dbl

record log_record =
  lr_service :: pystr
  lr_level :: pystr
  lr_cluster :: nat
  lr_ts :: pystr
  lr_dt :: "datetime option"
  lr_raw :: pystr

definition add_line :: "'k \<Rightarrow> bool \<Rightarrow> modality_item \<Rightarrow> pystr \<Rightarrow> ('k, log_group) dict \<Rightarrow> ('k, log_group) dict" where
  "add_line key is_base item template groups =
     (case dget groups key of
        None \<Rightarrow> dset key \<lparr>lg_count = 1, lg_base = (if is_base then 1 else 0), lg_incid = (if is_base then 0 else 1),
                         lg_first = mi_timestamp item, lg_last = mi_timestamp item, lg_sample = mi_raw item,
                         lg_template = template\<rparr> groups
      | Some g \<Rightarrow> dset key (g\<lparr>lg_count := lg_count g + 1,
                             lg_base := (if is_base then lg_base g + 1 else lg_base g),
                             lg_incid := (if is_base then lg_incid g else lg_incid g + 1),
                             lg_last := mi_timestamp item\<rparr>) groups)"

fun group_loop :: "miner \<Rightarrow> datetime option \<Rightarrow> modality_item list \<Rightarrow> (pystr, pystr list) dict \<Rightarrow>
    (log_key, log_group) dict \<Rightarrow> log_record list \<Rightarrow> ((log_key, log_group) dict \<times> log_record list) res" where
  "group_loop mine trigger [] fed groups records = Inr (groups, records)"
| "group_loop mine trigger (item # items) fed groups records =
     (let service = mi_service item; level = level_of (mi_raw item);
          msgs = (case dget fed service of Some ms \<Rightarrow> ms | None \<Rightarrow> []) @ [mi_raw item];
          (cluster, template) = mine msgs
      in rbind (is_base_point trigger (mi_timestamp item)) (\<lambda>is_base.
           group_loop mine trigger items (dset service msgs fed)
             (add_line (service, level, cluster) is_base item template groups)
             (if trigger = None then records
              else records @ [\<lparr>lr_service = service, lr_level = level, lr_cluster = cluster,
                               lr_ts = mi_timestamp item, lr_dt = parse_ts (mi_timestamp item),
                               lr_raw = mi_raw item\<rparr>])))"

text \<open>\<open>a / b\<close> of two ints, rounded once.\<close>

definition int_div :: "int \<Rightarrow> int \<Rightarrow> dbl res" where
  "int_div a b = (if b = 0 then Inl ZeroDivisionError else Inr (round_dbl (of_int a / of_int b)))"

definition grade :: "profile \<Rightarrow> log_key \<times> log_group \<Rightarrow> (log_key \<times> graded_group) res" where
  "grade profile entry =
     (case entry of ((service, level, cluster), g) \<Rightarrow>
        let baseline = (if profile = [] then None else dget profile (service, level, lg_template g))
        in rbind (int_div (int (lg_incid g)) (int (lg_base g) + (case baseline of Some n \<Rightarrow> n | None \<Rightarrow> 0) + 1)) (\<lambda>s.
             Inr ((service, level, cluster), log_group.extend g \<lparr>lg_baseline = baseline, lg_surprise = s\<rparr>)))"

definition sort_groups :: "bool \<Rightarrow> (log_key \<times> graded_group) list \<Rightarrow> (log_key \<times> graded_group) list" where
  "sort_groups triggered groups =
     sort_key (\<lambda>((service, level, cluster), g).
       (if triggered then fl_neg (lg_surprise g) else Fin 0, level_rank level, - int (lg_count g))) groups"

section \<open>Text\<close>

definition span_of :: "graded_group \<Rightarrow> pystr" where
  "span_of g =
     (if lg_count g = 1 then short_ts (lg_first g)
      else short_ts (lg_first g) @ lit ''~'' @ short_ts (lg_last g))"

definition count_tag :: "bool \<Rightarrow> graded_group \<Rightarrow> pystr" where
  "count_tag has_profile g =
     lit ''base='' @ str_of_nat (lg_base g) @ lit '' incid='' @ str_of_nat (lg_incid g) @
     (if has_profile then lit '' baseline='' @
       str_of_int (case lg_baseline g of Some n \<Rightarrow> n | None \<Rightarrow> 0) else [])"

definition group_line :: "bool \<Rightarrow> log_key \<times> graded_group \<Rightarrow> pystr" where
  "group_line has_profile entry =
     (case entry of ((service, level, cluster), g) \<Rightarrow>
        or_unknown service @ tab @ level @ tab @ [215] @ str_of_nat (lg_count g) @ lit ''('' @
          count_tag has_profile g @
        lit '')'' @ tab @ span_of g @ tab @ lg_sample g)"

definition logs_header :: "bool \<Rightarrow> bool \<Rightarrow> nat \<Rightarrow> nat \<Rightarrow> pystr" where
  "logs_header has_profile triggered items groups =
     ([35, 32, 47196, 44536, 32, 54056, 53556] @ lit '' dedup ('') @ str_of_nat items @ [44148, 32, 8594, 32] @
       str_of_nat groups @ [54056, 53556, 44, 32] @
     (if triggered then [54217, 49548, 50752, 32, 45796, 47480, 32, 51221, 46020, 49692, 32, 51221,
       47148] else [47112, 48296, 183, 54943, 49688, 49692, 32, 51221, 47148]) @
     ([41, 32, 8212, 32, 49436, 48708, 49828] @ lit ''<TAB>'' @ [47112, 48296] @ lit ''<TAB>'' @ [54943,
       49688] @ lit ''(base='' @ [53944, 47532, 44144, 51060, 51204] @ lit ''/incid='' @ [51060, 54980]) @
     (if has_profile then (lit ''/baseline='' @ [51221, 49345, 50868, 50689, 32, 48156, 49373, 54943,
       49688]) else []) @
     (lit '')<TAB>'' @ [52572, 52488, 126, 52572, 54980] @ lit ''<TAB>'' @ [49368, 54540, 32, 50896, 47928])"

section \<open>The highlight\<close>

definition not_newline :: "nat \<Rightarrow> bool" where
  "not_newline c \<longleftrightarrow> c \<noteq> 10"

definition rx_lifecycle :: rx where
  "rx_lifecycle = Grp 1 (rx_alt [
     rx_seq [rx_word_ci ''starting the '', Many not_newline, rx_word_ci ''server''],
     rx_seq [rx_word_ci ''server '', Grp 2 (rx_alt [rx_word_ci ''started'', rx_word_ci ''starting'',
        rx_word_ci ''stopped'', rx_word_ci ''listening''])],
     rx_word_ci ''shutting down'', rx_word_ci ''shutdown'',
     rx_seq [rx_word_ci ''received sig'', Grp 3 (rx_alt [rx_word_ci ''kill'', rx_word_ci ''term''])],
     rx_word_ci ''out of memory'',
     rx_seq [WordB, rx_word_ci ''OOM'', WordB], rx_seq [WordB, rx_word_ci ''killed'', WordB],
     rx_seq [WordB, rx_word_ci ''panic'', WordB], rx_word_ci ''terminated'', rx_word_ci ''exiting''])"

definition is_lifecycle :: "graded_group \<Rightarrow> bool" where
  "is_lifecycle g \<longleftrightarrow> re_search rx_lifecycle (lg_template g) \<noteq> None \<or> re_search rx_lifecycle (lg_sample g) \<noteq> None"

definition trigger_window :: int where "trigger_window = 3"
definition highlight_cap :: nat where "highlight_cap = 8"

definition lifecycle_part :: "bool \<Rightarrow> (log_key \<times> graded_group) list \<Rightarrow> pystr list" where
  "lifecycle_part has_profile groups =
     (let life = sort_key (\<lambda>(k, g). (- int (lg_incid g), - int (lg_count g))) (filter (\<lambda>(k, g). is_lifecycle g) groups)
      in if life = [] then []
         else [str_join newline (([35, 35, 32, 51652, 50896, 32, 54980, 48372, 32, 8212, 32, 49436, 48708,
           49828] @ lit '' lifecycle('' @ [49884, 51089, 47, 51116, 49884, 51089, 47, 51333, 47308, 41, 32,
             47196, 44536]) #
                 map (group_line has_profile) (take highlight_cap life))])"

text \<open>\<open>abs((a - b).total_seconds()) <= 3.0\<close>, in microseconds.\<close>

definition is_near :: "datetime \<Rightarrow> log_record \<Rightarrow> bool res" where
  "is_near trigger r =
     (case lr_dt r of
        None \<Rightarrow> Inr False
      | Some dt \<Rightarrow> if (dt_tz dt = None) = (dt_tz trigger = None)
                   then Inr (\<bar>instant dt - instant trigger\<bar> \<le> trigger_window * 1000000) else Inl TypeError)"

fun near_records :: "datetime \<Rightarrow> log_record list \<Rightarrow> log_record list res" where
  "near_records trigger [] = Inr []"
| "near_records trigger (r # rs) =
     rbind (is_near trigger r) (\<lambda>near. rbind (near_records trigger rs) (\<lambda>ns. Inr (if near then r # ns else ns)))"

definition first_of_each :: "log_record list \<Rightarrow> log_record list" where
  "first_of_each rs =
     map snd (fold (\<lambda>r seen. if dget seen (lr_service r, lr_cluster r) = None
                             then dset (lr_service r, lr_cluster r) r seen else seen) rs [])"

definition record_line :: "log_record \<Rightarrow> pystr" where
  "record_line r = or_unknown (lr_service r) @ tab @ lr_level r @ tab @ short_ts (lr_ts r) @ tab @ lr_raw r"

definition trigger_part :: "datetime \<Rightarrow> modality list \<Rightarrow> log_record list \<Rightarrow> pystr list res" where
  "trigger_part trigger by records =
     (if Log \<in> set by then
        rbind (near_records trigger records) (\<lambda>near.
          let ded = sort_key (\<lambda>r. (level_rank (lr_level r), lr_ts r)) (first_of_each near)
          in Inr (if ded = [] then []
                  else [str_join newline
                          (([35, 35, 32, 51652, 50896, 32, 54980, 48372, 32, 8212, 32, 53944, 47532, 44144, 32,
                            49884, 44033, 40, 177] @ str_of_int trigger_window @ [115, 41, 32, 47196, 44536,
                              32, 91, 53944, 47532, 44144, 58, 32] @
                            str_join (lit '', '') (map modality_name by) @ lit '']'') #
                           map record_line (take highlight_cap ded))]))
      else Inr [])"

definition build_highlight :: "(log_key \<times> graded_group) list \<Rightarrow> log_record list \<Rightarrow> datetime option \<Rightarrow>
    modality list option \<Rightarrow> bool \<Rightarrow> pystr res" where
  "build_highlight groups records trigger by has_profile =
     (case trigger of
        None \<Rightarrow> Inr []
      | Some t \<Rightarrow>
          rbind (trigger_part t (case by of Some ms \<Rightarrow> ms | None \<Rightarrow> []) records) (\<lambda>near.
            let parts = lifecycle_part has_profile groups @ near
            in Inr (if parts = [] then []
                    else ([35, 32, 9660, 32, 51652, 50896, 32, 54980, 48372, 32, 54616, 51060, 46972, 51060,
                      53944] @ lit '' (surprise '' @ [51221, 47148, 44284, 32, 47924, 44288, 54616, 44172, 32,
                        48512, 44033, 32, 8212, 32, 52572, 50864, 49440, 32, 44160, 53664, 41, 10]) @
                         str_join newline parts)))"

section \<open>The whole\<close>

definition trigger_of :: "pystr option \<Rightarrow> datetime option" where
  "trigger_of tt = (case tt of Some s \<Rightarrow> if s = [] then None else parse_ts s | None \<Rightarrow> None)"

definition compress_logs :: "miner \<Rightarrow> profile \<Rightarrow> modality_item list \<Rightarrow> pystr option \<Rightarrow> modality list option \<Rightarrow> pystr res" where
  "compress_logs mine profile items tt by =
     (if items = [] then Inr nothing_text
      else let trigger = trigger_of tt; has_profile = profile \<noteq> []
           in rbind (group_loop mine trigger items [] [] []) (\<lambda>(groups, records).
              rbind (rmap (grade profile) groups) (\<lambda>graded.
              let body = str_join newline (logs_header has_profile (trigger \<noteq> None) (length items) (length graded) #
                           map (group_line has_profile) (sort_groups (trigger \<noteq> None) graded))
              in rbind (build_highlight graded records trigger by has_profile) (\<lambda>highlight.
                   Inr (if highlight = [] then body else highlight @ newline @ newline @ body)))))"

section \<open>Error counts\<close>

definition error_levels :: "pystr list" where
  "error_levels = [lit ''FATAL'', lit ''CRITICAL'', lit ''ERROR'']"

fun count_errors :: "modality_item list \<Rightarrow> (pystr, nat) dict \<Rightarrow> (pystr, nat) dict" where
  "count_errors [] counts = counts"
| "count_errors (item # items) counts =
     count_errors items
       (case re_search rx_level (mi_raw item) of
          Some m \<Rightarrow> if str_upper (hit_group 1 m) \<in> set error_levels
                    then dset (mi_service item) ((case dget counts (mi_service item) of Some n \<Rightarrow> n | None \<Rightarrow> 0) + 1) counts
                    else counts
        | None \<Rightarrow> counts)"

definition service_error_counts :: "ingest_bundle \<Rightarrow> (pystr, nat) dict" where
  "service_error_counts bundle = count_errors (b_logs bundle) []"

section \<open>No line is lost\<close>

text \<open>The group of each line.\<close>

fun line_keys :: "miner \<Rightarrow> modality_item list \<Rightarrow> (pystr, pystr list) dict \<Rightarrow> log_key list" where
  "line_keys mine [] fed = []"
| "line_keys mine (item # items) fed =
     (let msgs = (case dget fed (mi_service item) of Some ms \<Rightarrow> ms | None \<Rightarrow> []) @ [mi_raw item]
      in (mi_service item, level_of (mi_raw item), fst (mine msgs)) #
         line_keys mine items (dset (mi_service item) msgs fed))"

definition group_ok :: "'k list \<Rightarrow> ('k, log_group) dict \<Rightarrow> bool" where
  "group_ok ks groups \<longleftrightarrow> wf_dict groups \<and> set (dkeys groups) = set ks \<and>
     (\<forall>k g. dget groups k = Some g \<longrightarrow> lg_count g = count_list ks k \<and> lg_base g + lg_incid g = lg_count g)"

lemma group_ok_add:
  assumes "group_ok ks groups"
  shows "group_ok (ks @ [k]) (add_line k is_base item template groups)"
proof (cases "dget groups k")
  case None
  then have new: "k \<notin> set (dkeys groups)" by (simp add: map_of_eq_None_iff)
  then have "count_list ks k = 0" using assms by (simp add: group_ok_def)
  with None new assms show ?thesis
    by (auto simp: group_ok_def add_line_def dict_simps split: if_splits)
next
  case (Some g)
  then have "k \<in> set (dkeys groups)" by (metis dget_SomeD fst_conv image_eqI list.set_map)
  with Some assms show ?thesis
    by (auto simp: group_ok_def add_line_def dict_simps split: if_splits)
qed

lemma group_loop_ok:
  "group_ok ks groups \<Longrightarrow> group_loop mine trigger items fed groups records = Inr (groups', records') \<Longrightarrow>
     group_ok (ks @ line_keys mine items fed) groups'"
proof (induction mine trigger items fed groups records arbitrary: ks rule: group_loop.induct)
  case (2 mine trigger item items fed groups records)
  obtain cluster template where m: "mine ((case dget fed (mi_service item) of Some ms \<Rightarrow> ms | None \<Rightarrow> []) @ [mi_raw item]) =
      (cluster, template)" by fastforce
  let ?k = "(mi_service item, level_of (mi_raw item), cluster)"
  from 2(3) m obtain is_base where "is_base_point trigger (mi_timestamp item) = Inr is_base"
    by (auto simp: Let_def res_simps split: sum.splits)
  moreover have "group_ok (ks @ [?k]) (add_line ?k is_base item template groups)"
    by (rule group_ok_add [OF 2(2)])
  ultimately show ?case
    using 2(1) [OF refl refl refl m [symmetric] refl, of "ks @ [?k]" is_base] 2(3) m by (simp add: Let_def)
qed simp

lemma sum_counts:
  assumes "wf_dict d" and "\<And>k. f k = (case dget d k of None \<Rightarrow> 0 | Some g \<Rightarrow> lg_count g)" and "set ks \<subseteq> set (dkeys d)"
    and "\<And>k. f k = count_list ks k"
  shows "sum_list (map (\<lambda>(k, g). lg_count g) d) = length ks"
proof -
  have "sum_list (map (\<lambda>(k, g). lg_count g) d) = sum_list (map (\<lambda>(k, g). f k) d)"
    using assms(1,2) by (intro arg_cong [of _ _ sum_list] map_cong) (auto simp: dget_wf_iff [symmetric] split: option.splits)
  also have "\<dots> = sum_list (map f (dkeys d))" by (simp add: case_prod_beta' comp_def)
  also have "\<dots> = sum f (set (dkeys d))"
    using assms(1) unfolding wf_dict_def by (rule sum_list_distinct_conv_sum_set)
  also have "\<dots> = length ks" using assms(3,4) by (simp add: sum_count_set)
  finally show ?thesis .
qed

text \<open>C31. Deduplication loses no line: the groups are those of the lines, each group's count is the number of its
  lines, split exactly into lines before and from the trigger on, and the counts add up to all lines.\<close>

theorem log_groups_count:
  assumes "group_loop mine trigger items [] [] [] = Inr (groups, records)"
  shows "wf_dict groups \<and> set (dkeys groups) = set (line_keys mine items []) \<and>
    (\<forall>k g. dget groups k = Some g \<longrightarrow> lg_count g = count_list (line_keys mine items []) k \<and>
       lg_base g + lg_incid g = lg_count g) \<and>
    sum_list (map (\<lambda>(k, g). lg_count g) groups) = length items"
proof -
  let ?ks = "line_keys mine items []"
  have ok: "group_ok ?ks groups"
    using group_loop_ok [of "[]" "[]", OF _ assms] by (simp add: group_ok_def)
  have len: "length (line_keys mine items fed) = length items" for fed
    by (induction items arbitrary: fed) (simp_all add: Let_def)
  have "count_list ?ks k = (case dget groups k of None \<Rightarrow> 0 | Some g \<Rightarrow> lg_count g)" for k
  proof (cases "dget groups k")
    case None
    then have "k \<notin> set ?ks" using ok by (auto simp: group_ok_def map_of_eq_None_iff)
    then show ?thesis using None by simp
  next
    case (Some g)
    then have "lg_count g = count_list ?ks k" using ok unfolding group_ok_def by blast
    with Some show ?thesis by simp
  qed
  from sum_counts [of groups "count_list ?ks" ?ks, OF _ this] ok len [of "[]"] show ?thesis
    by (simp add: group_ok_def)
qed

theorem log_groups_count_witness:
  "\<exists>groups records. group_loop (\<lambda>ms. (0,
    last ms)) (trigger_of (Some (lit ''2026-07-24T02:33:24''))) sample_logs [] [] [] =
       Inr (groups, records) \<and> sum_list (map (\<lambda>(k, g). lg_count g) groups) = 3"
proof -
  have "case group_loop (\<lambda>ms. (0,
    last ms)) (trigger_of (Some (lit ''2026-07-24T02:33:24''))) sample_logs [] [] [] of
      Inr x \<Rightarrow> True | Inl e \<Rightarrow> False" by code_simp
  then obtain groups records where
    g: "group_loop (\<lambda>ms. (0,
      last ms)) (trigger_of (Some (lit ''2026-07-24T02:33:24''))) sample_logs [] [] [] = Inr (groups, records)"
    by (auto split: sum.splits)
  from log_groups_count [OF g] g show ?thesis by (simp add: length_sample_logs)
qed

text \<open>A service is a key exactly when it has a line at an error level, with the number of those lines.\<close>

definition is_error_line :: "modality_item \<Rightarrow> bool" where
  "is_error_line item \<longleftrightarrow> level_of (mi_raw item) \<in> set error_levels"

lemma error_line_iff:
  "(case re_search rx_level (mi_raw item) of Some m \<Rightarrow> str_upper (hit_group 1 m) \<in> set error_levels | None \<Rightarrow> False) =
     is_error_line item"
  by (auto simp: is_error_line_def level_of_def error_levels_def split: option.split)

lemma count_errors_step:
  "count_errors (item # items) counts =
     count_errors items (if is_error_line item
       then dset (mi_service item) ((case dget counts (mi_service item) of Some n \<Rightarrow> n | None \<Rightarrow> 0) + 1) counts else counts)"
  using error_line_iff [of item] by (auto split: option.split)

definition error_lines :: "modality_item list \<Rightarrow> pystr \<Rightarrow> nat" where
  "error_lines items service = length (filter (\<lambda>item. is_error_line item \<and> mi_service item = service) items)"

lemma count_errors_get:
  "dget (count_errors items counts) service =
     (let n = (case dget counts service of Some n \<Rightarrow> n | None \<Rightarrow> 0) + error_lines items service
      in if dget counts service = None \<and> error_lines items service = 0 then None else Some n)"
proof (induction items arbitrary: counts)
  case (Cons item items)
  show ?case
    by (simp add: count_errors_step Cons.IH error_lines_def Let_def dict_simps del: count_errors.simps split: option.splits)
qed (auto simp: error_lines_def split: option.split)

lemma error_counts_get:
  "dget (service_error_counts bundle) service =
     (if error_lines (b_logs bundle) service = 0 then None else Some (error_lines (b_logs bundle) service))"
  by (simp add: service_error_counts_def count_errors_get Let_def)

end
