(* ===== verification/Signal_Compression.thy ===== *)
theory Signal_Compression
  imports Log_Compression
begin

text \<open>
  The metric and trace parts of \<open>app/services/bundle_compression.py\<close>. Floats can be NaN here (JSON has it), and
  then \<open><\<close> is no order; what \<open>sorted\<close> does to such lists is given by the arguments \<open>nan_sorts\<close>.
\<close>

type_synonym scored = "dbl \<times> pystr \<times> pystr \<times> pystr"

record nan_sorts =
  ns_scored :: "scored list \<Rightarrow> scored list"
  ns_durations :: "dbl list \<Rightarrow> dbl list"
  ns_slowest :: "(modality_item \<times> dbl) list \<Rightarrow> (modality_item \<times> dbl) list"

definition fmt :: "dbl \<Rightarrow> pystr" where
  "fmt v = fmt_g 4 v"

text \<open>\<open>max\<close> and \<open>min\<close> keep the first value that no later one passes; \<open>max\<close> with a key likewise.\<close>

definition max_by :: "('a \<Rightarrow> dbl) \<Rightarrow> 'a list \<Rightarrow> 'a" where
  "max_by f xs = foldl (\<lambda>m x. if fl_less (f m) (f x) then x else m) (hd xs) (tl xs)"

definition min_of :: "dbl list \<Rightarrow> dbl" where
  "min_of xs = foldl (\<lambda>m x. if fl_less x m then x else m) (hd xs) (tl xs)"

section \<open>Metrics\<close>

type_synonym points = "(pystr \<times> dbl) list"

fun metric_loop :: "modality_item list \<Rightarrow> (pystr \<times> pystr, points) dict \<Rightarrow> modality_item list \<Rightarrow>
    ((pystr \<times> pystr, points) dict \<times> modality_item list) res" where
  "metric_loop [] series unparsed = Inr (series, unparsed)"
| "metric_loop (item # items) series unparsed =
     rbind (metric_pairs (mi_raw item)) (\<lambda>pairs.
       if pairs = [] then metric_loop items series (unparsed @ [item])
       else metric_loop items
              (fold (\<lambda>(label, value). dappend (mi_service item, label) (mi_timestamp item, value)) pairs series) unparsed)"

definition series_stats :: "dbl list \<Rightarrow> pystr" where
  "series_stats values =
     lit ''n='' @ str_of_nat (length values) @ lit '' mean='' @ fmt (fl_mean values) @
     lit '' min='' @ fmt (min_of values) @ lit '' max='' @ fmt (max_by (\<lambda>v. v) values)"

definition stats_text :: "points \<Rightarrow> pystr" where
  "stats_text pts = (if pts = [] then lit ''n=0'' else series_stats (map snd pts))"

definition is_deviant :: "dbl \<Rightarrow> dbl \<Rightarrow> dbl \<Rightarrow> bool" where
  "is_deviant mu sigma v \<longleftrightarrow>
     fl_less (fl_scale 3 sigma) (fl_abs (fl_sub v mu)) \<or> (fl_eq sigma (Fin 0) \<and> \<not> fl_eq v mu)"

definition point_text :: "pystr \<times> dbl \<Rightarrow> pystr" where
  "point_text p = fmt (snd p) @ lit ''@'' @ short_ts (fst p)"

text \<open>The anomaly column and the score: the largest deviation in units of \<open>sigma or 1.0\<close>.\<close>

definition anomaly_of :: "points \<Rightarrow> points \<Rightarrow> (pystr \<times> dbl) res" where
  "anomaly_of base incid =
     (if base = [] \<or> incid = [] then Inr (lit ''-'', Fin 0)
      else let mu = fl_mean (map snd base)
           in rbind (if 1 < length base then fl_pstdev (map snd base) else Inr (Fin 0)) (\<lambda>sigma.
                let deviants = filter (\<lambda>p. is_deviant mu sigma (snd p)) incid;
                    dist = (\<lambda>p. fl_abs (fl_sub (snd p) mu));
                    unit = (if fl_eq sigma (Fin 0) then 1 else fl_val sigma)
                in Inr (if deviants = [] then (lit ''-'', Fin 0)
                        else (lit ''onset='' @ point_text (hd deviants) @ lit '' peak='' @ point_text (max_by dist deviants),
                              max_by (\<lambda>s. s) (map (\<lambda>p. fl_scale (1 / unit) (dist p)) deviants)))))"

definition split_points :: "datetime option \<Rightarrow> points \<Rightarrow> (points \<times> points) res" where
  "split_points trigger pts =
     rbind (rmap (\<lambda>p. is_base_point trigger (fst p)) pts) (\<lambda>bs.
       Inr (map fst (filter snd (zip pts bs)), map fst (filter (\<lambda>(p, b). \<not> b) (zip pts bs))))"

definition score_series :: "datetime option \<Rightarrow> (pystr \<times> pystr) \<times> points \<Rightarrow> scored res" where
  "score_series trigger entry =
     (case entry of ((service, label), pts) \<Rightarrow>
        rbind (split_points trigger pts) (\<lambda>(base, incid).
        rbind (anomaly_of base incid) (\<lambda>(anomaly, score).
          Inr (score, or_unknown service, label,
               or_unknown service @ tab @ label @ tab @ lit ''base '' @ stats_text base @ tab @ lit ''incid '' @
               stats_text incid @ tab @ anomaly))))"

definition sort_scored :: "nan_sorts \<Rightarrow> scored list \<Rightarrow> scored list" where
  "sort_scored ns xs =
     (if NaN \<in> set (map fst xs) then ns_scored ns xs
      else sort_key (\<lambda>(score, service, label, line). (fl_neg score, service, label)) xs)"

definition metrics_header :: pystr where
  "metrics_header =
     [35, 32, 47700, 53944, 47533, 32, 49884, 47532, 51592, 32, 53685, 44228, 32, 40, 51060, 49345, 51216, 32,
       53356, 44592, 49692, 32, 51221, 47148, 32, 8212, 32, 49345, 50948, 44032, 32, 50896, 51064, 32, 54980, 48372, 41, 32, 8212, 32] @
     ([49436, 48708, 49828] @ lit ''<TAB>'' @ [46972, 48296] @ lit ''<TAB>baseline('' @ [53944, 47532, 44144,
       32, 51060, 51204] @ lit '')<TAB>incident('' @ [51060, 54980] @ lit '')<TAB>'' @ [51060, 49345, 51216])"

definition compress_metrics :: "nan_sorts \<Rightarrow> modality_item list \<Rightarrow> pystr \<Rightarrow> pystr res" where
  "compress_metrics ns items tt =
     (if items = [] then Inr nothing_text
      else rbind (metric_loop items [] []) (\<lambda>(series, unparsed).
           rbind (rmap (score_series (parse_ts tt)) series) (\<lambda>scored.
             Inr (str_join newline
               (metrics_header # map (\<lambda>(score, service, label, line). line) (sort_scored ns scored) @
                (if unparsed = [] then []
                 else [35, 32, 48120, 54028, 49905, 32, 50896, 47928, 32, 53685, 44284, 32, 8212, 32, 91,
                   49884, 44033, 93, 32, 50896, 47928] #
                      map (\<lambda>i. lit ''['' @ short_ts (mi_timestamp i) @ lit ''] '' @ mi_raw i) unparsed))))))"

section \<open>Traces\<close>

record span_group =
  sg_count :: nat
  sg_err :: nat
  sg_durations :: "dbl list"

type_synonym parsed_span = "modality_item \<times> dbl option \<times> bool"

definition add_span :: "dbl option \<Rightarrow> bool \<Rightarrow> span_group \<Rightarrow> span_group" where
  "add_span dur err g =
     g\<lparr>sg_count := sg_count g + 1, sg_err := sg_err g + (if err then 1 else 0),
       sg_durations := (case dur of None \<Rightarrow> sg_durations g | Some x \<Rightarrow> sg_durations g @
         [x])\<rparr>"

definition no_spans :: span_group where
  "no_spans = \<lparr>sg_count = 0, sg_err = 0, sg_durations = []\<rparr>"

definition bump :: "'k \<Rightarrow> ('k, nat) dict \<Rightarrow> ('k, nat) dict" where
  "bump k d = dset k ((case dget d k of Some n \<Rightarrow> n | None \<Rightarrow> 0) + 1) d"

fun parse_spans :: "modality_item list \<Rightarrow> (pystr \<times> parsed_span) list res" where
  "parse_spans [] = Inr []"
| "parse_spans (item # items) =
     rbind (span_fields (mi_raw item)) (\<lambda>(operation, dur, err).
     rbind (parse_spans items) (\<lambda>ps. Inr ((operation, item, dur, err) # ps)))"

definition aggregate :: "(pystr \<times> parsed_span) list \<Rightarrow> (pystr \<times> pystr, span_group) dict" where
  "aggregate ps =
     fold (\<lambda>(operation, item, dur, err) agg.
       dset (mi_service item, operation)
         (add_span dur err (case dget agg (mi_service item,
           operation) of Some g \<Rightarrow> g | None \<Rightarrow> no_spans)) agg) ps []"

definition minute_of :: "modality_item \<Rightarrow> pystr" where
  "minute_of item = take 5 (short_ts (mi_timestamp item))"

definition volumes :: "modality_item list \<Rightarrow> (pystr, (pystr, nat) dict) dict" where
  "volumes items =
     fold (\<lambda>item vol.
       dset (or_unknown (mi_service item))
         (bump (minute_of item) (case dget vol (or_unknown (mi_service item)) of Some d \<Rightarrow> d | None \<Rightarrow> [])) vol) items []"

text \<open>\<open>round\<close> of a float to an int goes to even at ties.\<close>

definition percentile :: "dbl list \<Rightarrow> rat \<Rightarrow> dbl" where
  "percentile sorted_values p =
     (let n = int (length sorted_values) - 1;
          idx = min n (max 0 (round_half_even (fl_val (fl_scale (fl_val (round_dbl p)) (Fin (of_int n))))))
      in sorted_values ! nat idx)"

definition sort_durations :: "nan_sorts \<Rightarrow> dbl list \<Rightarrow> dbl list" where
  "sort_durations ns ds = (if NaN \<in> set ds then ns_durations ns ds else sort ds)"

definition duration_text :: "nan_sorts \<Rightarrow> dbl list \<Rightarrow> pystr" where
  "duration_text ns durations =
     (if durations = [] then lit ''-''
      else let ds = sort_durations ns durations
           in fmt (percentile ds (1 / 2)) @ lit ''/'' @ fmt (percentile ds (95 / 100)) @ lit ''/'' @ fmt (last ds))"

definition span_line :: "nan_sorts \<Rightarrow> (pystr \<times> pystr) \<times> span_group \<Rightarrow> pystr" where
  "span_line ns entry =
     (case entry of ((service, operation), g) \<Rightarrow>
        or_unknown service @ tab @ operation @ tab @ [215] @ str_of_nat (sg_count g) @ tab @ lit ''err='' @
        str_of_nat (sg_err g) @ tab @ duration_text ns (sg_durations g))"

definition volume_line :: "pystr \<times> (pystr, nat) dict \<Rightarrow> pystr" where
  "volume_line entry =
     (case entry of (service, buckets) \<Rightarrow>
        service @ tab @ str_join (lit '' '') (map (\<lambda>(m, n). m @ lit ''='' @ str_of_nat n) (sort_key fst buckets)))"

definition exemplar_limit :: nat where "exemplar_limit = 3"

definition slowest :: "nan_sorts \<Rightarrow> parsed_span list \<Rightarrow> (modality_item \<times> dbl) list" where
  "slowest ns ps =
     (let timed = concat (map (\<lambda>(item, dur, err). case dur of Some x \<Rightarrow> [(item,
       x)] | None \<Rightarrow> []) ps)
      in take exemplar_limit
           (if NaN \<in> set (map snd timed) then ns_slowest ns timed else sort_key (\<lambda>(item, x). fl_neg x) timed))"

definition exemplars :: "nan_sorts \<Rightarrow> parsed_span list \<Rightarrow> modality_item list" where
  "exemplars ns ps =
     fold (\<lambda>item acc. if item \<in> set acc then acc else acc @ [item])
       (map fst (take exemplar_limit (filter (\<lambda>(item, dur, err). err) ps)) @ map fst (slowest ns ps)) []"

definition compress_traces :: "nan_sorts \<Rightarrow> modality_item list \<Rightarrow> pystr res" where
  "compress_traces ns items =
     (if items = [] then Inr nothing_text
      else rbind (parse_spans items) (\<lambda>ps.
        let ex = exemplars ns (map snd ps)
        in Inr (str_join newline
          (([35, 32, 53944, 47112, 51060, 49828, 32, 44396, 44036, 32, 51665, 44228, 32, 8212, 32, 49436,
            48708, 49828] @ lit ''<TAB>'' @ [50724, 54140, 47112, 51060, 49496] @ lit ''<TAB>'' @ [54840,
              52636] @ lit ''<TAB>'' @ [50640, 47084] @ lit ''<TAB>p50/p95/max(ms)'') #
           map (span_line ns) (sort_key (\<lambda>(k, g). (- int (sg_err g), - int (sg_count g))) (aggregate ps)) @
           [[35, 32, 49436, 48708, 49828, 48324, 32, 48380, 47464, 32, 53440, 51076, 46972, 51064, 40, 48516,
             41, 32, 8212, 32, 44553, 44048, 183, 49548, 49892, 32, 44396, 44036, 51060, 32, 44396, 51312, 51201, 32, 51109, 50528, 32, 49888, 54840]] @
           map volume_line (sort_key fst (volumes items)) @
           (if ex = [] then []
            else (lit ''# exemplar '' @ [50896, 47928, 40, 44032, 51109, 32, 45712, 47536, 47, 50640, 47084,
              32, 49828, 54060, 41, 32, 8212, 32, 91, 49884, 44033, 93, 32, 49436, 48708, 49828, 32, 50896, 47928]) #
                 map (\<lambda>i. lit ''['' @ short_ts (mi_timestamp i) @ lit ''] '' @
                   or_unknown (mi_service i) @ lit '' '' @
                           mi_raw i) ex)))))"

section \<open>Laws\<close>

text \<open>Writing one entry of a dictionary changes a total by the difference of that entry.\<close>

lemma total_dset:
  fixes h :: "'v \<Rightarrow> nat"
  assumes "wf_dict d"
  shows "sum_list (map (\<lambda>(k, v). h v) (dset k v d)) + (case dget d k of Some u \<Rightarrow> h u | None \<Rightarrow> 0) =
     sum_list (map (\<lambda>(k, v). h v) d) + h v"
  using assms
proof (induction d)
  case (Cons p d)
  then show ?case by (cases p) (auto simp: wf_dict_def map_of_eq_None_iff split: option.splits)
qed simp

definition totals :: "(pystr \<times> pystr, span_group) dict \<Rightarrow> (span_group \<Rightarrow> nat) \<Rightarrow> nat" where
  "totals agg h = sum_list (map (\<lambda>(k, g). h g) agg)"

definition add_to :: "(pystr \<times> pystr, span_group) dict \<Rightarrow> pystr \<times> parsed_span \<Rightarrow> (pystr \<times> pystr, span_group) dict" where
  "add_to agg p =
     (case p of (operation, item, dur, err) \<Rightarrow>
       dset (mi_service item, operation)
         (add_span dur err (case dget agg (mi_service item, operation) of Some g \<Rightarrow> g | None \<Rightarrow> no_spans)) agg)"

lemma aggregate_fold: "aggregate ps = fold (\<lambda>p agg. add_to agg p) ps []"
  by (simp add: aggregate_def add_to_def case_prod_beta')

definition n_durations :: "span_group \<Rightarrow> nat" where
  "n_durations g = length (sg_durations g)"

definition is_err :: "pystr \<times> parsed_span \<Rightarrow> bool" where
  "is_err p = snd (snd (snd p))"

definition is_timed :: "pystr \<times> parsed_span \<Rightarrow> bool" where
  "is_timed p \<longleftrightarrow> fst (snd (snd p)) \<noteq> None"

lemma add_to_totals:
  assumes "wf_dict agg"
  shows "wf_dict (add_to agg p)" and "totals (add_to agg p) sg_count = totals agg sg_count + 1"
    and "totals (add_to agg p) sg_err = totals agg sg_err + (if is_err p then 1 else 0)"
    and "totals (add_to agg p) n_durations = totals agg n_durations + (if is_timed p then 1 else 0)"
proof -
  obtain operation item dur err where p: "p = (operation, item, dur, err)" by (cases p) auto
  let ?k = "(mi_service item, operation)"
  let ?g = "case dget agg ?k of Some g \<Rightarrow> g | None \<Rightarrow> no_spans"
  have add: "add_to agg p = dset ?k (add_span dur err ?g) agg" by (simp add: add_to_def p)
  show "wf_dict (add_to agg p)" using assms by (simp add: add dict_simps)
  have e: "is_err p = err" "is_timed p \<longleftrightarrow> dur \<noteq> None" by (simp_all add: is_err_def is_timed_def p)
  note t = total_dset [OF assms, of _ ?k "add_span dur err ?g"]
  show "totals (add_to agg p) sg_count = totals agg sg_count + 1"
    using t [of sg_count] by (cases "dget agg ?k") (simp_all add: totals_def add add_span_def no_spans_def)
  show "totals (add_to agg p) sg_err = totals agg sg_err + (if is_err p then 1 else 0)"
    using t [of sg_err] by (cases "dget agg ?k") (simp_all add: totals_def add add_span_def no_spans_def e)
  show "totals (add_to agg p) n_durations = totals agg n_durations + (if is_timed p then 1 else 0)"
    using t [of n_durations]
    by (cases "dget agg ?k") (auto simp: totals_def add add_span_def no_spans_def n_durations_def e split: option.splits)
qed

lemma fold_add_totals:
  "wf_dict agg \<Longrightarrow> (let agg' = fold (\<lambda>p agg. add_to agg p) ps agg in
     totals agg' sg_count = totals agg sg_count + length ps \<and>
     totals agg' sg_err = totals agg sg_err + length (filter is_err ps) \<and>
     totals agg' n_durations = totals agg n_durations + length (filter is_timed ps))"
proof (induction ps arbitrary: agg)
  case (Cons p ps)
  from Cons.IH [OF add_to_totals(1) [OF Cons.prems, of p]] add_to_totals(2-4) [OF Cons.prems, of p]
  show ?case by (simp add: Let_def)
qed simp

lemma length_parse_spans: "parse_spans items = Inr ps \<Longrightarrow> length ps = length items \<and> map (fst \<circ> snd) ps = items"
  by (induction items arbitrary: ps) (auto simp: res_simps split: sum.splits)

text \<open>The trace aggregation counts every span once: over all groups, the calls add up to the items, the errors
  to the spans judged as errors, and the durations listed to the spans that have one.\<close>

theorem trace_totals:
  assumes "parse_spans items = Inr ps"
  shows "totals (aggregate ps) sg_count = length items \<and>
    totals (aggregate ps) sg_err = length (filter is_err ps) \<and>
    totals (aggregate ps) n_durations = length (filter is_timed ps) \<and>
    map (fst \<circ> snd) ps = items"
  using fold_add_totals [of "[]" ps] length_parse_spans [OF assms]
  by (simp add: aggregate_fold totals_def Let_def)

theorem trace_totals_witness:
  "\<exists>ps. parse_spans sample_logs = Inr ps \<and> totals (aggregate ps) sg_count = 3"
proof -
  have "case parse_spans sample_logs of Inr x \<Rightarrow> True | Inl e \<Rightarrow> False" by code_simp
  then obtain ps where ps: "parse_spans sample_logs = Inr ps" by (auto split: sum.splits)
  from trace_totals [OF ps] ps show ?thesis by (simp add: length_sample_logs)
qed

text \<open>A percentile is one of the values: for a sorted, non-empty list of durations it lies between the least
  and the greatest, whatever \<open>p\<close> is (the index is clamped).\<close>

theorem percentile_in_range:
  assumes "ds \<noteq> []" and "sorted ds"
  shows "percentile ds p \<in> set ds \<and> hd ds \<le> percentile ds p \<and> percentile ds p \<le> last ds"
proof -
  let ?n = "int (length ds) - 1"
  let ?i = "nat (min ?n (max 0 (round_half_even (fl_val (fl_scale (fl_val (round_dbl p)) (Fin (of_int ?n)))))))"
  have i: "?i < length ds" using assms(1) by (cases ds) auto
  have v: "percentile ds p = ds ! ?i" by (simp add: percentile_def Let_def)
  have "hd ds \<le> ds ! ?i" using assms i by (simp add: hd_conv_nth sorted_nth_mono)
  moreover have "ds ! ?i \<le> last ds" using assms i by (simp add: last_conv_nth sorted_nth_mono)
  ultimately show ?thesis unfolding v using i by simp
qed

theorem percentile_in_range_witness: "percentile [Fin 1, Fin 2, Fin 5] (95 / 100) \<in> {Fin 1, Fin 2, Fin 5}"
proof -
  have "sorted [Fin 1, Fin 2, Fin 5]" by code_simp
  with percentile_in_range [of "[Fin 1, Fin 2, Fin 5]" "95 / 100"] show ?thesis by simp
qed

lemma fold_dedup:
  "distinct acc \<Longrightarrow> (let r = fold (\<lambda>item acc. if item \<in> set acc then acc else acc @
    [item]) xs acc in
     distinct r \<and> set r = set acc \<union> set xs \<and> length r \<le> length acc + length xs)"
proof (induction xs arbitrary: acc)
  case (Cons x xs)
  show ?case using Cons.IH [of "if x \<in> set acc then acc else acc @ [x]"] Cons.prems by (auto simp: Let_def)
qed simp

text \<open>At most six exemplars, none twice.\<close>

lemma exemplars_bounded: "distinct (exemplars ns ps) \<and> length (exemplars ns ps) \<le> 6"
proof -
  let ?xs = "map fst (take exemplar_limit (filter (\<lambda>(item, dur, err). err) ps)) @ map fst (slowest ns ps)"
  have "length ?xs \<le> 6" by (simp add: slowest_def exemplar_limit_def Let_def)
  then show ?thesis using fold_dedup [of "[]" ?xs] by (simp add: exemplars_def Let_def)
qed

end
