(* ===== verification/Bundle_Parser.thy ===== *)
theory Bundle_Parser
  imports Signal_Compression
begin

text \<open>
  What an agent is told of a bundle: the interval lines and the parser outputs of
  \<open>app/services/bundle_parser.py\<close>, and the truncation and the user message of \<open>app/agents/llm.py\<close> and
  \<open>modality_agents.py\<close>.
\<close>

section \<open>Intervals\<close>

definition rx_date :: rx where
  "rx_date = rx_seq [rx_times 4 is_digit, rx_chr 45, Grp 1 (rx_seq [rx_times 2 is_digit, rx_chr 45,
    rx_times 2 is_digit])]"

definition date_of :: "pystr \<Rightarrow> pystr option" where
  "date_of ts = map_option (hit_group 1) (re_search rx_date ts)"

definition fmt_range :: "pystr \<Rightarrow> pystr \<Rightarrow> pystr" where
  "fmt_range s e =
     (case (date_of s, date_of e) of
        (Some ds, Some de) \<Rightarrow>
          if ds \<noteq> [] \<and> de \<noteq> [] \<and> ds \<noteq> de
          then ds @ lit '' '' @ short_ts s @ lit '' ~ '' @ de @ lit '' '' @ short_ts e
          else short_ts s @ lit '' ~ '' @ short_ts e
      | _ \<Rightarrow> short_ts s @ lit '' ~ '' @ short_ts e)"

definition nonempty :: "pystr option \<Rightarrow> bool" where
  "nonempty t = (case t of None \<Rightarrow> False | Some s \<Rightarrow> s \<noteq> [])"

definition count_part :: "int option \<Rightarrow> int option \<Rightarrow> pystr list" where
  "count_part recorded wanted =
     (case (recorded, wanted) of
        (Some r, Some t) \<Rightarrow> [str_of_int r @ lit ''/'' @ str_of_int t @ [44148]]
      | (Some r, None) \<Rightarrow> [str_of_int r @ [44148]]
      | (None, Some t) \<Rightarrow> [[50896, 48376, 32] @ str_of_int t @ [44148]]
      | (None, None) \<Rightarrow> [])"

definition render_interval :: "modality_interval \<Rightarrow> pystr" where
  "render_interval iv =
     (let range = (if nonempty (iv_start iv) \<and> nonempty (iv_end iv)
                   then fmt_range (the (iv_start iv)) (the (iv_end iv)) else [49884, 44036, 32, 48120, 49345])
      in str_join (lit '' '')
           ([lit ''['' @ range @ lit '']''] @
            (if iv_fileName iv \<noteq> [] then [iv_fileName iv] else []) @
            (case iv_status iv of Some s \<Rightarrow> if s \<noteq> [] then [lit ''status='' @
              s] else [] | None \<Rightarrow> []) @
            count_part (iv_record_count iv) (iv_total_count iv)))"

definition interval_summary :: "modality_interval list \<Rightarrow> pystr" where
  "interval_summary ivs = (if ivs = [] then nothing_text else str_join newline (map render_interval ivs))"

section \<open>Parsing for an agent\<close>

record parsed =
  p_window_start :: pystr
  p_window_end :: pystr
  p_trigger_time :: pystr
  p_triggered_by :: "modality list"
  p_intervals :: pystr
  p_data :: pystr

definition parsed_of :: "ingest_bundle \<Rightarrow> modality_interval list \<Rightarrow> pystr \<Rightarrow> parsed" where
  "parsed_of b ivs data =
     \<lparr>p_window_start = win_start (b_window b), p_window_end = win_end (b_window b),
      p_trigger_time = trigger_time (b_trigger b), p_triggered_by = triggered_by (b_trigger b),
      p_intervals = interval_summary ivs, p_data = data\<rparr>"

definition parse_for_log_agent :: "miner \<Rightarrow> profile \<Rightarrow> ingest_bundle \<Rightarrow> parsed res" where
  "parse_for_log_agent mine profile b =
     rbind (compress_logs mine profile (b_logs b) (Some (trigger_time (b_trigger b))) (Some (triggered_by (b_trigger b))))
       (\<lambda>data. Inr (parsed_of b (info_log (b_info b)) data))"

definition parse_for_metric_agent :: "nan_sorts \<Rightarrow> ingest_bundle \<Rightarrow> parsed res" where
  "parse_for_metric_agent ns b =
     rbind (compress_metrics ns (b_metrics b) (trigger_time (b_trigger b)))
       (\<lambda>data. Inr (parsed_of b (info_metric (b_info b)) data))"

definition parse_for_trace_agent :: "nan_sorts \<Rightarrow> ingest_bundle \<Rightarrow> parsed res" where
  "parse_for_trace_agent ns b =
     rbind (compress_traces ns (b_traces b)) (\<lambda>data. Inr (parsed_of b (info_trace (b_info b)) data))"

section \<open>Truncation\<close>

definition truncation_notice :: pystr where
  "truncation_notice = (lit ''[... '' @ [51077, 47141, 32, 49345, 54620, 32, 52488, 44284, 47196, 32, 51060,
    32, 51648, 51216, 51032, 32, 45936, 51060, 53552, 44032, 32, 51208, 45800, 46120] @ lit '' ...]'')"

definition find_focus :: "pystr \<Rightarrow> pystr option \<Rightarrow> nat" where
  "find_focus text tt =
     (case (case tt of None \<Rightarrow> None | Some t \<Rightarrow> if t = [] then None else re_search rx_hms t) of
        None \<Rightarrow> length text div 2
      | Some m \<Rightarrow> (case str_find (hit_text m) text of Some i \<Rightarrow> i | None \<Rightarrow> length text div 2))"

text \<open>Where the kept part begins and ends.\<close>

definition kept_budget :: "int \<Rightarrow> int" where
  "kept_budget limit = max 1 (limit - 2 * (int (length truncation_notice) + 2))"

definition kept_bounds :: "pystr \<Rightarrow> int \<Rightarrow> pystr option \<Rightarrow> int \<times> int" where
  "kept_bounds text limit tt =
     (let budget = kept_budget limit;
          s = max 0 (int (find_focus text tt) - budget div 2);
          e = min (int (length text)) (s + budget)
      in (max 0 (e - budget), e))"

definition truncate_input :: "int \<Rightarrow> pystr \<Rightarrow> int option \<Rightarrow> pystr option \<Rightarrow> pystr" where
  "truncate_input max_input_chars text max_chars tt =
     (let limit = (case max_chars of Some n \<Rightarrow> n | None \<Rightarrow> max_input_chars)
      in if int (length text) \<le> limit then text
         else case kept_bounds text limit tt of
                (s, e) \<Rightarrow> str_join newline
                  ((if 0 < s then [truncation_notice] else []) @
                   [take (nat (e - s)) (drop (nat s) text)] @
                   (if e < int (length text) then [truncation_notice] else [])))"

section \<open>The user message\<close>

definition names_or_none :: "modality list \<Rightarrow> pystr" where
  "names_or_none ms =
     (let t = str_join (lit '', '') (map modality_name ms) in if t = [] then nothing_text else t)"

definition build_user_message :: "int \<Rightarrow> modality \<Rightarrow> parsed \<Rightarrow> pystr" where
  "build_user_message max_input_chars m p =
     [35, 35, 32, 48516, 49437, 32, 45824, 49345, 32, 47784, 45804, 47532, 54000, 58, 32] @ modality_name m @
       newline @
     [45, 32, 50952, 46020, 58, 32] @ p_window_start p @ lit '' ~ '' @ p_window_end p @ newline @
     [45, 32, 53944, 47532, 44144, 32, 49884, 44033, 58, 32] @ p_trigger_time p @ newline @
     [45, 32, 53944, 47532, 44144, 32, 47784, 45804, 47532, 54000, 58, 32] @ names_or_none (p_triggered_by p) @
       newline @
     newline @ [35, 35, 32, 49688, 51665, 32, 44396, 44036, 32, 49345, 53468, 32, 40, 52280, 44256, 41] @
       newline @ p_intervals p @ newline @
     newline @ [35, 35, 32, 45936, 51060, 53552, 32, 40, 50517, 52629, 32, 54364, 54788, 41] @ newline @
     truncate_input max_input_chars (p_data p) None (Some (p_trigger_time p))"

section \<open>Truncation is bounded\<close>

lemma length_notice: "length truncation_notice = 34"
  by (simp add: truncation_notice_def)

lemma kept_bounds_range:
  assumes "kept_bounds text limit tt = (s, e)"
  shows "0 \<le> s \<and> s \<le> e \<and> e \<le> int (length text) \<and> e - s \<le> kept_budget limit \<and>
    (kept_budget limit \<le> int (length text) \<longrightarrow> e - s = kept_budget limit)"
proof -
  let ?b = "kept_budget limit" and ?n = "int (length text)"
  let ?s = "max 0 (int (find_focus text tt) - ?b div 2)"
  have b: "1 \<le> ?b" by (simp add: kept_budget_def)
  have "(max 0 (min ?n (?s + ?b) - ?b), min ?n (?s + ?b)) = (s, e)"
    using assms unfolding kept_bounds_def Let_def .
  then have e: "e = min ?n (?s + ?b)" and s: "s = max 0 (e - ?b)" by blast+
  have "0 \<le> ?s" and "0 \<le> ?n" by simp_all
  with b e s have "0 \<le> e" "e \<le> ?n" "0 \<le> s" "s \<le> e" "e - s \<le> ?b" and "?b \<le> ?n \<Longrightarrow> ?b \<le> e"
    by linarith+
  then show ?thesis using s by auto
qed

lemma str_join_piece: "\<exists>pre post. str_join sep (xs @ k # ys) = pre @ k @ post"
proof (induction xs)
  case Nil
  show ?case by (cases ys) (auto intro: exI [of _ "[]"])
next
  case (Cons x xs)
  then obtain pre post where ih: "str_join sep (xs @ k # ys) = pre @ k @ post" by blast
  obtain z zs where z: "xs @ k # ys = z # zs" by (cases xs) auto
  have "str_join sep ((x # xs) @ k # ys) = (x @ sep @ pre) @ k @ post"
    using ih z by simp
  then show ?case by blast
qed

text \<open>C32. The last line of defence holds: what \<open>truncate_input\<close> returns fits the limit whenever the limit leaves
  room for the two notices; a text within the limit is returned as it is, and of a longer one a contiguous
  piece is kept that is as long as the budget allows.\<close>

theorem truncated_input_fits:
  assumes "limit = (case max_chars of Some n \<Rightarrow> n | None \<Rightarrow> max_input_chars)" and "73 \<le> limit"
  shows "int (length (truncate_input max_input_chars text max_chars tt)) \<le> limit \<and>
    (int (length text) \<le> limit \<longrightarrow> truncate_input max_input_chars text max_chars tt = text) \<and>
    (limit < int (length text) \<longrightarrow> (\<exists>pre kept post before after. text = before @ kept @ after \<and>
       truncate_input max_input_chars text max_chars tt = pre @ kept @ post \<and> int (length kept) = kept_budget limit))"
proof (cases "int (length text) \<le> limit")
  case True
  then show ?thesis using assms(1) by (simp add: truncate_input_def Let_def)
next
  case False
  obtain s e where b: "kept_bounds text limit tt = (s, e)" by fastforce
  note r = kept_bounds_range [OF b]
  let ?kept = "take (nat (e - s)) (drop (nat s) text)"
  have budget: "kept_budget limit = limit - 72" using assms(2) by (simp add: kept_budget_def length_notice)
  have "nat (e - s) \<le> length text - nat s" using r by linarith
  then have len: "length ?kept = nat (e - s)" by simp
  have t: "truncate_input max_input_chars text max_chars tt = str_join newline
      ((if 0 < s then [truncation_notice] else []) @ [?kept] @
        (if e < int (length text) then [truncation_notice] else []))"
    using False assms(1) b by (simp add: truncate_input_def Let_def)
  have "text = take (nat s) text @ ?kept @ drop (nat (e - s)) (drop (nat s) text)"
    by (metis append_take_drop_id)
  moreover have "\<exists>pre post. truncate_input max_input_chars text max_chars tt = pre @ ?kept @ post"
    unfolding t append_Cons append_Nil by (rule str_join_piece)
  moreover have "int (length ?kept) = kept_budget limit" using r budget False len by simp
  moreover have "int (length (truncate_input max_input_chars text max_chars tt)) \<le> limit"
    unfolding t using r budget len by (auto simp: length_notice newline_def)
  ultimately show ?thesis using False by blast
qed

theorem truncated_input_fits_witness:
  "int (length (truncate_input 12000 (replicate 100 65) (Some 80) None)) \<le> 80 \<and>
   (\<exists>kept pre post. truncate_input 12000 (replicate 100 65) (Some 80) None = pre @ kept @ post \<and>
      int (length kept) = kept_budget 80)"
  using truncated_input_fits [of 80 12000 "Some 80" "replicate 100 65" None] by auto

end
