(* ===== verification/Agents.thy ===== *)
theory Agents
  imports Bundle_Parser Spring_Client
begin

text \<open>
  The RCA agents of \<open>app/agents\<close>: prompts, the chat client's settings, the router with its guardrails, the
  modality nodes, the report and its assembly, and the graph that runs them. What the language model answers
  to a call is an argument (an answer of the requested schema, or an exception); so are the prompt files and
  pydantic's compact JSON text. Here the graph is the composition of its
  nodes; that every schedule of it comes to the same is shown in \<open>Agent_Graph\<close>.
\<close>

section \<open>Calls\<close>

datatype depth = Deep | Scan

fun depth_name :: "depth \<Rightarrow> pystr" where
  "depth_name Deep = lit ''deep''"
| "depth_name Scan = lit ''scan''"

datatype effort = Low | Medium | High

record llm_settings =
  model_report :: pystr
  model_analysis :: pystr
  model_light :: pystr
  api_key :: pystr
  max_retries :: int
  max_input_chars :: int
  timeout_low :: int
  timeout_medium :: int
  timeout_high :: int

fun timeout_for :: "llm_settings \<Rightarrow> effort \<Rightarrow> int" where
  "timeout_for s Low = timeout_low s"
| "timeout_for s Medium = timeout_medium s"
| "timeout_for s High = timeout_high s"

record chat =
  ch_model :: pystr
  ch_key :: pystr
  ch_effort :: effort
  ch_retries :: int
  ch_timeout :: int

definition make_llm :: "llm_settings \<Rightarrow> pystr \<Rightarrow> effort \<Rightarrow> chat" where
  "make_llm s model effort =
     \<lparr>ch_model = model, ch_key = api_key s, ch_effort = effort, ch_retries = max_retries s,
      ch_timeout = timeout_for s effort\<rparr>"

record call =
  call_chat :: chat
  call_system :: pystr
  call_user :: pystr

definition prompt_names :: "pystr list" where
  "prompt_names = [lit ''router'', lit ''scan'', lit ''log'', lit ''metric'', lit ''trace'', lit ''report'']"

definition unknown_prompt :: "pystr \<Rightarrow> exc" where
  "unknown_prompt name =
     ValueError ([50508, 32, 49688, 32, 50630, 45716, 32, 54532, 47212, 54532, 53944, 58, 32] @ repr_str name @
       [32, 40, 54728, 50857, 58, 32, 40] @
       str_join (lit '', '') (map repr_str prompt_names) @ lit ''))'')"

definition load_prompt :: "(pystr \<Rightarrow> pystr res) \<Rightarrow> pystr \<Rightarrow> pystr res" where
  "load_prompt read name =
     (if name \<notin> set prompt_names then Inl (unknown_prompt name)
      else rbind (read (lit ''_common.md'')) (\<lambda>common. rbind (read (name @ lit ''.md'')) (\<lambda>body.
             Inr (str_strip is_space common @ newline @ newline @ str_strip is_space body))))"

section \<open>The router\<close>

record route_decision =
  rd_log :: depth
  rd_metric :: depth
  rd_trace :: depth
  rd_reason :: pystr

type_synonym routes = "(modality, depth) dict"

definition modalities :: "modality list" where
  "modalities = [Log, Metric, Trace]"

fun decided :: "route_decision \<Rightarrow> modality \<Rightarrow> depth" where
  "decided d Log = rd_log d"
| "decided d Metric = rd_metric d"
| "decided d Trace = rd_trace d"

definition count_text :: "pystr \<Rightarrow> nat \<Rightarrow> modality_interval list \<Rightarrow> pystr" where
  "count_text name received ivs =
     (let ts = concat (map (\<lambda>iv. case iv_total_count iv of Some t \<Rightarrow> [t] | None \<Rightarrow> []) ivs)
      in name @ lit ''='' @ str_of_nat received @
         (if ts = [] then [] else [32, 40, 50896, 48376, 32] @ str_of_int (sum_list ts) @ [32, 51473, 32,
           49688, 51665, 41]))"

definition interval_lines :: "modality_interval list \<Rightarrow> pystr" where
  "interval_lines ivs = (if ivs = [] then nothing_text else str_join (lit ''; '') (map render_interval ivs))"

definition build_router_message :: "ingest_bundle \<Rightarrow> pystr" where
  "build_router_message b =
     (let info = b_info b;
          counts = str_join (lit '', '')
            [count_text (lit ''log'') (length (b_logs b)) (info_log info),
             count_text (lit ''metric'') (length (b_metrics b)) (info_metric info),
             count_text (lit ''trace'') (length (b_traces b)) (info_trace info)]
      in [45, 32, 50952, 46020, 58, 32] @ win_start (b_window b) @ lit '' ~ '' @ win_end (b_window b) @ newline @
         [45, 32, 53944, 47532, 44144, 32, 49884, 44033, 58, 32] @ trigger_time (b_trigger b) @ newline @
         ([45, 32, 53944, 47532, 44144, 32, 47784, 45804, 47532, 54000] @ lit ''(triggered_by): '') @
           names_or_none (triggered_by (b_trigger b)) @ newline @
         [45, 32, 44148, 49688, 58, 32] @ counts @ newline @
         (lit ''- log '' @ [44396, 44036, 58, 32]) @ interval_lines (info_log info) @ newline @
         (lit ''- metric '' @ [44396, 44036, 58, 32]) @ interval_lines (info_metric info) @ newline @
         (lit ''- trace '' @ [44396, 44036, 58, 32]) @ interval_lines (info_trace info))"

definition llm_router :: "llm_settings \<Rightarrow> (pystr \<Rightarrow> pystr res) \<Rightarrow> (call \<Rightarrow> route_decision res) \<Rightarrow> ingest_bundle \<Rightarrow>
    route_decision res" where
  "llm_router s read ask b =
     rbind (load_prompt read (lit ''router'')) (\<lambda>sys.
       ask \<lparr>call_chat = make_llm s (model_light s) Low, call_system = sys, call_user = build_router_message b\<rparr>)"

text \<open>The fallback when the router fails, then the promotions.\<close>

definition route_with_guardrails :: "route_decision res \<Rightarrow> ingest_bundle \<Rightarrow> routes" where
  "route_with_guardrails decision b =
     fold (\<lambda>m routes. dset m Deep routes) (triggered_by (b_trigger b))
       (case decision of
          Inr d \<Rightarrow> map (\<lambda>m. (m, decided d m)) modalities
        | Inl e \<Rightarrow> map (\<lambda>m. (m, Deep)) modalities)"

section \<open>The modality agents\<close>

definition tag_source :: "modality \<Rightarrow> depth \<Rightarrow> 'a log_evidence_scheme \<Rightarrow> 'a log_evidence_scheme" where
  "tag_source m d ev =
     (if ev_source ev = None
      then ev\<lparr>ev_source := Some (modality_name m @ lit ''-agent('' @ depth_name d @ lit '')'')\<rparr> else ev)"

definition modality_agent :: "llm_settings \<Rightarrow> (pystr \<Rightarrow> pystr res) \<Rightarrow> modality \<Rightarrow> (ingest_bundle \<Rightarrow> parsed res) \<Rightarrow>
    (call \<Rightarrow> 'a log_evidence_scheme res) \<Rightarrow> depth \<Rightarrow> ingest_bundle \<Rightarrow> 'a log_evidence_scheme res" where
  "modality_agent s read m parse ask d b =
     rbind (parse b) (\<lambda>p.
     rbind (load_prompt read (if d = Deep then modality_name m else lit ''scan'')) (\<lambda>sys.
     rbind (ask \<lparr>call_chat = make_llm s (if d = Deep then model_analysis s else model_light s)
                             (if d = Deep then Medium else Low),
                 call_system = sys, call_user = build_user_message (max_input_chars s) m p\<rparr>) (\<lambda>ev.
       Inr (tag_source m d ev))))"

definition code_source :: "modality \<Rightarrow> pystr" where
  "code_source m = modality_name m @ lit ''-agent(code)''"

definition code_log_evidence :: "modality \<Rightarrow> pystr \<Rightarrow> log_evidence" where
  "code_log_evidence m conclusion = \<lparr>ev_conclusion = conclusion, ev_source = Some (code_source m)\<rparr>"

definition code_trace_evidence :: "modality \<Rightarrow> pystr \<Rightarrow> trace_evidence" where
  "code_trace_evidence m conclusion =
     \<lparr>ev_conclusion = conclusion, ev_source = Some (code_source m), ev_origin_service = None\<rparr>"

definition no_data_text :: "modality \<Rightarrow> pystr" where
  "no_data_text m = modality_name m @ [32, 45936, 51060, 53552, 32, 50630, 51020, 32, 8212, 32, 48516, 49437,
    32, 49373, 47029]"

definition failed_text :: "pystr \<Rightarrow> pystr" where
  "failed_text why = [48516, 49437, 32, 49892, 54056, 32, 8212, 32] @ why"

text \<open>Without items the agent is not called; a failing agent becomes an evidence that says so.\<close>

definition modality_node :: "(exc \<Rightarrow> pystr) \<Rightarrow> modality \<Rightarrow> (modality \<Rightarrow> pystr \<Rightarrow> 'e) \<Rightarrow> modality_item list \<Rightarrow> routes \<Rightarrow>
    (depth \<Rightarrow> 'e res) \<Rightarrow> 'e res" where
  "modality_node text m code items routes agent =
     (if items = [] then Inr (code m (no_data_text m))
      else case dget routes m of
             None \<Rightarrow> Inl KeyError
           | Some d \<Rightarrow> (case agent d of Inr ev \<Rightarrow> Inr ev | Inl e \<Rightarrow> Inr (code m (failed_text (text e)))))"

section \<open>The report\<close>

record report_draft =
  rp_type :: pystr
  rp_severity :: pystr
  rp_service :: pystr
  rp_rca :: rca
  rp_summary :: summary
  rp_impact :: impact
  rp_actions :: actions

definition liveness_rank :: "pystr \<Rightarrow> nat" where
  "liveness_rank st =
     (if st = lit ''data'' then 3 else if st = lit ''empty'' then 2 else if st = lit ''missing'' then 1 else 0)"

definition strip_suffix :: "pystr \<Rightarrow> pystr \<Rightarrow> pystr" where
  "strip_suffix suf name = (if ends_with (str_lower name) suf then take (length name - length suf) name else name)"

definition file_service :: "pystr \<Rightarrow> pystr" where
  "file_service fileName =
     str_lower (str_rstrip (\<lambda>c. c = 95)
       (fold strip_suffix [lit ''.log'', lit ''.json'', lit ''.txt''] (last (split_on 47 fileName))))"

type_synonym liveness = "(pystr, (modality, pystr) dict) dict"

definition observe :: "modality \<Rightarrow> modality_interval \<Rightarrow> liveness \<Rightarrow> liveness" where
  "observe m iv out =
     (let svc = file_service (iv_fileName iv);
          st = str_lower (case iv_status iv of Some s \<Rightarrow> if s = [] then lit ''?'' else s | None \<Rightarrow> lit ''?'')
      in if svc = [] then out
         else let cur = (case dget out svc of Some d \<Rightarrow> d | None \<Rightarrow> []);
                  old = (case dget cur m of Some t \<Rightarrow> t | None \<Rightarrow> [])
              in dset svc (if liveness_rank old < liveness_rank st then dset m st cur else cur) out)"

definition service_liveness :: "ingest_bundle \<Rightarrow> liveness" where
  "service_liveness b =
     fold (observe Trace) (info_trace (b_info b))
       (fold (observe Metric) (info_metric (b_info b)) (fold (observe Log) (info_log (b_info b)) []))"

definition render_liveness :: "liveness \<Rightarrow> pystr" where
  "render_liveness lv =
     (if lv = [] then []
      else str_join newline
        (([35, 35, 32, 49436, 48708, 49828, 48324, 32, 44288, 52769, 32, 49888, 54840, 32, 40, 47784, 45804,
          47532, 54000] @ lit '' status '' @ [8212] @ lit '' data='' @ [44288, 52769, 46120] @
            lit '' / empty='' @ [44396, 44036, 50640, 32, 44592, 47197, 32, 50630, 51020] @
              lit '' / missing='' @ [54028, 51068, 32, 50630, 51020, 41]) #
         map (\<lambda>(svc, s).
           let show = (\<lambda>m. case dget s m of Some t \<Rightarrow> t | None \<Rightarrow> lit ''-'')
           in svc @ tab @ lit ''log='' @ show Log @ tab @ lit ''metric='' @ show Metric @ tab @ lit ''trace='' @ show Trace)
           (sort_key fst lv)))"

definition log_evidence_json :: "'a log_evidence_scheme \<Rightarrow> (pystr, json) dict" where
  "log_evidence_json ev = named_fields (\<lambda>n. n) (dump_log_evidence ev)"

definition trace_evidence_json :: "trace_evidence \<Rightarrow> (pystr, json) dict" where
  "trace_evidence_json ev =
     named_fields (\<lambda>n. n) (dump_log_evidence ev @ opt_field ''origin_service'' JStr (ev_origin_service ev))"

definition build_report_message :: "((pystr, json) dict \<Rightarrow> pystr) \<Rightarrow> ingest_bundle \<Rightarrow> log_evidence \<Rightarrow> metric_evidence \<Rightarrow>
    trace_evidence \<Rightarrow> pystr" where
  "build_report_message dump b log_ev metric_ev trace_ev =
     (let lv = render_liveness (service_liveness b);
          block = (if lv = [] then [] else newline @ lv @ newline)
      in [45, 32, 50952, 46020, 58, 32] @ win_start (b_window b) @ lit '' ~ '' @ win_end (b_window b) @ newline @
         [45, 32, 53944, 47532, 44144, 32, 49884, 44033, 58, 32] @ trigger_time (b_trigger b) @ newline @
         [45, 32, 53944, 47532, 44144, 32, 47784, 45804, 47532, 54000, 58, 32] @
           names_or_none (triggered_by (b_trigger b)) @ newline @
         block @
         newline @ lit ''## log Evidence'' @ newline @ dump (log_evidence_json log_ev) @ newline @
         newline @ lit ''## metric Evidence'' @ newline @ dump (log_evidence_json metric_ev) @ newline @
         newline @ lit ''## trace Evidence'' @ newline @ dump (trace_evidence_json trace_ev))"

definition llm_report :: "llm_settings \<Rightarrow> (pystr \<Rightarrow> pystr res) \<Rightarrow> ((pystr, json) dict \<Rightarrow> pystr) \<Rightarrow>
    (call \<Rightarrow> report_draft res) \<Rightarrow> ingest_bundle \<Rightarrow> log_evidence \<Rightarrow> metric_evidence \<Rightarrow> trace_evidence \<Rightarrow> report_draft res" where
  "llm_report s read dump ask b log_ev metric_ev trace_ev =
     rbind (load_prompt read (lit ''report'')) (\<lambda>sys.
       ask \<lparr>call_chat = make_llm s (model_report s) High, call_system = sys,
            call_user = build_report_message dump b log_ev metric_ev trace_ev\<rparr>)"

section \<open>Assembly\<close>

definition norm_service :: "pystr \<Rightarrow> pystr" where
  "norm_service name =
     (let s = filter is_alnum (str_lower name)
      in if ends_with s (lit ''service'') \<and> s \<noteq> lit ''service'' then take (length s - 7) s else s)"

definition counts_by_norm :: "(pystr, nat) dict \<Rightarrow> (pystr, nat) dict" where
  "counts_by_norm counts = fold (\<lambda>(svc, n) d. dset (norm_service svc) n d) counts []"

definition fill_one :: "(pystr, nat) dict \<Rightarrow> affected \<Rightarrow> affected" where
  "fill_one by_norm a =
     (case dget by_norm (norm_service (af_service a)) of Some n \<Rightarrow> a\<lparr>af_errors := Some (int n)\<rparr> | None \<Rightarrow> a)"

definition fill_affected_errors :: "impact \<Rightarrow> (pystr, nat) dict \<Rightarrow> impact" where
  "fill_affected_errors im counts = im\<lparr>im_affected := map (fill_one (counts_by_norm counts)) (im_affected im)\<rparr>"

definition assemble :: "report_draft \<Rightarrow> log_evidence \<Rightarrow> metric_evidence \<Rightarrow> trace_evidence \<Rightarrow> ingest_bundle \<Rightarrow> rca_result" where
  "assemble draft log_ev metric_ev trace_ev b =
     \<lparr>r_type = rp_type draft, r_severity = rp_severity draft,
      r_service = (if rp_service draft \<noteq> [] then rp_service draft
                   else case ev_origin_service trace_ev of
                          Some s \<Rightarrow> if s \<noteq> [] then s else lit ''UNKNOWN''
                        | None \<Rightarrow> lit ''UNKNOWN''),
      r_detail = \<lparr>d_rca = rp_rca draft, d_summary = rp_summary draft,
        d_evidence = \<lparr>e_log = log_ev, e_trace = trace_ev, e_metric = metric_ev\<rparr>,
        d_impact = fill_affected_errors (rp_impact draft) (service_error_counts b),
        d_actions = rp_actions draft\<rparr>\<rparr>"

section \<open>The graph\<close>

record agents =
  ag_router :: "ingest_bundle \<Rightarrow> route_decision res"
  ag_log :: "depth \<Rightarrow> ingest_bundle \<Rightarrow> log_evidence res"
  ag_metric :: "depth \<Rightarrow> ingest_bundle \<Rightarrow> metric_evidence res"
  ag_trace :: "depth \<Rightarrow> ingest_bundle \<Rightarrow> trace_evidence res"
  ag_report :: "ingest_bundle \<Rightarrow> log_evidence \<Rightarrow> metric_evidence \<Rightarrow> trace_evidence \<Rightarrow> report_draft res"

text \<open>The state after the three modality nodes.\<close>

definition evidences :: "(exc \<Rightarrow> pystr) \<Rightarrow> agents \<Rightarrow> ingest_bundle \<Rightarrow> (log_evidence \<times> metric_evidence \<times> trace_evidence) res" where
  "evidences text ag b =
     (let routes = route_with_guardrails (ag_router ag b) b
      in rbind (modality_node text Log code_log_evidence (b_logs b) routes (\<lambda>d. ag_log ag d b)) (\<lambda>l.
         rbind (modality_node text Metric code_log_evidence (b_metrics b) routes (\<lambda>d. ag_metric ag d b)) (\<lambda>m.
         rbind (modality_node text Trace code_trace_evidence (b_traces b) routes (\<lambda>d. ag_trace ag d b)) (\<lambda>t.
           Inr (l, m, t)))))"

definition orchestrate :: "(exc \<Rightarrow> pystr) \<Rightarrow> agents \<Rightarrow> ingest_bundle \<Rightarrow> rca_result res" where
  "orchestrate text ag b =
     rbind (evidences text ag b) (\<lambda>(l, m, t).
     rbind (ag_report ag b l m t) (\<lambda>draft. Inr (assemble draft l m t b)))"

text \<open>The agents the application runs with.\<close>

record llm =
  ask_route :: "call \<Rightarrow> route_decision res"
  ask_log :: "call \<Rightarrow> log_evidence res"
  ask_metric :: "call \<Rightarrow> metric_evidence res"
  ask_trace :: "call \<Rightarrow> trace_evidence res"
  ask_report :: "call \<Rightarrow> report_draft res"

definition llm_agents :: "llm_settings \<Rightarrow> (pystr \<Rightarrow> pystr res) \<Rightarrow> ((pystr, json) dict \<Rightarrow> pystr) \<Rightarrow> miner \<Rightarrow> profile \<Rightarrow>
    nan_sorts \<Rightarrow> llm \<Rightarrow> agents" where
  "llm_agents s read dump mine profile ns m =
     \<lparr>ag_router = llm_router s read (ask_route m),
      ag_log = modality_agent s read Log (parse_for_log_agent mine profile) (ask_log m),
      ag_metric = modality_agent s read Metric (parse_for_metric_agent ns) (ask_metric m),
      ag_trace = modality_agent s read Trace (parse_for_trace_agent ns) (ask_trace m),
      ag_report = llm_report s read dump (ask_report m)\<rparr>"

section \<open>Laws\<close>

lemma dget_promote: "dget (fold (\<lambda>m routes. dset m Deep routes) ms routes) k = (if k \<in> set ms then Some Deep else dget routes k)"
  by (induction ms arbitrary: routes) (auto simp: dict_simps)

lemma in_modalities: "m \<in> set modalities"
  by (cases m) (simp_all add: modalities_def)

lemma guardrails_route:
  "dget (route_with_guardrails decision b) m =
     Some (if m \<in> set (triggered_by (b_trigger b)) then Deep
           else case decision of Inr d \<Rightarrow> decided d m | Inl e \<Rightarrow> Deep)"
proof -
  have "dget (map (\<lambda>m. (m, f m)) modalities) m = Some (f m)" for f :: "modality \<Rightarrow> depth"
    using in_modalities [of m] by (simp add: map_of_map_restrict)
  then show ?thesis by (simp add: route_with_guardrails_def dget_promote split: sum.split)
qed

text \<open>The guardrails: a modality that triggered is always analysed deep, every modality is when the router
  fails, and otherwise the router's decision stands; no modality is left without a route.\<close>

theorem guardrails_promote:
  "dget (route_with_guardrails decision b) m =
     Some (if m \<in> set (triggered_by (b_trigger b)) then Deep
           else case decision of Inr d \<Rightarrow> decided d m | Inl e \<Rightarrow> Deep)"
  by (rule guardrails_route)

text \<open>The evidence a node ends with.\<close>

definition node_evidence :: "(exc \<Rightarrow> pystr) \<Rightarrow> modality \<Rightarrow> (modality \<Rightarrow> pystr \<Rightarrow> 'e) \<Rightarrow> modality_item list \<Rightarrow> 'e res \<Rightarrow> 'e" where
  "node_evidence text m code items answer =
     (if items = [] then code m (no_data_text m)
      else case answer of Inr ev \<Rightarrow> ev | Inl e \<Rightarrow> code m (failed_text (text e)))"

definition route_of :: "agents \<Rightarrow> ingest_bundle \<Rightarrow> modality \<Rightarrow> depth" where
  "route_of ag b m =
     (if m \<in> set (triggered_by (b_trigger b)) then Deep
      else case ag_router ag b of Inr d \<Rightarrow> decided d m | Inl e \<Rightarrow> Deep)"

lemma modality_node_eq:
  "modality_node text m code items (route_with_guardrails (ag_router ag b) b) agent =
     Inr (node_evidence text m code items (agent (route_of ag b m)))"
proof -
  have "dget (route_with_guardrails (ag_router ag b) b) m = Some (route_of ag b m)"
    by (simp add: guardrails_route route_of_def)
  then show ?thesis by (cases "agent (route_of ag b m)") (simp_all add: modality_node_def node_evidence_def)
qed

lemma evidences_eq:
  "evidences text ag b =
     Inr (node_evidence text Log code_log_evidence (b_logs b) (ag_log ag (route_of ag b Log) b),
          node_evidence text Metric code_log_evidence (b_metrics b) (ag_metric ag (route_of ag b Metric) b),
          node_evidence text Trace code_trace_evidence (b_traces b) (ag_trace ag (route_of ag b Trace) b))"
  by (simp add: evidences_def modality_node_eq Let_def)


definition sample_agents :: agents where
  "sample_agents =
     \<lparr>ag_router = (\<lambda>_. Inl TimeoutError), ag_log = (\<lambda>_ _. Inl TimeoutError), ag_metric = (\<lambda>_ _. Inl TimeoutError),
      ag_trace = (\<lambda>_ _. Inl TimeoutError), ag_report = (\<lambda>_ _ _ _. Inl KeyError)\<rparr>"


lemma counts_by_norm_fold:
  "dget (fold (\<lambda>(svc, n) d. dset (norm_service svc) n d) counts d) k = Some n \<Longrightarrow>
     dget d k = Some n \<or> (\<exists>svc. (svc, n) \<in> set counts \<and> norm_service svc = k)"
  by (induction counts arbitrary: d) (fastforce simp: dict_simps split: if_splits)+

lemma counts_by_norm_none:
  "dget (fold (\<lambda>(svc, n) d. dset (norm_service svc) n d) counts d) k = None \<longleftrightarrow>
     dget d k = None \<and> (\<forall>(svc, n)\<in>set counts. norm_service svc \<noteq> k)"
  by (induction counts arbitrary: d) (auto simp: dict_simps split: if_splits)

lemma wf_count_errors: "wf_dict counts \<Longrightarrow> wf_dict (count_errors items counts)"
  by (induction items arbitrary: counts) (simp_all add: count_errors_step dict_simps del: count_errors.simps(2))

lemma error_counts_entry:
  "(svc, n) \<in> set (service_error_counts b) \<longleftrightarrow> n = error_lines (b_logs b) svc \<and> 0 < n"
proof -
  have "wf_dict (service_error_counts b)" by (simp add: service_error_counts_def wf_count_errors)
  then have "(svc, n) \<in> set (service_error_counts b) \<longleftrightarrow> dget (service_error_counts b) svc = Some n"
    by (simp add: dget_wf_iff)
  then show ?thesis by (auto simp: error_counts_get)
qed

text \<open>C27. The error numbers in a result are facts or the model's own: an affected service keeps what the draft says
  exactly when no service with a line at an error level has the same normalised name, and otherwise gets the
  number of error lines of such a service, never 0.\<close>

theorem affected_errors_factual:
  assumes "a' \<in> set (im_affected (d_impact (r_detail (assemble draft l m t b))))"
  shows "\<exists>a \<in> set (im_affected (rp_impact draft)). af_service a' = af_service a \<and> af_type a' = af_type a \<and>
    ((\<forall>svc. 0 < error_lines (b_logs b) svc \<longrightarrow> norm_service svc \<noteq> norm_service (af_service a)) \<and> a' = a \<or>
     (\<exists>svc. 0 < error_lines (b_logs b) svc \<and> norm_service svc = norm_service (af_service a) \<and>
            af_errors a' = Some (int (error_lines (b_logs b) svc))))"
proof -
  let ?d = "counts_by_norm (service_error_counts b)"
  obtain a where a: "a \<in> set (im_affected (rp_impact draft))" "a' = fill_one ?d a"
    using assms by (auto simp: assemble_def fill_affected_errors_def)
  show ?thesis
  proof (cases "dget ?d (norm_service (af_service a))")
    case None
    then have "\<forall>(svc, n)\<in>set (service_error_counts b). norm_service svc \<noteq> norm_service (af_service a)"
      using counts_by_norm_none [of "service_error_counts b" "[]"] by (simp add: counts_by_norm_def)
    then have "norm_service svc \<noteq> norm_service (af_service a)" if "0 < error_lines (b_logs b) svc" for svc
      using that error_counts_entry [of svc "error_lines (b_logs b) svc" b] by blast
    moreover have "a' = a" using a None by (simp add: fill_one_def)
    ultimately show ?thesis using a by blast
  next
    case (Some n)
    then obtain svc where "(svc, n) \<in> set (service_error_counts b)" "norm_service svc = norm_service (af_service a)"
      using counts_by_norm_fold [of "service_error_counts b" "[]"] by (auto simp: counts_by_norm_def)
    then show ?thesis using a Some error_counts_entry [of svc n b] by (intro bexI [of _ a]) (auto simp: fill_one_def)
  qed
qed

definition sample_draft :: report_draft where
  "sample_draft =
     \<lparr>rp_type = lit ''Timeout'', rp_severity = lit ''Critical'', rp_service = lit ''cart'',
      rp_rca = d_rca (r_detail sample_result), rp_summary = d_summary (r_detail sample_result),
      rp_impact = (d_impact (r_detail sample_result))
        \<lparr>im_affected := [\<lparr>af_service = lit ''cart-service'', af_errors = None,
          af_type = None\<rparr>]\<rparr>,
      rp_actions = d_actions (r_detail sample_result)\<rparr>"

definition sample_affected :: affected where
  "sample_affected = \<lparr>af_service = lit ''cart-service'', af_errors = Some 1, af_type = None\<rparr>"

theorem affected_errors_factual_witness:
  "\<exists>a \<in> set (im_affected (rp_impact sample_draft)). af_service a = af_service sample_affected \<and>
     ((\<forall>svc. 0 < error_lines (b_logs sample_bundle) svc \<longrightarrow> norm_service svc \<noteq> norm_service (af_service a)) \<and>
        sample_affected = a \<or>
      (\<exists>svc. 0 < error_lines (b_logs sample_bundle) svc \<and>
         af_errors sample_affected = Some (int (error_lines (b_logs sample_bundle) svc))))"
proof -
  have "im_affected (d_impact (r_detail (assemble sample_draft (code_log_evidence Log []) (code_log_evidence Metric [])
      (code_trace_evidence Trace []) sample_bundle))) = [sample_affected]" by code_simp
  then have "sample_affected \<in> set (im_affected (d_impact (r_detail (assemble sample_draft (code_log_evidence Log [])
      (code_log_evidence Metric []) (code_trace_evidence Trace []) sample_bundle))))" by simp
  from affected_errors_factual [OF this] show ?thesis by (metis (no_types))
qed

text \<open>Services whose names are normalised alike overwrite each other's number: the last one wins.\<close>

lemma norm_service_collision:
  "fill_one (counts_by_norm [(lit ''user'', 5), (lit ''user-service'', 1)])
     \<lparr>af_service = lit ''user'', af_errors = None, af_type = None\<rparr> =
   \<lparr>af_service = lit ''user'', af_errors = Some 1, af_type = None\<rparr>"
  by code_simp

section \<open>Liveness\<close>

definition interval_status :: "modality_interval \<Rightarrow> pystr" where
  "interval_status iv = str_lower (case iv_status iv of Some s \<Rightarrow> if s = [] then lit ''?'' else s | None \<Rightarrow> lit ''?'')"

definition seen_of :: "ingest_bundle \<Rightarrow> (modality \<times> modality_interval) list" where
  "seen_of b = map (Pair Log) (info_log (b_info b)) @ map (Pair Metric) (info_metric (b_info b)) @
     map (Pair Trace) (info_trace (b_info b))"

definition strength :: "(modality, pystr) dict \<Rightarrow> modality \<Rightarrow> nat" where
  "strength d m = liveness_rank (case dget d m of Some t \<Rightarrow> t | None \<Rightarrow> [])"

text \<open>\<open>out\<close> holds for each service and modality the strongest status of the observations \<open>obs\<close>.\<close>

definition live_ok :: "(modality \<times> modality_interval) list \<Rightarrow> liveness \<Rightarrow> bool" where
  "live_ok obs out \<longleftrightarrow>
     (\<forall>svc. svc \<noteq> [] \<longrightarrow>
        (dget out svc = None \<longleftrightarrow> (\<forall>(m, iv)\<in>set obs. file_service (iv_fileName iv) \<noteq> svc)) \<and>
        (\<forall>d. dget out svc = Some d \<longrightarrow>
           (\<forall>(m, iv)\<in>set obs. file_service (iv_fileName iv) = svc \<longrightarrow> liveness_rank (interval_status iv) \<le> strength d m) \<and>
           (\<forall>m t. dget d m = Some t \<longrightarrow>
              (\<exists>iv. (m, iv) \<in> set obs \<and> file_service (iv_fileName iv) = svc \<and> interval_status iv = t))))"

lemma service_liveness_fold: "service_liveness b = fold (\<lambda>(m, iv). observe m iv) (seen_of b) []"
  by (simp add: service_liveness_def seen_of_def fold_map comp_def)

lemma observe_eq:
  "observe m iv out =
     (let svc = file_service (iv_fileName iv)
      in if svc = [] then out
         else let cur = (case dget out svc of Some d \<Rightarrow> d | None \<Rightarrow> [])
              in dset svc (if strength cur m < liveness_rank (interval_status iv) then dset m (interval_status iv) cur else cur) out)"
  by (simp add: observe_def strength_def interval_status_def Let_def)

lemma observe_ok:
  assumes ok: "live_ok obs out"
  shows "live_ok (obs @ [(m, iv)]) (observe m iv out)"
proof (cases "file_service (iv_fileName iv) = []")
  case True
  then show ?thesis using ok by (fastforce simp: live_ok_def observe_eq)
next
  case False
  let ?svc = "file_service (iv_fileName iv)"
  let ?cur = "case dget out ?svc of Some d \<Rightarrow> d | None \<Rightarrow> []"
  let ?new = "if strength ?cur m < liveness_rank (interval_status iv) then dset m (interval_status iv) ?cur else ?cur"
  have obs: "observe m iv out = dset ?svc ?new out" using False by (simp add: observe_eq Let_def)
  have upper: "liveness_rank (interval_status iv') \<le> strength ?cur m'"
    if "(m', iv') \<in> set obs" "file_service (iv_fileName iv') = ?svc" for m' iv'
    using ok that False by (cases "dget out ?svc") (fastforce simp: live_ok_def)+
  have origin: "\<exists>iv'. (m', iv') \<in> set obs \<and> file_service (iv_fileName iv') = ?svc \<and> interval_status iv' = t"
    if "dget ?cur m' = Some t" for m' t
    using ok that False by (cases "dget out ?svc") (fastforce simp: live_ok_def)+
  have s: "strength ?new m' = (if m' = m then max (strength ?cur m) (liveness_rank (interval_status iv)) else strength ?cur m')" for m'
    by (simp add: strength_def dict_simps)
  have bound: "liveness_rank (interval_status iv') \<le> strength ?new m'"
    if "(m', iv') \<in> set (obs @ [(m, iv)])" "file_service (iv_fileName iv') = ?svc" for m' iv'
    using that upper [of m' iv'] by (auto simp: s)
  have orig: "\<exists>iv'. (m', iv') \<in> set (obs @ [(m,
    iv)]) \<and> file_service (iv_fileName iv') = ?svc \<and> interval_status iv' = t"
    if "dget ?new m' = Some t" for m' t
    using that origin [of m' t] by (auto simp: dict_simps split: if_splits)
  show ?thesis unfolding live_ok_def obs
  proof (intro allI impI conjI)
    fix x :: pystr
    assume x: "x \<noteq> []"
    show "dget (dset ?svc ?new out) x = None \<longleftrightarrow> (\<forall>(m, iv)\<in>set (obs @ [(m,
      iv)]). file_service (iv_fileName iv) \<noteq> x)"
      using ok x by (auto simp: live_ok_def dict_simps)
    fix d
    assume d: "dget (dset ?svc ?new out) x = Some d"
    show "\<forall>(m', iv')\<in>set (obs @ [(m, iv)]). file_service (iv_fileName iv') = x \<longrightarrow>
        liveness_rank (interval_status iv') \<le> strength d m'"
      using ok x d bound by (cases "x = ?svc") (auto simp: live_ok_def dict_simps)
    fix m' t
    assume t: "dget d m' = Some t"
    show "\<exists>iv'. (m', iv') \<in> set (obs @ [(m,
      iv)]) \<and> file_service (iv_fileName iv') = x \<and> interval_status iv' = t"
    proof (cases "x = ?svc")
      case True
      then show ?thesis using d t orig [of m' t] by (simp add: dict_simps)
    next
      case False
      then show ?thesis using ok x d t by (fastforce simp: live_ok_def dict_simps)
    qed
  qed
qed

lemma fold_observe_ok: "live_ok obs out \<Longrightarrow> live_ok (obs @ xs) (fold (\<lambda>(m, iv). observe m iv) xs out)"
proof (induction xs arbitrary: obs out)
  case (Cons x xs)
  obtain m iv where x: "x = (m, iv)" by fastforce
  show ?case using Cons.IH [OF observe_ok [OF Cons.prems, of m iv]] by (simp add: x)
qed simp

text \<open>C28. The liveness table shows the strongest observation: a service appears exactly when some interval's file is
  its, the status shown for a modality is that of one of its intervals there, and no interval of it has a
  stronger one (data over empty over missing).\<close>

theorem liveness_is_strongest: "live_ok (seen_of b) (service_liveness b)"
proof -
  have "live_ok [] []" by (simp add: live_ok_def)
  from fold_observe_ok [OF this, of "seen_of b"] show ?thesis by (simp add: service_liveness_fold)
qed

end
