(* ===== verification/Pipeline.thy ===== *)
theory Pipeline
  imports Server_Api Job_Laws Agents
begin

text \<open>
  The composition: a request, the row and file it leaves, the worker's turn with the orchestrator as its runner,
  the delivery to Spring. The runner is an interface of the queue (\<open>RcaRunner\<close> in \<open>job_queue.py\<close>), stated as
  the locale \<open>rca_runner\<close> and provided by \<open>_default_runner\<close>. \<open>work_off\<close> is the queue being worked off before
  the workers are cancelled (\<open>RcaJobQueue.stop\<close>).
\<close>

section \<open>The runner\<close>

definition default_runner :: "(exc \<Rightarrow> pystr) \<Rightarrow> agents \<Rightarrow> ingest_bundle \<Rightarrow> raw_output option res" where
  "default_runner text ag b = rbind (orchestrate text ag b) (\<lambda>r. Inr (Some (Raw_result r)))"

text \<open>\<open>asyncio.wait_for\<close>: too late is a \<open>TimeoutError\<close>, whatever the runner would have returned.\<close>

definition wait_for :: "bool \<Rightarrow> raw_output option res \<Rightarrow> raw_output option res" where
  "wait_for late out = (if late then Inl TimeoutError else out)"

definition runs :: "(nat \<Rightarrow> bool) \<Rightarrow> (exc \<Rightarrow> pystr) \<Rightarrow> (nat \<Rightarrow> agents) \<Rightarrow> nat \<Rightarrow> ingest_bundle \<Rightarrow> raw_output option res" where
  "runs late text ag k b = wait_for (late k) (default_runner text (ag k) b)"

locale rca_runner =
  fixes run :: "nat \<Rightarrow> ingest_bundle \<Rightarrow> raw_output option res"
  assumes product: "run k b = Inr x \<Longrightarrow> \<exists>r. x = Some (Raw_result r)"
begin

definition result_of :: "nat \<Rightarrow> ingest_bundle \<Rightarrow> rca_result option" where
  "result_of k b = (case run k b of Inr (Some (Raw_result r)) \<Rightarrow> Some r | _ \<Rightarrow> None)"

lemma run_result: "run k b = Inr x \<Longrightarrow> \<exists>r. x = Some (Raw_result r) \<and> result_of k b = Some r"
  using product [of k b x] by (auto simp: result_of_def)

lemma attempt_run:
  "attempt env (run k b) = (case run k b of Inl e \<Rightarrow> Inl e | Inr x \<Rightarrow> Inr (result_of k b))"
  using run_result [of k b] by (cases "run k b") (auto simp: attempt_def)

text \<open>A product of either attempt is what the analysis ends with; without one it fails with the second error.\<close>

lemma analysis_run:
  assumes "a_runs a = (\<lambda>k. run k b)"
  shows "analysis env a =
    (case run 1 b of
       Inr x \<Rightarrow> Inr (result_of 1 b)
     | Inl e \<Rightarrow> (case run 2 b of Inr x \<Rightarrow> Inr (result_of 2 b) | Inl e' \<Rightarrow> Inl e'))"
  using assms by (simp add: analysis_def attempt_run split: sum.split)

lemma analysis_some:
  assumes "a_runs a = (\<lambda>k. run k b)" and "k = 1 \<or> k = 2" and "run k b = Inr x"
  shows "\<exists>r. analysis env a = Inr (Some r)"
  using assms run_result [of 1 b] run_result [of 2 b]
  by (auto simp: analysis_run split: sum.split)

lemma status_delivered:
  assumes "a_runs a = (\<lambda>k. run k b)" and "k = 1 \<or> k = 2" and "run k b = Inr x"
    and "\<And>r. save_result env (a_reply a) b r = Inr ()"
  shows "\<exists>r. analysis env a = Inr (Some r) \<and> final_status env a b = DONE \<and>
    calls_of env a jid b = runs_of env a jid @ [Sent_result jid (Inr ())]"
  using analysis_some [OF assms(1-3), of env] assms(4) by (auto simp: final_status_def calls_of_def)

text \<open>A job is done without having been accepted by Spring only when there was nothing to send; such a runner
  always has something to send.\<close>

lemma done_was_accepted:
  assumes "a_runs a = (\<lambda>k. run k b)" and "final_status env a b = DONE"
  shows "\<exists>r. analysis env a = Inr (Some r) \<and> save_result env (a_reply a) b r = Inr ()"
  using assms run_result [of 1 b] run_result [of 2 b]
  by (fastforce simp: final_status_def analysis_run split: sum.splits exc.splits option.splits)

end

interpretation orchestrator: rca_runner "runs late text ag" for late "text" ag
  by unfold_locales (auto simp: runs_def wait_for_def default_runner_def res_simps split: if_splits)

lemma run_when_reported:
  assumes "\<not> late k" and "\<And>l m t. \<exists>draft. ag_report (ag k) b l m t = Inr draft"
  shows "\<exists>x. runs late text ag k b = Inr x"
proof -
  obtain l m t where ev: "evidences text (ag k) b = Inr (l, m, t)"
    using evidences_eq [of "text" "ag k" b] by blast
  obtain draft where "ag_report (ag k) b l m t = Inr draft" using assms(2) by blast
  with ev assms(1) show ?thesis
    by (simp add: runs_def wait_for_def default_runner_def orchestrate_def)
qed

section \<open>Requests and what they leave\<close>

lemma v_all_list: "v_all v js = Some xs \<Longrightarrow> (\<And>j x. v j = Some x \<Longrightarrow> P x) \<Longrightarrow> list_all P xs"
  by (induction js arbitrary: xs) (auto simp: bind_eq_Some_conv)

lemma v_list_list: "v_list v j = Some xs \<Longrightarrow> (\<And>j x. v j = Some x \<Longrightarrow> P x) \<Longrightarrow> list_all P xs"
  by (cases j) (auto intro: v_all_list)

lemma v_obj_some: "v_obj f j = Some x \<Longrightarrow> \<exists>d. j = JObj d \<and> f d = Some x"
  by (cases j) simp_all

lemma v_iso_valid: "v_iso j = Some t \<Longrightarrow> valid_iso8601 t"
  by (auto simp: v_iso_def bind_eq_Some_conv split: if_splits)

lemma v_item_wf: "v_item j = Some i \<Longrightarrow> wf_item i"
  unfolding v_item_def
  by (drule v_obj_some) (auto simp: bind_eq_Some_conv v_req_def wf_item_def modality_item.defs dest: v_iso_valid)

lemma v_nullable_iso: "v_nullable v_iso j = Some t \<Longrightarrow> iso_or_none t"
  by (cases j) (auto simp: v_iso_def bind_eq_Some_conv split: if_splits)

lemma v_dflt_prop: "v_dflt x v d n = Some y \<Longrightarrow> P x \<Longrightarrow> (\<And>j z. v j = Some z \<Longrightarrow> P z) \<Longrightarrow> P y"
  by (auto simp: v_dflt_def split: option.splits)

lemma v_req_prop: "v_req v d n = Some y \<Longrightarrow> (\<And>j z. v j = Some z \<Longrightarrow> P z) \<Longrightarrow> P y"
  by (auto simp: v_req_def bind_eq_Some_conv)

lemmas v_props = v_dflt_prop [where P = iso_or_none] v_dflt_prop [where P = "list_all wf_interval"]
  v_dflt_prop [where P = "list_all wf_item"]

lemma v_interval_wf:
  assumes "v_interval lax j = Some v"
  shows "wf_interval v"
proof -
  obtain d where "j = JObj d" using assms unfolding v_interval_def by (blast dest: v_obj_some)
  with assms obtain f a e s r t where v: "v = modality_interval.make f a e s r t"
    and "v_dflt None (v_nullable v_iso) d ''start'' = Some a" "v_dflt None (v_nullable v_iso) d ''end'' = Some e"
    unfolding v_interval_def by (auto simp: bind_eq_Some_conv)
  then have "iso_or_none a" "iso_or_none e" by (auto elim!: v_props(1) dest: v_nullable_iso)
  then show ?thesis by (simp add: v wf_interval_def modality_interval.defs)
qed

lemma v_detail_wf:
  assumes "v_detail lax j = Some vs"
  shows "list_all wf_interval vs"
proof -
  obtain d where "v_dflt [] (v_list (v_interval lax)) d ''intervals'' = Some vs"
    using assms unfolding v_detail_def by (blast dest: v_obj_some)
  then show ?thesis by (rule v_props(2)) (auto elim: v_list_list dest: v_interval_wf)
qed

lemma v_info_wf:
  assumes "v_info lax j = Some i"
  shows "list_all wf_interval (info_log i @ info_metric i @ info_trace i)"
proof -
  obtain d where "j = JObj d" using assms unfolding v_info_def by (blast dest: v_obj_some)
  with assms obtain l m t where i: "i = modality_info.make l m t" and "v_dflt [] (v_detail lax) d ''log'' = Some l"
    "v_dflt [] (v_detail lax) d ''metric'' = Some m" "v_dflt [] (v_detail lax) d ''trace'' = Some t"
    unfolding v_info_def by (auto simp: bind_eq_Some_conv)
  then have "list_all wf_interval l" "list_all wf_interval m" "list_all wf_interval t"
    by (auto elim!: v_props(2) dest: v_detail_wf)
  then show ?thesis by (simp add: i modality_info.defs)
qed

lemma v_window_iso:
  assumes "v_window j = Some w"
  shows "valid_iso8601 (win_start w) \<and> valid_iso8601 (win_end w)"
proof -
  obtain d where "j = JObj d" using assms unfolding v_window_def by (blast dest: v_obj_some)
  with assms obtain a e where w: "w = window.make a e" and "v_req v_iso d ''start'' = Some a" "v_req v_iso d ''end'' = Some e"
    unfolding v_window_def by (auto simp: bind_eq_Some_conv)
  then have "valid_iso8601 a" "valid_iso8601 e" by (auto elim!: v_req_prop dest: v_iso_valid)
  then show ?thesis by (simp add: w window.defs)
qed

lemma v_trigger_iso:
  assumes "v_trigger j = Some t"
  shows "valid_iso8601 (trigger_time t)"
proof -
  obtain d where "j = JObj d" using assms unfolding v_trigger_def by (blast dest: v_obj_some)
  with assms obtain a ms where t: "t = trigger_info.make a ms" and "v_req v_iso d ''trigger_time'' = Some a"
    unfolding v_trigger_def by (auto simp: bind_eq_Some_conv)
  then have "valid_iso8601 a" by (auto elim!: v_req_prop dest: v_iso_valid)
  then show ?thesis by (simp add: t trigger_info.defs)
qed

lemma validated_wf:
  assumes "validate_bundle lax d = Some b"
  shows "wf_bundle b"
proof -
  from assms obtain ver code w t i ls ms ts where b: "b = ingest_bundle.make ver code w t i ls ms ts"
    and w: "v_req v_window d ''window'' = Some w" and t: "v_req v_trigger d ''trigger_info'' = Some t"
    and i: "v_dflt (modality_info.make [] [] []) (v_info lax) d ''modality_info'' = Some i"
    and items: "v_dflt [] (v_list v_item) d ''logs'' = Some ls" "v_dflt [] (v_list v_item) d ''metrics'' = Some ms"
      "v_dflt [] (v_list v_item) d ''traces'' = Some ts"
    unfolding validate_bundle_def by (auto simp: bind_eq_Some_conv)
  have "valid_iso8601 (win_start w) \<and> valid_iso8601 (win_end w)" by (rule v_req_prop [OF w]) (rule v_window_iso)
  moreover have "valid_iso8601 (trigger_time t)" by (rule v_req_prop [OF t]) (rule v_trigger_iso)
  moreover have "list_all wf_interval (info_log i @ info_metric i @ info_trace i)"
    by (rule v_dflt_prop [OF i]) (simp_all add: modality_info.defs v_info_wf [simplified])
  moreover have "list_all wf_item ls" "list_all wf_item ms" "list_all wf_item ts"
    using items by (auto elim!: v_props(3) elim: v_list_list dest: v_item_wf)
  ultimately show ?thesis by (simp add: b wf_bundle_def ingest_bundle.defs)
qed

lemma created_reception:
  assumes "post_ingest lax setting key body q w = (Created jid, w')"
  shows "\<exists>d b. json_loads body = Some (JObj d) \<and> validate_bundle lax d = Some b \<and> ingest q b w = (Inr jid, w') \<and>
    wf_bundle b \<and> authorised setting key"
proof -
  have reply: "error_reply e \<noteq> Created n" for e n by (cases e) simp_all
  from assms obtain j b where j: "json_loads body = Some j" "v_obj (validate_bundle lax) j = Some b"
    "ingest q b w = (Inr jid, w')" "authorised setting key"
    using reply by (auto simp: post_ingest_def require_api_key_eq split: option.splits sum.splits prod.splits if_splits)
  then show ?thesis using v_obj_some [OF j(2)] validated_wf by blast
qed

text \<open>C30. What the contract lets in is well typed: a validated bundle has the shape the model assumes (every timestamp
  of it parses as ISO 8601), and validating its dump again, under either naming, changes nothing.\<close>

theorem validated_bundle_typed:
  assumes "validate_bundle lax d = Some b"
  shows "wf_bundle b \<and> validate_bundle lax (bundle_fields id b) = Some b \<and>
    validate_bundle lax (bundle_fields to_camel b) = Some b"
  using validated_wf [OF assms] by (simp add: validate_bundle_dump valid_alias_def)

theorem validated_bundle_typed_witness:
  "\<exists>b. validate_bundle (\<lambda>_. None) [(lit ''window'', JObj [(lit ''start'',
    JStr (lit ''2026-07-24T02:33:23'')),
       (lit ''end'', JStr (lit ''2026-07-24T02:43:23''))]),
     (lit ''triggerInfo'', JObj [(lit ''triggerTime'',
       JStr (lit ''2026-07-24T02:33:23Z''))])] = Some b \<and> wf_bundle b"
proof -
  let ?d = "[(lit ''window'', JObj [(lit ''start'', JStr (lit ''2026-07-24T02:33:23'')),
       (lit ''end'', JStr (lit ''2026-07-24T02:43:23''))]),
     (lit ''triggerInfo'', JObj [(lit ''triggerTime'', JStr (lit ''2026-07-24T02:33:23Z''))])]"
  have "validate_bundle (\<lambda>_. None) ?d \<noteq> None" by code_simp
  then obtain b where "validate_bundle (\<lambda>_. None) ?d = Some b" by blast
  with validated_bundle_typed [OF this] show ?thesis by blast
qed

section \<open>From the request to Spring\<close>

lemma payload_any_result:
  assumes "result_payload env b r0 = Inr p"
  shows "save_result env reply b r = classify_reply reply"
proof -
  have "\<exists>p. result_payload env b r = Inr p"
    using assms by (auto simp: result_payload_def res_simps Let_def)
  then show ?thesis by (auto simp: save_result_def)
qed

lemma get_finished:
  assumes "authorised setting key" and "progressed jid w s w'"
  shows "\<exists>v. get_ingest setting key jid w' = Found v \<and> v_status v = s \<and> v_job_id v = jid"
  using assms by (auto simp: get_ingest_def require_api_key_eq get_job_status_def progressed_def)

text \<open>C3. The whole way: a request that is answered 201 leads, once a worker takes the job and the report agent
  answers in either attempt (in time, whatever happened to the router and the modality agents) and Spring
  accepts, to a job that is DONE, whose last call was the accepted result, whose file is gone, and which a
  query with the same key shows as DONE.\<close>

theorem report_reaches_spring:
  assumes post: "post_ingest (env_lax env) setting key body q w = (Created jid, w1)"
    and body: "json_loads body = Some (JObj d)" "validate_bundle (env_lax env) d = Some b"
    and hex: "hex_name (in_hex q)" and ok: "no_faults a"
    and runner: "a_runs a = (\<lambda>k. runs late text ag k b)"
    and k: "k = 1 \<or> k = 2" "\<not> late k" "\<And>l m t. \<exists>draft. ag_report (ag k) b l m t = Inr draft"
    and spring: "result_payload env b r0 = Inr p" "classify_reply (a_reply a) = Inr ()"
  shows "\<exists>w2 v. process env a jid w1 = (Inr (), w2) \<and> get_ingest setting key jid w2 = Found v \<and> v_status v = DONE \<and>
    last (w_log w2) = Sent_result jid (Inr ()) \<and>
    (final_name (in_hex q) \<notin> a_stuck a \<longrightarrow> dget (w_files w2) (final_name (in_hex q)) = None)"
proof -
  have i: "ingest q b w = (Inr jid, w1)" and wf: "wf_bundle b" and auth: "authorised setting key"
    using created_reception [OF post] body by auto
  obtain job where job: "row w1 jid = Some job" "j_status job = PENDING"
    "restore_bundle (env_lax env) (w_files w1) (j_bundle job) (j_signals job) = Inr b"
    using ingest_restorable [OF i wf hex, of "env_lax env"] by blast
  have path: "j_signals job = Some (final_name (in_hex q))"
    using ingest_accepted [OF i] job(1) by (simp add: new_job_def)
  obtain x where "runs late text ag k b = Inr x" using run_when_reported [of late k ag b "text"] k(2,3) by blast
  then have done_: "final_status env a b = DONE" and calls: "calls_of env a jid b = runs_of env a jid @
    [Sent_result jid (Inr ())]"
    using orchestrator.status_delivered [OF runner k(1)] payload_any_result [OF spring(1)] spring(2) by auto
  obtain w2 where w2: "process env a jid w1 = (Inr (), w2)" "progressed jid w1 DONE w2"
    "w_log w2 = w_log w1 @ calls_of env a jid b" "w_files w2 = discard (a_stuck a) (j_signals job) (w_files w1)"
    using process_outcome [OF ok job(1) _ job(3)] job(2) done_ by auto
  have "dget (w_files w2) (final_name (in_hex q)) = None" if "final_name (in_hex q) \<notin> a_stuck a"
    using that final_name_file [OF hex] by (auto simp: w2(4) path dget_discard is_file_name_def final_name_def)
  then show ?thesis using w2(1,3) calls get_finished [OF auth w2(2)] by auto
qed

definition sample_body :: pystr where
  "sample_body = dump_json (JObj (bundle_fields id sample_bundle))"

lemma sample_body_reads: "json_loads sample_body = Some (JObj (bundle_fields id sample_bundle))"
proof -
  have "plain_json (JObj (bundle_fields id sample_bundle))" by code_simp
  then show ?thesis unfolding sample_body_def by (rule json_loads_dump) simp
qed

definition reporting_agents :: agents where
  "reporting_agents = sample_agents\<lparr>ag_report := (\<lambda>_ _ _ _. Inr sample_draft)\<rparr>"

definition retried_answers :: answers where
  "retried_answers = sample_answers
     \<lparr>a_runs := (\<lambda>k. runs (\<lambda>k. k = 1) (\<lambda>_. []) (\<lambda>_. reporting_agents) k sample_bundle)\<rparr>"

lemma sample_post:
  "post_ingest (\<lambda>_. None) (lit ''key'') (Some (lit ''key'')) sample_body sample_reception (empty_world 0) =
     (Created 1, sample_world)"
proof -
  have "authorised (lit ''key'') (Some (lit ''key''))" by code_simp
  moreover have "validate_bundle (\<lambda>_. None) (bundle_fields id sample_bundle) = Some sample_bundle"
    using wf_sample_bundle by (simp add: validate_bundle_dump valid_alias_def)
  ultimately show ?thesis
    by (simp add: post_ingest_def sample_body_reads require_api_key_eq sample_accepted)
qed

theorem report_reaches_spring_witness:
  "\<exists>w2 v. process sample_env retried_answers 1 sample_world = (Inr (), w2) \<and>
     get_ingest (lit ''key'') (Some (lit ''key'')) 1 w2 = Found v \<and> v_status v = DONE"
proof -
  obtain p where p: "result_payload sample_env sample_bundle sample_result = Inr p" using sample_payload by blast
  have v: "validate_bundle (\<lambda>_. None) (bundle_fields id sample_bundle) = Some sample_bundle"
    using wf_sample_bundle by (simp add: validate_bundle_dump valid_alias_def)
  have e: "env_lax sample_env = (\<lambda>_. None)" by (simp add: sample_env_def)
  have ok: "no_faults retried_answers" using sample_no_faults by (simp add: no_faults_def retried_answers_def)
  have h: "hex_name (in_hex sample_reception)" by (simp add: sample_reception_def hex_name_def)
  have r: "classify_reply (a_reply retried_answers) = Inr ()"
    by (simp add: retried_answers_def sample_answers_def classify_reply_def is_success_def)
  have runs: "a_runs retried_answers = (\<lambda>k. runs (\<lambda>k. k = 1) (\<lambda>_. []) (\<lambda>_. reporting_agents) k sample_bundle)"
    by (simp add: retried_answers_def)
  show ?thesis
    using report_reaches_spring [of sample_env, unfolded e, OF sample_post sample_body_reads v h ok runs,
      of 2 sample_result p] p r
    by (auto simp: reporting_agents_def)
qed

section \<open>Working off the queue\<close>

text \<open>No stage of a turn touches the queue.\<close>

definition same_queue :: "'a act \<Rightarrow> bool" where
  "same_queue m \<longleftrightarrow> (\<forall>w. w_queue (snd (m w)) = w_queue w)"

named_theorems queue_intros \<open>actions that leave the queue alone\<close>

lemma same_queue_bind [queue_intros]: "same_queue m \<Longrightarrow> (\<And>x. same_queue (f x)) \<Longrightarrow> same_queue (wbind m f)"
  by (simp add: same_queue_def wbind_def split: prod.split sum.split) (metis snd_conv)

lemma same_queue_base [queue_intros]:
  "same_queue (wret x)" "same_queue (wmay_fail fault)" "same_queue (wdo (drop_signals stuck p))"
  "same_queue (\<lambda>w. (r, w))"
  by (simp_all add: same_queue_def wret_def wmay_fail_def wdo_def job_simps split: option.split)

lemma same_queue_commit [queue_intros]: "same_queue (commit fault jid old new)"
  by (simp add: same_queue_def commit_def job_simps split: option.split)

lemma same_queue_commit_failure [queue_intros]: "same_queue (commit_failure fault jid loaded m)"
  using same_queue_commit
  by (auto simp: same_queue_def commit_failure_def job_simps split: option.split)

lemma same_queue_deliver_failure [queue_intros]: "same_queue (deliver_failure env a jid b m)"
  by (simp add: same_queue_def deliver_failure_def wdo_def send_failure_def job_simps)

lemma same_queue_cases [queue_intros]:
  "(\<And>x. same_queue (f x)) \<Longrightarrow> same_queue g \<Longrightarrow> same_queue (case opt of None \<Rightarrow> g | Some x \<Rightarrow> f x)"
  "(P \<Longrightarrow> same_queue h) \<Longrightarrow> (\<not> P \<Longrightarrow> same_queue g) \<Longrightarrow> same_queue (if P then h else g)"
  by (simp_all split: option.split)

lemma same_queue_mark [queue_intros]:
  "same_queue (mark_done f1 f2 jid)" "same_queue (mark_failed f1 f2 jid m)"
  using same_queue_commit
  by (auto simp: same_queue_def mark_done_def mark_failed_def wbind_def wmay_fail_def split: option.split)

lemma same_queueD: "same_queue m \<Longrightarrow> m w = (r, w') \<Longrightarrow> w_queue w' = w_queue w"
  by (metis same_queue_def snd_conv)

lemma failure_queue: "w_queue (snd (wbind (commit_failure fault jid loaded m) (\<lambda>_. wret x) w)) = w_queue w"
proof -
  have "same_queue (wbind (commit_failure fault jid loaded m) (\<lambda>_. wret x))" by (intro queue_intros)
  then show ?thesis by (simp add: same_queue_def)
qed

lemma marked_queue:
  "w_queue (snd (wbind (mark_failed f1 f2 jid m) (\<lambda>_. wret x) w)) = w_queue w"
  "w_queue (snd (wbind (mark_done f1 f2 jid) (\<lambda>_. wret x) w)) = w_queue w"
proof -
  have "same_queue (wbind (mark_failed f1 f2 jid m) (\<lambda>_. wret x))" "same_queue (wbind (mark_done f1 f2 jid) (\<lambda>_. wret x))"
    by (intro queue_intros)+
  then show "w_queue (snd (wbind (mark_failed f1 f2 jid m) (\<lambda>_. wret x) w)) = w_queue w"
    "w_queue (snd (wbind (mark_done f1 f2 jid) (\<lambda>_. wret x) w)) = w_queue w"
    by (simp_all add: same_queue_def)
qed

lemma same_queue_deliver [queue_intros]: "same_queue (deliver_and_finalize env a jid b r)"
  unfolding same_queue_def
proof
  fix w :: world
  show "w_queue (snd (deliver_and_finalize env a jid b r w)) = w_queue w"
  proof (cases "save_result env (a_reply a) b r")
    case (Inl e)
    then show ?thesis
      by (cases e) (simp_all add: deliver_and_finalize_def send_result_def Let_def marked_queue job_simps)
  next
    case (Inr u)
    then show ?thesis by (simp add: deliver_and_finalize_def send_result_def Let_def marked_queue job_simps)
  qed
qed

lemma commit_then_queue:
  assumes "commit fault jid old new w = (r, w1)" and "\<And>e. w_queue (snd (f e w1)) = w_queue w1"
  shows "w_queue (snd (case r of Inl e \<Rightarrow> f e w1 | Inr u \<Rightarrow> (Inr x, w1))) = w_queue w"
  using same_queueD [OF same_queue_commit assms(1)] assms(2) by (cases r) simp_all

lemma same_queue_analyse [queue_intros]: "same_queue (analyse env a jid job)"
  unfolding same_queue_def
proof
  fix w :: world
  let ?w = "w\<lparr>w_log := w_log w @ runs_of env a jid\<rparr>"
  show "w_queue (snd (analyse env a jid job w)) = w_queue w"
  proof (cases "analysis env a")
    case (Inl e)
    then show ?thesis by (simp add: analyse_def run_rca_analysis Let_def failure_queue)
  next
    case (Inr x)
    let ?new = "case x of None \<Rightarrow> job\<lparr>j_status := DONE, j_error := None\<rparr>
      | Some r \<Rightarrow> job\<lparr>j_result := Some (result_fields r), j_status := DELIVERING, j_error := None\<rparr>"
    obtain c w1 where c: "commit (a_save a) jid job ?new ?w = (c, w1)" by fastforce
    have "w_queue w1 = w_queue w" using same_queueD [OF same_queue_commit c] by simp
    with c Inr show ?thesis
      by (cases x; cases c) (simp_all add: analyse_def run_rca_analysis Let_def failure_queue)
  qed
qed

lemma same_queue_after [queue_intros]: "same_queue (after_session env a jid job b out)"
  by (cases out) (auto simp: after_session_def intro!: queue_intros)

lemma same_queue_missing [queue_intros]: "same_queue (signals_missing env a jid job m)"
proof -
  have k: "same_queue (\<lambda>w. case model_validate (env_lax env) (j_bundle job) of Inl e \<Rightarrow> (Inl e, w)
      | Inr light \<Rightarrow> wbind (deliver_failure env a jid light m) (\<lambda>_. wdo (drop_signals (a_stuck a) (j_signals job))) w)"
    by (cases "model_validate (env_lax env) (j_bundle job)") (auto intro!: queue_intros)
  show ?thesis unfolding signals_missing_def by (rule same_queue_bind [OF same_queue_commit k])
qed

lemma process_queue: "w_queue (snd (process env a jid w)) = w_queue w"
proof -
  have start: "same_queue (wbind (commit f jid job new) (\<lambda>_. wbind (analyse env a jid new) (\<lambda>out. after_session env a jid job b out)))"
    for f job new b by (intro queue_intros)
  show ?thesis
    using start same_queue_missing [of env a jid]
    by (auto simp: same_queue_def process_def wbind_def [of "wmay_fail (a_select a)"] wmay_fail_def
        split: option.split sum.split exc.split)
qed

text \<open>\<open>stop()\<close> waits until the queue is worked off; \<open>ans n\<close> is what turn \<open>n\<close> meets.\<close>

function work_off :: "env \<Rightarrow> (nat \<Rightarrow> answers) \<Rightarrow> nat \<Rightarrow> world \<Rightarrow> world" where
  "work_off env ans n w = (if w_queue w = [] then w else work_off env ans (Suc n) (worker_turn env (ans n) w))"
  by pat_completeness auto
termination
  by (relation "measure (\<lambda>(env, ans, n, w). length (w_queue w))")
    (auto simp: worker_turn_def process_queue neq_Nil_conv)

declare work_off.simps [simp del]

lemma turn_queue: "w_queue (worker_turn env a w) = tl (w_queue w)"
  by (cases "w_queue w") (simp_all add: worker_turn_def process_queue)

lemma drain_fold:
  "work_off env ans n w = fold (\<lambda>k. worker_turn env (ans k)) [n..<n + length (w_queue w)] w"
proof (induction env ans n w rule: work_off.induct)
  case (1 env ans n w)
  show ?case
  proof (cases "w_queue w")
    case Nil
    then show ?thesis by (simp add: work_off.simps [of env ans n w])
  next
    case (Cons jid q)
    then have "[n..<n + length (w_queue w)] = n # [Suc n..<Suc n + length (w_queue (worker_turn env (ans n) w))]"
      by (subst upt_conv_Cons) (simp_all add: turn_queue del: upt_Suc)
    with 1 Cons show ?thesis by (simp add: work_off.simps [of env ans n w])
  qed
qed

lemma work_off_empties: "w_queue (work_off env ans n w) = []"
proof -
  have "w_queue (fold (\<lambda>k. worker_turn env (ans k)) ks w) = drop (length ks) (w_queue w)" for ks w
    by (induction ks arbitrary: w) (simp_all add: turn_queue drop_Suc)
  from this [of "[n..<n + length (w_queue w)]" w] show ?thesis by (simp add: drain_fold)
qed


text \<open>The jobs of a queue that can all be worked on: not running, restorable, with files of their own.\<close>

definition job_file :: "job \<Rightarrow> pystr option" where
  "job_file job = map_option base_name (j_signals job)"

definition restorable :: "env \<Rightarrow> world \<Rightarrow> nat \<Rightarrow> ingest_bundle \<Rightarrow> bool" where
  "restorable env w jid b \<longleftrightarrow>
     (\<exists>job. row w jid = Some job \<and> j_status job \<noteq> RUNNING \<and>
       restore_bundle (env_lax env) (w_files w) (j_bundle job) (j_signals job) = Inr b)"

definition own_files :: "world \<Rightarrow> nat set \<Rightarrow> bool" where
  "own_files w ids \<longleftrightarrow>
     (\<forall>i \<in> ids. \<forall>k \<in> ids. i \<noteq> k \<longrightarrow> (\<forall>job job'. row w i = Some job \<longrightarrow> row w k = Some job' \<longrightarrow>
        job_file job = None \<or> job_file job \<noteq> job_file job'))"

lemma restore_after_discard:
  assumes "job_file job = None \<or> job_file job \<noteq> job_file job'"
  shows "restore_bundle lax (discard stuck (j_signals job') fs) stored (j_signals job) =
    restore_bundle lax fs stored (j_signals job)"
proof (cases "j_signals job")
  case None
  then show ?thesis by (simp add: restore_cases)
next
  case (Some p)
  then have "dget (discard stuck (j_signals job') fs) (base_name p) = dget fs (base_name p)"
    using assms by (auto simp: dget_discard job_file_def)
  from restore_cong [OF this] Some show ?thesis by simp
qed

lemma turn_settles:
  assumes q: "w_queue w = jid # q" and ok: "no_faults a" and ready: "restorable env w jid b"
    and own: "own_files w (insert jid (set q))" and new: "jid \<notin> set q"
  obtains w' where "worker_turn env a w = w'" and "w_queue w' = q"
    and "\<exists>job. row w' jid = Some job \<and> j_status job = final_status env a b"
    and "\<And>k. k \<noteq> jid \<Longrightarrow> row w' k = row w k"
    and "\<And>k c. k \<in> set q \<Longrightarrow> restorable env w k c \<Longrightarrow> restorable env w' k c"
proof -
  let ?w = "w\<lparr>w_queue := q\<rparr>"
  have r: "row ?w k = row w k" "w_files ?w = w_files w" for k by (simp_all add: row_def)
  obtain job where job: "row w jid = Some job" "j_status job \<noteq> RUNNING"
    "restore_bundle (env_lax env) (w_files w) (j_bundle job) (j_signals job) = Inr b"
    using ready by (auto simp: restorable_def)
  obtain w' where w': "process env a jid ?w = (Inr (), w')" "progressed jid ?w (final_status env a b) w'"
    "w_files w' = (if final_status env a b = DELIVERING then w_files w else discard (a_stuck a) (j_signals job) (w_files w))"
    using process_outcome [OF ok, of ?w jid job env b] job by (auto simp: r)
  have turn: "worker_turn env a w = w'" using q w'(1) by (simp add: worker_turn_def)
  have others: "row w' k = row w k" if "k \<noteq> jid" for k using w'(2) that by (simp add: progressed_def r)
  have "restorable env w' k c" if kq: "k \<in> set q" and ready': "restorable env w k c" for k c
  proof -
    have k: "k \<noteq> jid" using kq new by blast
    obtain job' where job': "row w k = Some job'" "j_status job' \<noteq> RUNNING"
      "restore_bundle (env_lax env) (w_files w) (j_bundle job') (j_signals job') = Inr c"
      using ready' unfolding restorable_def by blast
    have "job_file job' = None \<or> job_file job' \<noteq> job_file job"
      using own k kq job(1) job'(1) unfolding own_files_def by blast
    then have "restore_bundle (env_lax env) (w_files w') (j_bundle job') (j_signals job') = Inr c"
      using job'(3) w'(3) by (simp add: restore_after_discard split: if_splits)
    then show ?thesis using job'(1,2) others [OF k] unfolding restorable_def by auto
  qed
  note keep = this
  have settled: "\<exists>job. row w' jid = Some job \<and> j_status job = final_status env a b"
    using w'(2) by (auto simp: progressed_def)
  have rest: "w_queue w' = q" using turn_queue [of env a w] q turn by simp
  show ?thesis
  proof (rule that [OF turn rest settled])
    show "row w' k = row w k" if "k \<noteq> jid" for k using that by (rule others)
    show "restorable env w' k c" if "k \<in> set q" "restorable env w k c" for k c using that by (rule keep)
  qed
qed

text \<open>C7. Nobody is forgotten: when the queue is worked off and the database answers, every job that was queued
  (once, restorable, with its own file) ends with the status its own turn gives it, and jobs outside the queue
  keep their rows.\<close>

theorem drain_settles:
  assumes "distinct (w_queue w)" and "\<And>n. no_faults (ans n)" and "own_files w (set (w_queue w))"
    and "\<And>i. i < length (w_queue w) \<Longrightarrow> restorable env w (w_queue w ! i) (bs i)"
  shows "(\<forall>i < length (w_queue w). \<exists>job. row (work_off env ans n w) (w_queue w ! i) = Some job \<and>
       j_status job = final_status env (ans (n + i)) (bs i)) \<and>
    (\<forall>k. k \<notin> set (w_queue w) \<longrightarrow> row (work_off env ans n w) k = row w k)"
  using assms
proof (induction "w_queue w" arbitrary: w n bs)
  case Nil
  then show ?case by (simp add: work_off.simps [of env ans n w])
next
  case (Cons jid q)
  note q = Cons.hyps(2) [symmetric]
  have first: "restorable env w jid (bs 0)" using Cons.prems(4) [of 0] q by simp
  have ids: "jid \<notin> set q" "own_files w (insert jid (set q))" using Cons.prems(1,3) q by simp_all
  obtain w' where w': "worker_turn env (ans n) w = w'" "w_queue w' = q"
    "\<exists>job. row w' jid = Some job \<and> j_status job = final_status env (ans n) (bs 0)"
    "\<And>k. k \<noteq> jid \<Longrightarrow> row w' k = row w k"
    "\<And>k c. k \<in> set q \<Longrightarrow> restorable env w k c \<Longrightarrow> restorable env w' k c"
    by (rule turn_settles [OF q Cons.prems(2) [of n] first ids(2,1)]) (rule that; assumption)
  have eq: "work_off env ans n w = work_off env ans (Suc n) w'" using q w'(1) by (simp add: work_off.simps [of env ans n w])
  have "distinct (w_queue w')" using Cons.prems(1) q w'(2) by simp
  moreover have "own_files w' (set (w_queue w'))"
    using ids w'(2,4) unfolding own_files_def by (metis insertCI)
  moreover have "restorable env w' (w_queue w' ! i) (bs (Suc i))" if "i < length (w_queue w')" for i
    using Cons.prems(4) [of "Suc i"] that q w'(2,5) by simp
  ultimately have ih: "(\<forall>i < length q. \<exists>job. row (work_off env ans (Suc n) w') (q ! i) = Some job \<and>
       j_status job = final_status env (ans (Suc n + i)) (bs (Suc i)))"
    "\<And>k. k \<notin> set q \<Longrightarrow> row (work_off env ans (Suc n) w') k = row w' k"
    using Cons.hyps(1) [of w' "\<lambda>i. bs (Suc i)" "Suc n"] w'(2) Cons.prems(2) by auto
  have "\<exists>job. row (work_off env ans n w) (w_queue w ! i) = Some job \<and> j_status job = final_status env (ans (n + i)) (bs i)"
    if "i < length (w_queue w)" for i
    using that ih w'(3) ids(1) by (cases i) (simp_all add: eq q)
  moreover have "row (work_off env ans n w) k = row w k" if "k \<notin> set (w_queue w)" for k
    using that ih(2) [of k] w'(4) [of k] by (simp add: eq q)
  ultimately show ?case by blast
qed

theorem drain_settles_witness:
  "\<exists>job. row (work_off sample_env (\<lambda>_. sample_answers) 0 sample_world) 1 = Some job \<and>
     j_status job = final_status sample_env sample_answers sample_bundle"
proof -
  have q: "w_queue sample_world = [1]" using ingest_accepted [OF sample_accepted] by (simp add: empty_world_def)
  have "restorable sample_env sample_world 1 sample_bundle"
    using sample_row sample_restore sample_job_parts by (simp add: restorable_def)
  with drain_settles [of sample_world "\<lambda>_. sample_answers" sample_env "\<lambda>_. sample_bundle" 0] sample_no_faults
  show ?thesis by (simp add: q own_files_def)
qed

end
