(* ===== verification/Eval_Harness.thy ===== *)
theory Eval_Harness
  imports Server_Api Agents
begin

text \<open>
  The offline evaluation of prompts: scoring (\<open>eval/scoring.py\<close>), the runner over the fixtures (\<open>eval/run.py\<close>)
  and the sink that captures fixtures (\<open>eval/capture_sink.py\<close>). The ground truth is the content of
  \<open>eval/ground_truth.yaml\<close>; SHA-256, the clock and the orchestrator's outcome per run are arguments. Printing
  and argument parsing are left out.
\<close>

section \<open>Scoring\<close>

record expectation =
  ex_type :: pystr
  ex_keywords :: "pystr list"
  ex_service :: pystr
  ex_aliases :: "pystr list"
  ex_optional :: bool

definition ground_truth :: "(pystr, expectation) dict" where
  "ground_truth =
     [(lit ''cpu'', \<lparr>ex_type = lit ''PERFORMANCE'',
        ex_keywords = [lit ''perf'', lit ''cpu'', lit ''contention'', lit ''resource'', lit ''latency'',
          [49457, 45733], [51088, 50896], [48512, 54616], [51648, 50672]],
        ex_service = lit ''UNKNOWN'', ex_aliases = [], ex_optional = True\<rparr>),
      (lit ''kill_media'', \<lparr>ex_type = lit ''SERVICE_DOWN'',
        ex_keywords = [lit ''kill'', lit ''down'', lit ''crash'', lit ''unavailable'', lit ''restart'', [51333,
          47308], [51473, 45800], [47924, 51025, 45813], [51453], [51116, 49884, 51089]],
        ex_service = lit ''media'', ex_aliases = [lit ''media'', lit ''media-service'', lit ''mediaservice''],
          ex_optional = False\<rparr>),
      (lit ''code_media'', \<lparr>ex_type = lit ''CODE_STOP'',
        ex_keywords = [lit ''code'', lit ''stop'', lit ''deploy'', [48176, 54252], [51473, 45800], [53076, 46300]],
        ex_service = lit ''media'', ex_aliases = [lit ''media'', lit ''media-service'', lit ''mediaservice''],
          ex_optional = False\<rparr>)]"

definition is_separator :: "nat \<Rightarrow> bool" where
  "is_separator c \<longleftrightarrow> is_space c \<or> c = 95 \<or> c = 45"

definition eval_norm_service :: "pystr \<Rightarrow> pystr" where
  "eval_norm_service name =
     (let s = filter (\<lambda>c. \<not> is_separator c) (str_lower (str_strip is_space name))
      in if ends_with s (lit ''service'') then take (length s - 7) s else s)"

definition type_ok :: "pystr \<Rightarrow> expectation \<Rightarrow> bool" where
  "type_ok pred_type ex =
     (let pred = str_strip is_space pred_type
      in str_upper pred = str_upper (ex_type ex) \<or>
         list_ex (\<lambda>k. str_find (str_lower k) (str_lower pred) \<noteq> None) (ex_keywords ex))"

definition service_ok :: "pystr \<Rightarrow> expectation \<Rightarrow> bool" where
  "service_ok pred_service ex =
     (ex_optional ex \<or>
      (let pred = eval_norm_service pred_service
       in pred \<noteq> [] \<and> list_ex (\<lambda>n. pred = eval_norm_service n) (ex_service ex # ex_aliases ex)))"

definition verdict_mark :: "bool \<Rightarrow> pystr" where
  "verdict_mark ok = (if ok then lit ''O'' else lit ''X'')"

definition score_result :: "pystr \<Rightarrow> rca_result \<Rightarrow> bool option \<times> pystr" where
  "score_result scenario r =
     (case dget ground_truth scenario of
        None \<Rightarrow> (None, (lit ''(ground_truth '' @ [50630, 51020, 58, 32]) @ scenario @ lit '')'')
      | Some ex \<Rightarrow>
          (Some (type_ok (r_type r) ex \<and> service_ok (r_service r) ex),
           str_join (lit '' '')
             ((lit ''type='' @ verdict_mark (type_ok (r_type r) ex)) #
              (if ex_optional ex then [] else [lit ''service='' @ verdict_mark (service_ok (r_service r) ex)]))))"

text \<open>The types a report can have.\<close>

definition rca_types :: "pystr list" where
  "rca_types = [lit ''SERVICE_DOWN'', lit ''CODE_STOP'', lit ''PERFORMANCE'', lit ''DEPENDENCY'',
    lit ''OTHER'', lit ''NONE'']"

text \<open>The lenient matching of types costs nothing: on the six types a report can have, and against every scenario of
  the ground truth, a type is judged right exactly when it is the expected one (the keywords were meant for the
  free texts of earlier versions, and none of them occurs in a wrong type).\<close>

theorem type_scoring_exact:
  "list_all (\<lambda>(scenario, ex). list_all (\<lambda>t. type_ok t ex = (t = ex_type ex)) rca_types) ground_truth"
  by code_simp

subsection \<open>The two normalisations of service names\<close>

definition plain_service :: "pystr \<Rightarrow> bool" where
  "plain_service name = list_all (\<lambda>c. is_digit c \<or> is_alpha c \<or> is_separator c) name"

lemma filter_dropWhile: "(\<And>c. P c \<Longrightarrow> \<not> Q c) \<Longrightarrow> filter Q (dropWhile P xs) = filter Q xs"
  by (induction xs) auto

lemma filter_strip:
  assumes "\<And>c. P c \<Longrightarrow> \<not> Q c"
  shows "filter Q (str_strip P s) = filter Q s"
  unfolding str_strip_def
  by (simp only: rev_filter [symmetric] filter_dropWhile [OF assms] rev_rev_ident)

lemma separator_no_letter: "is_separator c \<Longrightarrow> \<not> is_letter_block c \<and> \<not> is_digit c \<and> \<not> is_alpha c"
  unfolding is_separator_def is_space_def is_letter_block_def is_digit_def is_alpha_def is_upper_def is_lower_def
  by presburger

lemma letter_no_separator: "is_digit c \<or> is_alpha c \<Longrightarrow> \<not> is_separator c"
  using separator_no_letter by blast

lemma lower_letter: "is_digit c \<or> is_alpha c \<Longrightarrow> is_digit (lower_char c) \<or> is_alpha (lower_char c)"
  unfolding lower_char_def is_digit_def is_alpha_def is_upper_def is_lower_def by (simp split: if_split) presburger

lemma lower_separator_id: "is_separator c \<Longrightarrow> lower_char c = c"
  unfolding lower_char_def is_separator_def is_space_def is_upper_def by (simp split: if_split) presburger

lemma plain_kept:
  assumes "is_digit c \<or> is_alpha c \<or> is_separator c"
  shows "is_alnum (lower_char c) = (\<not> is_separator c) \<and> is_separator (lower_char c) = is_separator c"
proof (cases "is_separator c")
  case True
  then show ?thesis
    unfolding lower_separator_id [OF True] is_alnum_def using separator_no_letter [OF True] by blast
next
  case False
  then have "is_digit (lower_char c) \<or> is_alpha (lower_char c)" using assms lower_letter by blast
  then show ?thesis unfolding is_alnum_def using False letter_no_separator by blast
qed

lemma kept_letters:
  assumes "plain_service name"
  shows "filter is_alnum (str_lower name) = filter (\<lambda>c. \<not> is_separator c) (str_lower (str_strip is_space name))"
proof -
  have plain: "is_digit c \<or> is_alpha c \<or> is_separator c" if "c \<in> set name" for c
    using assms that by (auto simp: plain_service_def list_all_iff)
  have lower: "filter Q (str_lower s) = str_lower (filter (\<lambda>c. \<not> is_separator c) s)"
    if "\<And>c. c \<in> set s \<Longrightarrow> Q (lower_char c) = (\<not> is_separator c)" for Q s
    using that by (induction s) (simp_all add: str_lower_def)
  have sub: "set (str_strip is_space name) \<subseteq> set name"
    by (auto simp: str_strip_def dest!: set_dropWhileD)
  have "filter (\<lambda>c. \<not> is_separator c) (str_strip is_space name) = filter (\<lambda>c. \<not> is_separator c) name"
    by (rule filter_strip) (simp add: is_separator_def)
  then show ?thesis
    using lower [of name is_alnum] lower [of "str_strip is_space name" "\<lambda>c. \<not> is_separator c"] plain plain_kept sub
    by (metis (no_types, lifting) subsetD)
qed

text \<open>The harness and the report normalise service names alike: on names of letters, digits, blanks, hyphens and
  underscores the two functions agree, except for what comes down to the bare word "service", which the report
  keeps and the harness turns into nothing (and so never counts as right).\<close>

theorem service_normalisations_agree:
  assumes "plain_service name"
  shows "eval_norm_service name =
    (if filter is_alnum (str_lower name) = lit ''service'' then [] else norm_service name)"
proof -
  have e: "ends_with (lit ''service'') (lit ''service'')" by code_simp
  show ?thesis using kept_letters [OF assms] e
    by (simp add: eval_norm_service_def norm_service_def Let_def length_lit del: lit_simps)
qed

theorem service_normalisations_agree_witness:
  "eval_norm_service (lit ''Media-Service'') = norm_service (lit ''Media-Service'') \<and> eval_norm_service (lit ''service'') = []"
proof -
  have "plain_service (lit ''Media-Service'')" "plain_service (lit ''service'')"
    "filter is_alnum (str_lower (lit ''Media-Service'')) \<noteq> lit ''service''"
    "filter is_alnum (str_lower (lit ''service'')) = lit ''service''" by code_simp+
  then show ?thesis using service_normalisations_agree by (simp del: lit_simps)
qed

section \<open>Runs\<close>

definition index_cols :: "pystr list" where
  "index_cols =
     [lit ''ts'', lit ''scenario'', lit ''set_hash'', lit ''report_model'', lit ''pred_type'', lit ''pred_service'',
      lit ''pred_severity'', lit ''correct'', lit ''latency_s'', lit ''runs_path'']"

record snapshot =
  sn_texts :: "(pystr \<times> pystr) list"
  sn_hashes :: "(pystr \<times> pystr) list"
  sn_set_hash :: pystr

definition prompt_snapshot :: "(nat list \<Rightarrow> pystr) \<Rightarrow> (pystr \<Rightarrow> pystr res) \<Rightarrow> snapshot res" where
  "prompt_snapshot sha read =
     rbind (rmap (\<lambda>n. rbind (load_prompt read n) (\<lambda>t. Inr (n, t))) prompt_names) (\<lambda>texts.
       let hashes = map (\<lambda>(n, t). (n, take 12 (sha (utf8 t)))) texts
       in Inr \<lparr>sn_texts = texts, sn_hashes = hashes, sn_set_hash = take 12 (sha (utf8 (concat (map snd hashes))))\<rparr>)"

text \<open>A fixture is validated like a request body.\<close>

definition load_fixture :: "lax_int \<Rightarrow> (pystr, pystr) dict \<Rightarrow> pystr \<Rightarrow> ingest_bundle res" where
  "load_fixture lax fixtures scenario =
     (case dget fixtures scenario of
        None \<Rightarrow> Inl OSError
      | Some t \<Rightarrow> (case Option.bind (json_loads t) (v_obj (validate_bundle lax)) of
                     None \<Rightarrow> Inl (ValidationError []) | Some b \<Rightarrow> Inr b))"

text \<open>One run: what the clock says, how long it took (as printed), and what the orchestrator returned.\<close>

record run_outcome =
  ro_ts :: pystr
  ro_latency :: pystr
  ro_result :: "rca_result res"

record eval_state =
  es_index :: "pystr list list option"
  es_runs :: "(pystr, (pystr \<times> pystr) list) dict"

definition run_dir :: "pystr \<Rightarrow> pystr \<Rightarrow> pystr \<Rightarrow> pystr" where
  "run_dir ts scenario set_hash = ts @ lit ''_'' @ scenario @ lit ''_'' @ set_hash"

definition correct_mark :: "bool option \<Rightarrow> pystr" where
  "correct_mark c = (case c of None \<Rightarrow> [] | Some ok \<Rightarrow> verdict_mark ok)"

definition index_row :: "pystr \<Rightarrow> snapshot \<Rightarrow> pystr \<Rightarrow> run_outcome \<Rightarrow> rca_result \<Rightarrow> pystr list" where
  "index_row model sn scenario out r =
     [ro_ts out, scenario, sn_set_hash sn, model, r_type r, r_service r, r_severity r,
      correct_mark (fst (score_result scenario r)), ro_latency out,
      lit ''runs/'' @ run_dir (ro_ts out) scenario (sn_set_hash sn)]"

text \<open>\<open>_record\<close>: the prompts as used and the two JSON files, whose text is the argument \<open>dump\<close>.\<close>

definition record_run :: "(rca_result \<Rightarrow> pystr) \<Rightarrow> (run_outcome \<Rightarrow> pystr) \<Rightarrow> snapshot \<Rightarrow> pystr \<Rightarrow> run_outcome \<Rightarrow> rca_result \<Rightarrow>
    eval_state \<Rightarrow> eval_state" where
  "record_run dump meta sn scenario out r st =
     (let dir = run_dir (ro_ts out) scenario (sn_set_hash sn);
          old = (case dget (es_runs st) dir of None \<Rightarrow> [] | Some fs \<Rightarrow> fs);
          prompts = map (\<lambda>(n, t). (lit ''prompt_'' @ n @ lit ''.md'', t)) (sn_texts sn)
      in st\<lparr>es_runs := dset dir (dmerge old (prompts @ [(lit ''result.json'', dump r),
        (lit ''meta.json'', meta out)])) (es_runs st)\<rparr>)"

definition append_index :: "pystr list \<Rightarrow> eval_state \<Rightarrow> eval_state" where
  "append_index r st = st\<lparr>es_index := Some ((case es_index st of None \<Rightarrow> [index_cols] | Some rows \<Rightarrow> rows) @ [r])\<rparr>"

definition run_scenario :: "(rca_result \<Rightarrow> pystr) \<Rightarrow> (run_outcome \<Rightarrow> pystr) \<Rightarrow> lax_int \<Rightarrow> (pystr, pystr) dict \<Rightarrow> pystr \<Rightarrow> snapshot \<Rightarrow>
    pystr \<Rightarrow> (ingest_bundle \<Rightarrow> run_outcome) \<Rightarrow> eval_state \<Rightarrow> unit res \<times> eval_state" where
  "run_scenario dump meta lax fixtures model sn scenario orchestrated st =
     (case load_fixture lax fixtures scenario of
        Inl e \<Rightarrow> (Inl e, st)
      | Inr b \<Rightarrow> (case ro_result (orchestrated b) of
                    Inl e \<Rightarrow> (Inl e, st)
                  | Inr r \<Rightarrow> (Inr (), append_index (index_row model sn scenario (orchestrated b) r)
                                     (record_run dump meta sn scenario (orchestrated b) r st))))"

fun run_all :: "(pystr \<Rightarrow> (ingest_bundle \<Rightarrow> run_outcome) \<Rightarrow> eval_state \<Rightarrow> unit res \<times> eval_state) \<Rightarrow>
    (pystr \<times> (ingest_bundle \<Rightarrow> run_outcome)) list \<Rightarrow> eval_state \<Rightarrow> unit res \<times> eval_state" where
  "run_all run [] st = (Inr (), st)"
| "run_all run ((scenario, out) # rest) st =
     (case run scenario out st of (Inl e, st') \<Rightarrow> (Inl e, st') | (Inr u, st') \<Rightarrow> run_all run rest st')"

text \<open>\<open>main\<close>: scenarios without a fixture are skipped; each of the others runs \<open>repeat\<close> times; without any, exit code 1.\<close>

definition eval_main :: "(pystr \<Rightarrow> (ingest_bundle \<Rightarrow> run_outcome) \<Rightarrow> eval_state \<Rightarrow> unit res \<times> eval_state) \<Rightarrow>
    (pystr, pystr) dict \<Rightarrow> pystr list \<Rightarrow> nat \<Rightarrow> (pystr \<Rightarrow> nat \<Rightarrow> ingest_bundle \<Rightarrow> run_outcome) \<Rightarrow> eval_state \<Rightarrow> nat res \<times> eval_state" where
  "eval_main run fixtures scenarios repeat outs st =
     (let available = filter (\<lambda>s. dget fixtures s \<noteq> None) scenarios
      in if available = [] then (Inr 1, st)
         else case run_all run (concat (map (\<lambda>s. map (\<lambda>k. (s,
           outs s k)) [0..<repeat]) available)) st of
                (Inl e, st') \<Rightarrow> (Inl e, st')
              | (Inr u, st') \<Rightarrow> (Inr 0, st'))"

text \<open>The index gets its header once and then one row per finished run, in order, an aborted evaluation included.\<close>

definition index_rows :: "eval_state \<Rightarrow> pystr list list" where
  "index_rows st = (case es_index st of None \<Rightarrow> [index_cols] | Some rows \<Rightarrow> rows)"

lemma run_scenario_index:
  "run_scenario dump meta lax fixtures model sn scenario out st = (res, st') \<Longrightarrow>
     (case res of Inl e \<Rightarrow> st' = st | Inr u \<Rightarrow> \<exists>r. index_rows st' = index_rows st @ [r] \<and> length r = 10 \<and> r ! 1 = scenario)"
  by (auto simp: run_scenario_def append_index_def record_run_def index_rows_def index_row_def Let_def
      split: sum.splits)

lemma run_all_index:
  "run_all (run_scenario dump meta lax fixtures model sn) jobs st = (Inr (), st') \<Longrightarrow>
     \<exists>rows. index_rows st' = index_rows st @ rows \<and> map (\<lambda>r. r ! 1) rows = map fst jobs"
proof (induction jobs arbitrary: st)
  case (Cons j jobs)
  obtain scenario out where j: "j = (scenario, out)" by fastforce
  obtain st1 where one: "run_scenario dump meta lax fixtures model sn scenario out st = (Inr (), st1)"
    and rest: "run_all (run_scenario dump meta lax fixtures model sn) jobs st1 = (Inr (), st')"
    using Cons.prems j by (auto split: prod.splits sum.splits)
  obtain r where r: "index_rows st1 = index_rows st @ [r]" "r ! 1 = scenario"
    using run_scenario_index [OF one] by auto
  obtain rows where "index_rows st' = index_rows st1 @ rows" "map (\<lambda>r. r ! 1) rows = map fst jobs"
    using Cons.IH [OF rest] by blast
  then show ?case using r j by (intro exI [of _ "r # rows"]) simp
qed simp

section \<open>The capture sink\<close>

definition capture_name :: "pystr \<Rightarrow> nat \<Rightarrow> pystr" where
  "capture_name scenario n =
     (if n = 1 then scenario @ lit ''.json'' else scenario @ lit ''.dup'' @ str_of_nat n @ lit ''.json'')"

record sink =
  sk_count :: nat
  sk_files :: "(pystr, nat list) dict"

text \<open>\<open>_summary\<close>: only \<open>ValueError\<close> and \<open>TypeError\<close> are caught by the caller.\<close>

definition py_get :: "json \<Rightarrow> string \<Rightarrow> json \<Rightarrow> json res" where
  "py_get j k dflt =
     (case j of JObj d \<Rightarrow> Inr (case dget d (lit k) of None \<Rightarrow> dflt | Some v \<Rightarrow> v) | _ \<Rightarrow> Inl AttributeError)"

fun py_len :: "json \<Rightarrow> nat res" where
  "py_len (JArr xs) = Inr (length xs)"
| "py_len (JObj d) = Inr (length d)"
| "py_len (JStr s) = Inr (length s)"
| "py_len _ = Inl TypeError"

fun text_of :: "json \<Rightarrow> pystr res" where
  "text_of (JStr s) = Inr s"
| "text_of _ = Inl TypeError"

fun py_join_comma :: "json \<Rightarrow> pystr res" where
  "py_join_comma (JArr xs) = rbind (rmap text_of xs) (\<lambda>ts. Inr (str_join (lit '','') ts))"
| "py_join_comma (JObj d) = Inr (str_join (lit '','') (dkeys d))"
| "py_join_comma (JStr s) = Inr (str_join (lit '','') (map (\<lambda>c. [c]) s))"
| "py_join_comma _ = Inl TypeError"

definition capture_summary :: "json \<Rightarrow> pystr res" where
  "capture_summary bundle =
     rbind (py_get bundle ''window'' (JObj [])) (\<lambda>window.
     rbind (py_get bundle ''triggerInfo'' (JObj [])) (\<lambda>trigger.
     rbind (py_get trigger ''triggeredBy'' (JArr [])) (\<lambda>by_whom.
     rbind (py_join_comma by_whom) (\<lambda>names.
     rbind (py_get window ''start'' JNull) (\<lambda>start.
     rbind (py_get window ''end'' JNull) (\<lambda>stop_at.
     rbind (py_get trigger ''triggerTime'' JNull) (\<lambda>time.
     rbind (rbind (py_get bundle ''logs'' (JArr [])) py_len) (\<lambda>l.
     rbind (rbind (py_get bundle ''metrics'' (JArr [])) py_len) (\<lambda>m.
     rbind (rbind (py_get bundle ''traces'' (JArr [])) py_len) (\<lambda>t.
       Inr (lit ''window='' @ py_str start @ lit ''~'' @ py_str stop_at @ lit '' trigger='' @ py_str time @ lit ''('' @
            (if names = [] then nothing_text else names) @ lit '') logs='' @ str_of_nat l @ lit '' metrics='' @
              str_of_nat m @
            lit '' traces='' @ str_of_nat t)))))))))))"

text \<open>\<open>do_POST\<close>: the status sent, or the exception that ends the connection without an answer; \<open>decoded\<close> is the text
  \<open>json.loads\<close> sees, if the bytes decode.\<close>

definition do_post :: "pystr \<Rightarrow> pystr \<Rightarrow> nat list \<Rightarrow> pystr option \<Rightarrow> sink \<Rightarrow> nat res \<times> sink" where
  "do_post scenario path body decoded sk =
     (if path \<noteq> lit ''/ingest'' then (Inr 404, sk)
      else let n = sk_count sk + 1;
               sk' = \<lparr>sk_count = n, sk_files = dset (capture_name scenario n) body (sk_files sk)\<rparr>
           in case Option.bind decoded json_loads of
                None \<Rightarrow> (Inr 200, sk')
              | Some j \<Rightarrow> (case capture_summary j of
                             Inr t \<Rightarrow> (Inr 200, sk')
                           | Inl e \<Rightarrow> (case e of TypeError \<Rightarrow> (Inr 200, sk') | ValueError m \<Rightarrow> (Inr 200, sk') | _ \<Rightarrow> (Inl e, sk'))))"

definition post_all :: "pystr \<Rightarrow> (nat list \<times> pystr option) list \<Rightarrow> sink \<Rightarrow> sink" where
  "post_all scenario posts sk = fold (\<lambda>(body, decoded) sk. snd (do_post scenario (lit ''/ingest'') body decoded sk)) posts sk"

lemma str_of_nat_inj: "str_of_nat a = str_of_nat b \<longleftrightarrow> a = b"
  by (metis nat_of_digits_str_of_nat)

lemma capture_name_inj: "capture_name s a = capture_name s b \<longleftrightarrow> a = b"
proof
  assume eq: "capture_name s a = capture_name s b"
  have "lit ''.json'' \<noteq> lit ''.dup'' @ x" for x by simp
  then show "a = b" using eq
    by (auto simp: capture_name_def str_of_nat_inj simp del: lit_simps split: if_splits)
qed simp

lemma do_post_state:
  "snd (do_post s (lit ''/ingest'') body decoded sk) =
     \<lparr>sk_count = sk_count sk + 1, sk_files = dset (capture_name s (sk_count sk + 1)) body (sk_files sk)\<rparr>"
  by (auto simp: do_post_def Let_def simp del: lit_simps split: option.split sum.split exc.split)

lemma post_all_files:
  "sk_count (post_all s posts sk) = sk_count sk + length posts \<and>
   dget (sk_files (post_all s posts sk)) (capture_name s n) =
     (if sk_count sk < n \<and> n \<le> sk_count sk + length posts then Some (fst (posts ! (n - sk_count sk - 1)))
      else dget (sk_files sk) (capture_name s n))"
proof (induction posts arbitrary: sk n)
  case (Cons p posts)
  obtain body decoded where p: "p = (body, decoded)" by fastforce
  let ?c = "sk_count sk"
  let ?sk = "\<lparr>sk_count = Suc ?c, sk_files = dset (capture_name s (Suc ?c)) body (sk_files sk)\<rparr>"
  have step: "post_all s (p # posts) sk = post_all s posts ?sk"
    by (simp add: post_all_def p do_post_state del: lit_simps)
  have ih: "sk_count (post_all s posts ?sk) = Suc ?c + length posts"
    "dget (sk_files (post_all s posts ?sk)) (capture_name s m) =
       (if Suc ?c < m \<and> m \<le> Suc ?c + length posts then Some (fst (posts ! (m - Suc ?c - 1)))
        else if m = Suc ?c then Some body else dget (sk_files sk) (capture_name s m))" for m
    using Cons.IH [of ?sk m] by (simp_all add: dict_simps capture_name_inj)
  consider "n \<le> ?c" | "n = Suc ?c" | k where "n = Suc (Suc (?c + k))"
    by (metis Suc_leI le_Suc_ex not_less_eq_eq plus_nat.simps(2) order_le_less)
  then show ?case unfolding step by cases (simp_all add: ih p)
qed (auto simp: post_all_def)

text \<open>No capture is lost: whatever is posted to the sink, readable or not, answered or not, the bytes of the n-th
  post are under the n-th name afterwards.\<close>

theorem captures_kept:
  "sk_count (post_all s posts \<lparr>sk_count = 0, sk_files = fs\<rparr>) = length posts \<and>
   (i < length posts \<longrightarrow>
      dget (sk_files (post_all s posts \<lparr>sk_count = 0, sk_files = fs\<rparr>)) (capture_name s (Suc i)) = Some (fst (posts ! i)))"
  using post_all_files [of s posts "\<lparr>sk_count = 0, sk_files = fs\<rparr>" "Suc i"] by simp

theorem captures_kept_witness:
  "dget (sk_files (post_all (lit ''cpu'') [([1], None), ([2], None)] \<lparr>sk_count = 0,
    sk_files = []\<rparr>)) (capture_name (lit ''cpu'') 2) =
     Some [2]"
  using captures_kept [of "lit ''cpu''" "[([1], None), ([2], None)]" "[]" 1] by (simp add: numeral_2_eq_2)

text \<open>A JSON body that is no object is stored but never answered.\<close>

lemma capture_list_unanswered: "fst (do_post (lit ''cpu'') (lit ''/ingest'') [91,
  93] (Some (lit ''[]'')) sk) = Inl AttributeError"
proof -
  have "json_loads (lit ''[]'') = Some (JArr [])" by code_simp
  then show ?thesis by (simp add: do_post_def capture_summary_def py_get_def Let_def del: lit_simps)
qed

end
