(* ===== verification/Edge_Cases.thy ===== *)
theory Edge_Cases
  imports Pipeline
begin

text \<open>
  Inputs at the edge of what the code expects, each evaluated: what an exception the code does not catch does to
  an analysis or a delivery.
\<close>

section \<open>Items that raise\<close>

text \<open>A duration that is no number (\<open>span_fields\<close> converts it unguarded, \<open>_trace_duration_ms\<close> does not).\<close>

lemma duration_not_a_number:
  "(case span_fields (([123, 34] @ lit ''operation'' @ [34, 58, 32, 34] @ lit ''read'' @ [34, 44, 32, 34] @
    lit ''duration'' @ [34, 58, 32, 34] @ lit ''fast'' @ [34,
      125])) of Inl (ValueError m) \<Rightarrow> True | _ \<Rightarrow> False)"
  "(case normalize_trace (([123, 34] @ lit ''operation'' @ [34, 58, 32, 34] @ lit ''read'' @ [34, 44, 32, 34] @
    lit ''duration'' @ [34, 58, 32, 34] @ lit ''fast'' @ [34,
      125])) of Inr t \<Rightarrow> True | _ \<Rightarrow> False)"
  by code_simp+

text \<open>An infinite duration passes \<open>json.loads\<close> and \<open>float\<close>, and \<open>int\<close> refuses it.\<close>

lemma infinite_duration:
  "normalize_trace (([123, 34] @ lit ''operation'' @ [34, 58, 32, 34] @ lit ''read'' @ [34, 44, 32, 34] @
    lit ''duration'' @ [34] @ lit '': Infinity}'')) = Inl OverflowError"
  by code_simp

text \<open>The Greek letter mu matches the micro sign of the pattern when case is ignored, but is not in the table of units.\<close>

lemma greek_duration: "text_duration ([48, 32, 956, 115]) = Inl KeyError"
proof -
  have "case re_search rx_duration ([48, 32, 956,
    115]) of Some m \<Rightarrow> hit_group 1 m = lit ''0'' \<and> str_lower (hit_group 2 m) = [956,
      115] | None \<Rightarrow> False"
    by code_simp
  then obtain m where m: "re_search rx_duration ([48, 32, 956,
    115]) = Some m" "hit_group 1 m = lit ''0''" "str_lower (hit_group 2 m) = [956, 115]"
    by (auto split: option.splits)
  have "fl_of_str (lit ''0'') = Inr (Fin 0)" by code_simp
  moreover have "[956, 115] \<notin> set (dkeys unit_ms)" by (simp add: unit_ms_def)
  ultimately show ?thesis using m by (simp add: text_duration_def map_of_eq_None_iff split: option.split)
qed

lemma greek_unit: "span_fields ([48, 32, 956, 115]) = Inl KeyError" "normalize_trace ([48, 32, 956,
  115]) = Inl KeyError"
proof -
  have "loads_dict ([48, 32, 956, 115]) = None" by code_simp
  then show "span_fields ([48, 32, 956, 115]) = Inl KeyError" "normalize_trace ([48, 32, 956, 115]) = Inl KeyError"
    by (simp_all add: span_fields_def normalize_trace_def text_duration_ms_def greek_duration)
qed

text \<open>The first moments of year 1 with an offset east of Greenwich have no UTC text.\<close>

lemma year_one: "to_spring_ts (lit ''0001-01-01T00:00:00+09:00'') = Inl OverflowError"
  by code_simp

text \<open>A trigger time with an offset cannot be compared with item times without one.\<close>

definition plain_metrics :: "modality_item list" where
  "plain_metrics =
     [\<lparr>mi_timestamp = lit ''2026-07-24T02:33:20'', mi_service = lit ''cart'', mi_raw = ([123, 34] @
       lit ''name'' @ [34, 58, 32, 34, 99, 112, 117, 34, 44, 32, 34] @ lit ''value'' @ [34] @ lit '': 0}'')\<rparr>,
      \<lparr>mi_timestamp = lit ''2026-07-24T02:33:30'', mi_service = lit ''cart'', mi_raw = ([123, 34] @
        lit ''name'' @ [34, 58, 32, 34, 99, 112, 117, 34, 44, 32, 34] @ lit ''value'' @ [34] @ lit '': 0}'')\<rparr>]"

lemma mixed_clocks:
  "select_signals (\<lambda>_. 0) (\<lambda>es. es) 1 Metric plain_metrics (lit ''2026-07-24T02:33:23Z'') None = Inl TypeError"
  by code_simp

section \<open>A report that is never sent\<close>

text \<open>A bundle whose payload cannot be built. Its analysis may well succeed; its result is stored, and then every
  attempt to send it raises before a request is made, whatever Spring would answer: the job stays DELIVERING, as
  the reconciler takes the exception for an outage.\<close>

definition unsendable :: ingest_bundle where
  "unsendable = sample_bundle\<lparr>b_traces :=
     [\<lparr>mi_timestamp = lit ''2026-07-24T02:33:24'', mi_service = lit ''cart'',
       mi_raw = ([123, 34] @ lit ''operation'' @ [34, 58, 32, 34] @ lit ''read'' @ [34, 44, 32, 34] @
         lit ''duration'' @ [34] @ lit '': Infinity}'')\<rparr>]\<rparr>"

lemma unsendable_typed: "wf_bundle unsendable"
  by code_simp

lemma unsendable_payload: "result_payload sample_env unsendable r = Inl OverflowError"
proof -
  have a: "apply_selection sample_env unsendable = Inr (b1, sels) \<Longrightarrow> b1 = unsendable" for b1 sels
    by (auto simp: apply_selection_def select_signals_def sample_env_def unsendable_def sample_bundle_def)
  have ok: "case apply_selection sample_env unsendable of Inr x \<Rightarrow> True | Inl e \<Rightarrow> False" by code_simp
  have n: "rbind (normalize_timestamps unsendable) normalize_payload_signals = Inl OverflowError" by code_simp
  obtain b1 sels where s: "apply_selection sample_env unsendable = Inr (b1, sels)"
    using ok by (auto split: sum.splits)
  have b1: "b1 = unsendable" using a [OF s] .
  consider b2 where "normalize_timestamps unsendable = Inr b2" "normalize_payload_signals b2 = Inl OverflowError"
    | "normalize_timestamps unsendable = Inl OverflowError"
    using n by (cases "normalize_timestamps unsendable") auto
  then show ?thesis by cases (simp_all add: result_payload_def s b1 Let_def)
qed

lemma unsendable_stays_delivering:
  assumes "restore_or_light sample_env fs stored_bundle path = Inr unsendable"
    and "validate_result (env_lax sample_env) d = Some r"
  shows "resent_status sample_env l fs (jid, stored_bundle, Some d, path) = DELIVERING"
  using assms by (simp add: resent_status_def save_result_def unsendable_payload)

lemma unsendable_after_analysis:
  "analysis sample_env a = Inr (Some r) \<Longrightarrow> final_status sample_env a unsendable = DELIVERING"
  by (simp add: final_status_def save_result_def unsendable_payload)

end
