(* ===== verification/Agent_Graph.thy ===== *)
theory Agent_Graph
  imports Agents
begin

text \<open>
  The graph of \<open>app/agents/graph.py\<close> as it runs: its state, its nodes as updates of that state, its edges, and the
  schedules LangGraph may choose. A node starts once every source of its edge has finished, sees the state of that
  moment, and its update is applied when it finishes; starts and finishes of different nodes interleave freely.
  LangGraph's rounds, in which the nodes of one round see the same state, are some of these schedules. Every
  schedule ends, none is stuck, and each ends with what the composition \<open>orchestrate\<close> computes.
\<close>

section \<open>State and nodes\<close>

text \<open>\<open>RcaState\<close>: a typed dictionary whose keys appear as the nodes write them.\<close>

record rca_state =
  st_job :: int
  st_bundle :: ingest_bundle
  st_routes :: "routes option"
  st_log_ev :: "log_evidence option"
  st_metric_ev :: "metric_evidence option"
  st_trace_ev :: "trace_evidence option"
  st_result :: "rca_result option"

text \<open>What a node returns: one key with its value.\<close>

datatype update =
    Set_routes routes
  | Set_log_ev log_evidence
  | Set_metric_ev metric_evidence
  | Set_trace_ev trace_evidence
  | Set_result rca_result

fun apply_update :: "update \<Rightarrow> rca_state \<Rightarrow> rca_state" where
  "apply_update (Set_routes r) s = s\<lparr>st_routes := Some r\<rparr>"
| "apply_update (Set_log_ev e) s = s\<lparr>st_log_ev := Some e\<rparr>"
| "apply_update (Set_metric_ev e) s = s\<lparr>st_metric_ev := Some e\<rparr>"
| "apply_update (Set_trace_ev e) s = s\<lparr>st_trace_ev := Some e\<rparr>"
| "apply_update (Set_result r) s = s\<lparr>st_result := Some r\<rparr>"

text \<open>\<open>state[key]\<close> for a key no node has written yet.\<close>

fun key_of :: "'a option \<Rightarrow> 'a res" where
  "key_of (Some x) = Inr x"
| "key_of None = Inl KeyError"

datatype node = Router_Node | Modality_Node modality | Report_Node

definition router_node :: "agents \<Rightarrow> rca_state \<Rightarrow> update res" where
  "router_node ag s = Inr (Set_routes (route_with_guardrails (ag_router ag (st_bundle s)) (st_bundle s)))"

text \<open>The routes are read only when the bundle has items; without the key they have no entry for the modality.\<close>

definition routes_of :: "rca_state \<Rightarrow> routes" where
  "routes_of s = (case st_routes s of Some r \<Rightarrow> r | None \<Rightarrow> [])"

fun make_modality_node :: "(exc \<Rightarrow> pystr) \<Rightarrow> agents \<Rightarrow> modality \<Rightarrow> rca_state \<Rightarrow> update res" where
  "make_modality_node text ag Log s =
     rbind (modality_node text Log code_log_evidence (b_logs (st_bundle s)) (routes_of s) (\<lambda>d. ag_log ag d (st_bundle s)))
       (\<lambda>e. Inr (Set_log_ev e))"
| "make_modality_node text ag Metric s =
     rbind (modality_node text Metric code_log_evidence (b_metrics (st_bundle s)) (routes_of s)
         (\<lambda>d. ag_metric ag d (st_bundle s)))
       (\<lambda>e. Inr (Set_metric_ev e))"
| "make_modality_node text ag Trace s =
     rbind (modality_node text Trace code_trace_evidence (b_traces (st_bundle s)) (routes_of s)
         (\<lambda>d. ag_trace ag d (st_bundle s)))
       (\<lambda>e. Inr (Set_trace_ev e))"

definition report_node :: "agents \<Rightarrow> rca_state \<Rightarrow> update res" where
  "report_node ag s =
     rbind (key_of (st_log_ev s)) (\<lambda>l.
     rbind (key_of (st_metric_ev s)) (\<lambda>m.
     rbind (key_of (st_trace_ev s)) (\<lambda>t.
     rbind (ag_report ag (st_bundle s) l m t) (\<lambda>draft.
       Inr (Set_result (assemble draft l m t (st_bundle s)))))))"

fun run_node :: "(exc \<Rightarrow> pystr) \<Rightarrow> agents \<Rightarrow> node \<Rightarrow> rca_state \<Rightarrow> update res" where
  "run_node text ag Router_Node s = router_node ag s"
| "run_node text ag (Modality_Node m) s = make_modality_node text ag m s"
| "run_node text ag Report_Node s = report_node ag s"

section \<open>Edges and schedules\<close>

text \<open>The nodes in the order they are added, each with the sources of its edge.\<close>

definition build_graph :: "(node \<times> node list) list" where
  "build_graph =
     [(Router_Node, [])] @ map (\<lambda>m. (Modality_Node m, [Router_Node])) modalities @
     [(Report_Node, map Modality_Node modalities)]"

datatype event = Start node | Finish node

record graph_run =
  gr_state :: rca_state
  gr_started :: "(node, rca_state) dict"
  gr_finished :: "node list"
  gr_raised :: "exc option"

definition invoke :: "int \<Rightarrow> ingest_bundle \<Rightarrow> graph_run" where
  "invoke job b =
     \<lparr>gr_state = \<lparr>st_job = job, st_bundle = b, st_routes = None, st_log_ev = None, st_metric_ev = None,
        st_trace_ev = None, st_result = None\<rparr>,
      gr_started = [], gr_finished = [], gr_raised = None\<rparr>"

text \<open>\<open>None\<close>: the event is not possible now. A node that raises ends the invocation.\<close>

fun graph_step :: "(exc \<Rightarrow> pystr) \<Rightarrow> agents \<Rightarrow> event \<Rightarrow> graph_run \<Rightarrow> graph_run option" where
  "graph_step text ag (Start n) g =
     (case dget build_graph n of
        Some sources \<Rightarrow>
          if gr_raised g = None \<and> n \<notin> set (dkeys (gr_started g)) \<and> set sources \<subseteq> set (gr_finished g)
          then Some (g\<lparr>gr_started := (n, gr_state g) # gr_started g\<rparr>) else None
      | None \<Rightarrow> None)"
| "graph_step text ag (Finish n) g =
     (case dget (gr_started g) n of
        Some seen \<Rightarrow>
          if gr_raised g = None \<and> n \<notin> set (gr_finished g)
          then (case run_node text ag n seen of
                  Inr u \<Rightarrow> Some (g\<lparr>gr_state := apply_update u (gr_state g), gr_finished := n # gr_finished g\<rparr>)
                | Inl e \<Rightarrow> Some (g\<lparr>gr_finished := n # gr_finished g, gr_raised := Some e\<rparr>))
          else None
      | None \<Rightarrow> None)"

fun graph_steps :: "(exc \<Rightarrow> pystr) \<Rightarrow> agents \<Rightarrow> event list \<Rightarrow> graph_run \<Rightarrow> graph_run option" where
  "graph_steps text ag [] g = Some g"
| "graph_steps text ag (ev # evs) g = Option.bind (graph_step text ag ev g) (graph_steps text ag evs)"

text \<open>\<open>run\<close>: the exception that ended the invocation,
  or \<open>state["result"]\<close> once the last node has finished.\<close>

definition run_result :: "graph_run \<Rightarrow> rca_result res option" where
  "run_result g =
     (case gr_raised g of
        Some e \<Rightarrow> Some (Inl e)
      | None \<Rightarrow> if Report_Node \<in> set (gr_finished g) then Some (key_of (st_result (gr_state g))) else None)"

section \<open>Laws\<close>

definition all_nodes :: "node list" where
  "all_nodes = [Router_Node, Modality_Node Log, Modality_Node Metric, Modality_Node Trace, Report_Node]"

lemma in_all_nodes: "n \<in> set all_nodes"
proof (cases n)
  case (Modality_Node m)
  then show ?thesis by (cases m) (simp_all add: all_nodes_def)
qed (simp_all add: all_nodes_def)

lemma distinct_nodes:
  assumes "distinct ns"
  shows "length (ns :: node list) \<le> 5"
proof -
  have "set ns \<subseteq> set all_nodes" using in_all_nodes by blast
  then have "card (set ns) \<le> card (set all_nodes)" by (intro card_mono) simp_all
  also have "\<dots> \<le> 5" using card_length [of all_nodes] by (simp add: all_nodes_def)
  finally show ?thesis using distinct_card [OF assms] by simp
qed

lemma sources:
  "dget build_graph Router_Node = Some []"
  "dget build_graph (Modality_Node m) = Some [Router_Node]"
  "dget build_graph Report_Node = Some [Modality_Node Log, Modality_Node Metric, Modality_Node Trace]"
proof -
  show "dget build_graph (Modality_Node m) = Some [Router_Node]"
    by (cases m) (simp_all add: build_graph_def modalities_def)
qed (simp_all add: build_graph_def modalities_def)

text \<open>What each node has to have seen and what it leaves, for the bundle \<open>b\<close>.\<close>

definition the_log :: "(exc \<Rightarrow> pystr) \<Rightarrow> agents \<Rightarrow> ingest_bundle \<Rightarrow> log_evidence" where
  "the_log text ag b = node_evidence text Log code_log_evidence (b_logs b) (ag_log ag (route_of ag b Log) b)"

definition the_metric :: "(exc \<Rightarrow> pystr) \<Rightarrow> agents \<Rightarrow> ingest_bundle \<Rightarrow> metric_evidence" where
  "the_metric text ag b =
     node_evidence text Metric code_log_evidence (b_metrics b) (ag_metric ag (route_of ag b Metric) b)"

definition the_trace :: "(exc \<Rightarrow> pystr) \<Rightarrow> agents \<Rightarrow> ingest_bundle \<Rightarrow> trace_evidence" where
  "the_trace text ag b =
     node_evidence text Trace code_trace_evidence (b_traces b) (ag_trace ag (route_of ag b Trace) b)"

definition the_routes :: "agents \<Rightarrow> ingest_bundle \<Rightarrow> routes" where
  "the_routes ag b = route_with_guardrails (ag_router ag b) b"

fun written :: "(exc \<Rightarrow> pystr) \<Rightarrow> agents \<Rightarrow> ingest_bundle \<Rightarrow> node \<Rightarrow> rca_state \<Rightarrow> bool" where
  "written text ag b Router_Node s = (st_routes s = Some (the_routes ag b))"
| "written text ag b (Modality_Node Log) s = (st_log_ev s = Some (the_log text ag b))"
| "written text ag b (Modality_Node Metric) s = (st_metric_ev s = Some (the_metric text ag b))"
| "written text ag b (Modality_Node Trace) s = (st_trace_ev s = Some (the_trace text ag b))"
| "written text ag b Report_Node s = (\<exists>r. st_result s = Some r \<and> orchestrate text ag b = Inr r)"

definition informed :: "(exc \<Rightarrow> pystr) \<Rightarrow> agents \<Rightarrow> ingest_bundle \<Rightarrow> node list \<Rightarrow> node \<Rightarrow> rca_state \<Rightarrow> bool" where
  "informed text ag b finished n seen \<longleftrightarrow>
     st_bundle seen = b \<and> set (the (dget build_graph n)) \<subseteq> set finished \<and>
     (\<forall>source \<in> set (the (dget build_graph n)). written text ag b source seen)"

definition graph_inv :: "(exc \<Rightarrow> pystr) \<Rightarrow> agents \<Rightarrow> ingest_bundle \<Rightarrow> graph_run \<Rightarrow> bool" where
  "graph_inv text ag b g \<longleftrightarrow>
     st_bundle (gr_state g) = b \<and> distinct (dkeys (gr_started g)) \<and> distinct (gr_finished g) \<and>
     set (gr_finished g) \<subseteq> set (dkeys (gr_started g)) \<and>
     (\<forall>(n, seen) \<in> set (gr_started g). informed text ag b (gr_finished g) n seen) \<and>
     (\<forall>e. gr_raised g = Some e \<longrightarrow> orchestrate text ag b = Inl e) \<and>
     (gr_raised g = None \<longrightarrow> (\<forall>n \<in> set (gr_finished g). written text ag b n (gr_state g)))"

lemma informed_more: "informed text ag b ns n seen \<Longrightarrow> informed text ag b (n' # ns) n seen"
  by (auto simp: informed_def)

lemma informed_all_more:
  "\<forall>(n, seen) \<in> set started. informed text ag b ns n seen \<Longrightarrow>
     \<forall>(n, seen) \<in> set started. informed text ag b (n' # ns) n seen"
  using informed_more by blast

lemma orchestrate_eq:
  "orchestrate text ag b =
     rbind (ag_report ag b (the_log text ag b) (the_metric text ag b) (the_trace text ag b))
       (\<lambda>draft. Inr (assemble draft (the_log text ag b) (the_metric text ag b) (the_trace text ag b) b))"
  by (simp add: orchestrate_def evidences_eq the_log_def the_metric_def the_trace_def)

lemma run_node_cases:
  assumes "st_bundle seen = b" and "\<forall>source \<in> set (the (dget build_graph n)). written text ag b source seen"
  shows "(\<exists>u. run_node text ag n seen = Inr u \<and> (\<forall>s. written text ag b n (apply_update u s) \<and>
            st_bundle (apply_update u s) = st_bundle s \<and>
            (\<forall>n'. n' \<noteq> n \<longrightarrow> written text ag b n' (apply_update u s) = written text ag b n' s))) \<or>
         (\<exists>e. run_node text ag n seen = Inl e \<and> orchestrate text ag b = Inl e)"
proof (cases n)
  case Router_Node
  have "written text ag b n' (s\<lparr>st_routes := r\<rparr>) = written text ag b n' s" if "n' \<noteq> Router_Node" for n' s r
    using that by (cases "(text, ag, b, n', s)" rule: written.cases) simp_all
  then show ?thesis using assms(1) by (simp add: Router_Node router_node_def the_routes_def)
next
  case (Modality_Node m)
  then have "routes_of seen = the_routes ag b" using assms(2) by (simp add: sources routes_of_def)
  note routes = this [unfolded the_routes_def]
  have keep: "written text ag b n' (s\<lparr>st_log_ev := x\<rparr>) = written text ag b n' s" if "n' \<noteq> Modality_Node Log" for n' s x
    using that by (cases "(text, ag, b, n', s)" rule: written.cases) simp_all
  have keep': "written text ag b n' (s\<lparr>st_metric_ev := x\<rparr>) = written text ag b n' s" if "n' \<noteq> Modality_Node Metric" for n' s x
    using that by (cases "(text, ag, b, n', s)" rule: written.cases) simp_all
  have keep'': "written text ag b n' (s\<lparr>st_trace_ev := x\<rparr>) = written text ag b n' s" if "n' \<noteq> Modality_Node Trace" for n' s x
    using that by (cases "(text, ag, b, n', s)" rule: written.cases) simp_all
  show ?thesis
    using assms(1) keep keep' keep''
    by (cases m) (simp_all add: Modality_Node routes modality_node_eq the_log_def the_metric_def the_trace_def)
next
  case Report_Node
  have "written text ag b n' (s\<lparr>st_result := x\<rparr>) = written text ag b n' s" if "n' \<noteq> Report_Node" for n' s x
    using that by (cases "(text, ag, b, n', s)" rule: written.cases) simp_all
  then show ?thesis using assms
    by (cases "ag_report ag b (the_log text ag b) (the_metric text ag b) (the_trace text ag b)")
       (auto simp: Report_Node sources report_node_def orchestrate_eq)
qed

lemma invoke_inv: "graph_inv text ag b (invoke job b)"
  by (simp add: graph_inv_def invoke_def)

lemma start_inv:
  assumes inv: "graph_inv text ag b g" and step: "graph_step text ag (Start n) g = Some g'"
  shows "graph_inv text ag b g'"
proof -
  from step obtain sources where sources: "dget build_graph n = Some sources" "set sources \<subseteq> set (gr_finished g)"
    and quiet: "gr_raised g = None" "n \<notin> set (dkeys (gr_started g))"
    and g': "g' = g\<lparr>gr_started := (n, gr_state g) # gr_started g\<rparr>"
    by (auto split: option.splits if_splits)
  have "informed text ag b (gr_finished g) n (gr_state g)"
    using inv sources quiet(1) by (auto simp: informed_def graph_inv_def)
  then show ?thesis using inv quiet by (simp add: graph_inv_def g' subset_insertI2)
qed

lemma finish_inv:
  assumes inv: "graph_inv text ag b g" and step: "graph_step text ag (Finish n) g = Some g'"
  shows "graph_inv text ag b g'"
proof -
  from step obtain seen where seen: "dget (gr_started g) n = Some seen" "gr_raised g = None" "n \<notin> set (gr_finished g)"
    by (auto split: option.splits if_splits)
  note parts = inv [unfolded graph_inv_def]
  have entry: "(n, seen) \<in> set (gr_started g)" by (rule dget_SomeD [OF seen(1)])
  have informed: "informed text ag b (gr_finished g) n' seen'" if "(n', seen') \<in> set (gr_started g)" for n' seen'
    using parts that by blast
  have known: "informed text ag b (gr_finished g) n seen" by (rule informed [OF entry])
  have key: "n \<in> set (dkeys (gr_started g))" using image_eqI [OF _ entry, of n fst] by simp
  have same: "st_bundle (gr_state g) = b" using parts by blast
  have past: "written text ag b n' (gr_state g)" if "n' \<in> set (gr_finished g)" for n' using parts seen(2) that by blast
  have started: "\<forall>(n', seen) \<in> set (gr_started g). informed text ag b (n # gr_finished g) n' seen"
    by (rule informed_all_more) (use informed in blast)
  have "st_bundle seen = b" "\<forall>source \<in> set (the (dget build_graph n)). written text ag b source seen"
    using known by (auto simp: informed_def)
  from run_node_cases [OF this] show ?thesis
  proof (elim disjE exE conjE)
    fix u assume run: "run_node text ag n seen = Inr u" and u: "\<forall>s. written text ag b n (apply_update u s) \<and>
      st_bundle (apply_update u s) = st_bundle s \<and>
      (\<forall>n'. n' \<noteq> n \<longrightarrow> written text ag b n' (apply_update u s) = written text ag b n' s)"
    have "\<forall>n' \<in> set (n # gr_finished g). written text ag b n' (apply_update u (gr_state g))"
    proof
      fix n' assume "n' \<in> set (n # gr_finished g)"
      then show "written text ag b n' (apply_update u (gr_state g))"
        using u [rule_format, of "gr_state g"] past seen(3) by (cases "n' = n") auto
    qed
    moreover have "st_bundle (apply_update u (gr_state g)) = b" using u [rule_format, of "gr_state g"] same by simp
    moreover have "g' = g\<lparr>gr_state := apply_update u (gr_state g), gr_finished := n # gr_finished g\<rparr>"
      using step seen run by simp
    ultimately show ?thesis using parts started seen(2,3) key by (simp add: graph_inv_def)
  next
    fix e assume "run_node text ag n seen = Inl e" and e: "orchestrate text ag b = Inl e"
    then have "g' = g\<lparr>gr_finished := n # gr_finished g, gr_raised := Some e\<rparr>" using step seen by simp
    then show ?thesis using parts started seen(3) key e by (simp add: graph_inv_def)
  qed
qed

lemma steps_inv:
  "graph_inv text ag b g \<Longrightarrow> graph_steps text ag evs g = Some g' \<Longrightarrow> graph_inv text ag b g' \<and>
     length (gr_started g') + length (gr_finished g') = length (gr_started g) + length (gr_finished g) + length evs"
proof (induction evs arbitrary: g)
  case (Cons ev evs)
  then obtain h where h: "graph_step text ag ev g = Some h" "graph_steps text ag evs h = Some g'"
    by (auto simp: bind_eq_Some_conv)
  have "graph_inv text ag b h" using Cons.prems(1) h(1) start_inv finish_inv by (cases ev) blast+
  note Cons.IH [OF this h(2)]
  moreover have "length (gr_started h) + length (gr_finished h) = Suc (length (gr_started g) + length (gr_finished g))"
    using h(1) by (cases ev) (auto split: option.splits if_splits sum.splits)
  ultimately show ?case by simp
qed simp

lemma result_is_orchestrate:
  assumes "graph_inv text ag b g" and "run_result g = Some r"
  shows "r = orchestrate text ag b"
  using assms by (auto simp: graph_inv_def run_result_def split: option.splits if_splits dest!: bspec)

lemma waiting_can_step:
  assumes inv: "graph_inv text ag b g" and waiting: "run_result g = None"
  shows "\<exists>ev. graph_step text ag ev g \<noteq> None"
proof (rule ccontr)
  assume "\<not> ?thesis"
  then have stuck: "graph_step text ag ev g = None" for ev by auto
  from waiting have quiet: "gr_raised g = None" "Report_Node \<notin> set (gr_finished g)"
    by (auto simp: run_result_def split: option.splits if_splits)
  have finished: "n \<in> set (gr_finished g)" if "set (the (dget build_graph n)) \<subseteq> set (gr_finished g)" for n
  proof (rule ccontr)
    assume new: "n \<notin> set (gr_finished g)"
    obtain sources where sources: "dget build_graph n = Some sources" by (cases n) (simp_all add: sources)
    with stuck [of "Start n"] that quiet(1) have "n \<in> set (dkeys (gr_started g))" by (auto split: if_splits)
    then obtain seen where "dget (gr_started g) n = Some seen" by (cases "dget (gr_started g) n") (auto simp: map_of_eq_None_iff)
    with stuck [of "Finish n"] quiet(1) new show False by (auto split: sum.splits)
  qed
  have "Router_Node \<in> set (gr_finished g)" by (rule finished) (simp add: sources)
  then have "Modality_Node m \<in> set (gr_finished g)" for m by (intro finished) (simp add: sources)
  then have "Report_Node \<in> set (gr_finished g)" by (intro finished) (simp add: sources)
  with quiet(2) show False by simp
qed

text \<open>C25. The order in which the router's three branches run does not matter: whatever interleaving of starts and
  finishes the scheduler chooses, the invocation takes at most ten of them, is never stuck before it has an outcome,
  and its outcome (a result, or the exception of the report agent) is the one of the plain composition of the nodes.\<close>

theorem graph_any_order:
  assumes "graph_steps text ag evs (invoke job b) = Some g"
  shows "length evs \<le> 10 \<and>
    (case run_result g of Some r \<Rightarrow> r = orchestrate text ag b | None \<Rightarrow> \<exists>ev. graph_step text ag ev g \<noteq> None)"
proof -
  from steps_inv [OF invoke_inv assms] have inv: "graph_inv text ag b g"
    and count: "length (gr_started g) + length (gr_finished g) = length evs" by (simp_all add: invoke_def)
  have "length (dkeys (gr_started g)) \<le> 5" "length (gr_finished g) \<le> 5"
    using inv by (auto simp: graph_inv_def intro!: distinct_nodes simp del: length_map)
  then show ?thesis using count result_is_orchestrate [OF inv] waiting_can_step [OF inv]
    by (auto split: option.split)
qed

definition sample_schedule :: "event list" where
  "sample_schedule = [Start Router_Node, Finish Router_Node, Start (Modality_Node Trace), Start (Modality_Node Log),
     Finish (Modality_Node Log), Start (Modality_Node Metric), Finish (Modality_Node Metric),
     Finish (Modality_Node Trace), Start Report_Node, Finish Report_Node]"

theorem graph_any_order_witness:
  "\<exists>g. graph_steps (\<lambda>_. lit ''late'') sample_agents sample_schedule (invoke 1 sample_bundle) = Some g \<and>
     run_result g = Some (orchestrate (\<lambda>_. lit ''late'') sample_agents sample_bundle)"
proof -
  have "(case graph_steps (\<lambda>_. lit ''late'') sample_agents sample_schedule (invoke 1 sample_bundle) of
      Some g \<Rightarrow> run_result g \<noteq> None | None \<Rightarrow> False)" by code_simp
  then obtain g r where g: "graph_steps (\<lambda>_. lit ''late'') sample_agents sample_schedule (invoke 1 sample_bundle) = Some g"
    and r: "run_result g = Some r" by (auto split: option.splits)
  from graph_any_order [OF g] r have "r = orchestrate (\<lambda>_. lit ''late'') sample_agents sample_bundle" by simp
  with g r show ?thesis by blast
qed

end
