(* ===== verification/Deployment.thy ===== *)
theory Deployment
  imports Pipeline
begin

text \<open>
  What surrounds a run: the settings (\<open>app/core/config.py\<close>) and what the components take from them, and the
  history of the table \<open>ingest_job\<close> (\<open>migrations/versions\<close>), as operations on tables with rows, against the
  columns of the ORM class (\<open>app/db/models.py\<close>). Alembic and MySQL are represented by what the operations
  mean: a new column gets its server default, or NULL, in the rows that exist.
\<close>

section \<open>Settings\<close>

record settings =
  mysql_host :: pystr
  mysql_port :: int
  mysql_user :: pystr
  mysql_password :: pystr
  mysql_db :: pystr
  spring_base_url :: pystr
  spring_signal_limit :: int
  log_level :: pystr
  db_auto_create :: bool
  rca_worker_concurrency :: int
  bundle_storage_dir :: pystr
  bundle_orphan_max_age_hours :: int
  db_pool_recycle_seconds :: int
  db_connect_timeout_seconds :: int
  stuck_job_after_seconds :: int
  stuck_job_interval_seconds :: int
  max_job_requeue :: int
  openai_api_key :: pystr
  openai_model_report :: pystr
  openai_model_analysis :: pystr
  openai_model_light :: pystr
  openai_max_concurrency :: int
  openai_max_retries :: int
  openai_max_input_chars :: int
  llm_timeout_low_seconds :: int
  llm_timeout_medium_seconds :: int
  llm_timeout_high_seconds :: int
  rca_overall_timeout_seconds :: int
  ingest_api_keys :: pystr
  internal_shared_secret :: pystr

definition default_settings :: settings where
  "default_settings =
     \<lparr>mysql_host = lit ''localhost'', mysql_port = 3306, mysql_user = lit ''root'', mysql_password = lit ''password'',
      mysql_db = lit ''chok_ai'', spring_base_url = lit ''http://localhost:8080'', spring_signal_limit = 200,
      log_level = lit ''INFO'', db_auto_create = False, rca_worker_concurrency = 2,
      bundle_storage_dir = lit ''data/bundles'', bundle_orphan_max_age_hours = 24, db_pool_recycle_seconds = 3600,
      db_connect_timeout_seconds = 10, stuck_job_after_seconds = 1500, stuck_job_interval_seconds = 300,
      max_job_requeue = 1, openai_api_key = [], openai_model_report = lit ''gpt-5.5-2026-04-23'',
      openai_model_analysis = lit ''gpt-5.4-mini-2026-03-17'', openai_model_light = lit ''gpt-5.4-nano-2026-03-17'',
      openai_max_concurrency = 4, openai_max_retries = 3, openai_max_input_chars = 120000,
      llm_timeout_low_seconds = 60, llm_timeout_medium_seconds = 180, llm_timeout_high_seconds = 300,
      rca_overall_timeout_seconds = 600, ingest_api_keys = [], internal_shared_secret = []\<rparr>"

definition async_db_url :: "settings \<Rightarrow> pystr" where
  "async_db_url s =
     lit ''mysql+aiomysql://'' @ mysql_user s @ lit '':'' @ mysql_password s @
     lit ''@'' @ mysql_host s @ lit '':'' @ str_of_int (mysql_port s) @ lit ''/'' @ mysql_db s"

text \<open>The database URL of a migration run.\<close>

definition migration_url :: "pystr option \<Rightarrow> settings \<Rightarrow> pystr" where
  "migration_url override s =
     (case override of None \<Rightarrow> async_db_url s | Some u \<Rightarrow> if u = [] then async_db_url s else u)"

record engine_options =
  pool_pre_ping :: bool
  pool_recycle :: int
  connect_timeout :: int

definition engine_resilience :: "settings \<Rightarrow> engine_options" where
  "engine_resilience s =
     \<lparr>pool_pre_ping = True, pool_recycle = db_pool_recycle_seconds s, connect_timeout = db_connect_timeout_seconds s\<rparr>"

definition llm_of :: "settings \<Rightarrow> llm_settings" where
  "llm_of s =
     \<lparr>model_report = openai_model_report s, model_analysis = openai_model_analysis s, model_light = openai_model_light s,
      api_key = openai_api_key s, max_retries = openai_max_retries s, max_input_chars = openai_max_input_chars s,
      timeout_low = llm_timeout_low_seconds s, timeout_medium = llm_timeout_medium_seconds s,
      timeout_high = llm_timeout_high_seconds s\<rparr>"

text \<open>The loops' own defaults: \<open>grace_seconds\<close>, \<open>retention_hours\<close>.\<close>

definition grace_seconds :: int where "grace_seconds = 30"
definition retention_hours :: int where "retention_hours = 24"

definition env_of :: "settings \<Rightarrow> drain \<Rightarrow> nan_sort \<Rightarrow> lax_int \<Rightarrow> ((pystr, json) dict \<Rightarrow> schema_error list) \<Rightarrow>
    (exc \<Rightarrow> pystr) \<Rightarrow> env" where
  "env_of s drain tim lax errors text =
     \<lparr>env_drain = drain, env_tim = tim, env_lax = lax, env_signal_limit = spring_signal_limit s,
      env_max_requeue = max_job_requeue s, env_stuck_after = stuck_job_after_seconds s, env_grace = grace_seconds,
      env_retention = retention_hours * 3600, env_orphan_hours = bundle_orphan_max_age_hours s,
      env_errors_of = errors, env_text = text\<rparr>"

text \<open>The request to Spring.\<close>

definition spring_url :: "settings \<Rightarrow> pystr" where
  "spring_url s = str_rstrip (\<lambda>c. c = 47) (spring_base_url s) @ lit ''/api/internal/reports''"

definition spring_headers :: "settings \<Rightarrow> (pystr \<times> pystr) list option" where
  "spring_headers s =
     (if internal_shared_secret s = [] then None else Some [(lit ''X-Internal-Secret'', internal_shared_secret s)])"

text \<open>How long the analysis of one job may take: two attempts, each cut off by \<open>wait_for\<close>.\<close>

definition analysis_seconds :: "settings \<Rightarrow> int" where
  "analysis_seconds s = 2 * rca_overall_timeout_seconds s"

text \<open>Whether a job whose analysis began at \<open>t\<close> is taken for stuck at \<open>now\<close>.\<close>

definition taken_for_stuck :: "env \<Rightarrow> int \<Rightarrow> int \<Rightarrow> bool" where
  "taken_for_stuck env now t \<longleftrightarrow> t < now - env_stuck_after env"

lemma taken_for_stuck_select:
  "row w jid = Some job \<Longrightarrow> j_status job = RUNNING \<Longrightarrow>
     (jid, job) \<in> set (select_running (Some (w_now w - env_stuck_after env)) w) \<longleftrightarrow>
     taken_for_stuck env (w_now w) (j_updated job) \<and> (jid, job) \<in> set (w_jobs w)"
  by (auto simp: select_running_def taken_for_stuck_def)

text \<open>With the default settings no analysis is taken for stuck while it may still be running: the reaper's
  threshold leaves 300 seconds beyond two attempts of full length, and each attempt is long enough for its
  three rounds of calls (router, modality, report) at their own time limits.\<close>

theorem default_margins:
  fixes drain tim lax errors "text"
  defines "env \<equiv> env_of default_settings drain tim lax errors text"
  shows "(\<forall>now t. now \<le> t + analysis_seconds default_settings + 300 \<longrightarrow> \<not> taken_for_stuck env now t) \<and>
    timeout_for (llm_of default_settings) Low + timeout_for (llm_of default_settings) Medium +
      timeout_for (llm_of default_settings) High \<le> rca_overall_timeout_seconds default_settings"
  by (simp add: env_def env_of_def taken_for_stuck_def analysis_seconds_def default_settings_def llm_of_def)

text \<open>The URL does not quote what it is put together from: different credentials give the same URL.\<close>

lemma db_url_ambiguous:
  "async_db_url (default_settings\<lparr>mysql_user := lit ''a:b'', mysql_password := lit ''c''\<rparr>) =
   async_db_url (default_settings\<lparr>mysql_user := lit ''a'', mysql_password := lit ''b:c''\<rparr>)"
  by (simp add: async_db_url_def default_settings_def)

section \<open>Tables\<close>

datatype sql_type = Integer | Varchar nat | LongText | Json | Date_Time

datatype sql_val = VNull | VInt int | VStr pystr | VJson "(pystr, json) dict" | VTime int

record column =
  c_name :: string
  c_type :: sql_type
  c_nullable :: bool
  c_default :: "(int \<Rightarrow> sql_val) option"

type_synonym sql_row = "(string, sql_val) dict"

record table =
  t_columns :: "column list"
  t_key :: string
  t_rows :: "sql_row list"

type_synonym schema = "(string, table) dict"

text \<open>The operations of a revision, at the time \<open>now\<close>; \<open>None\<close> when the database refuses.\<close>

definition create_table :: "string \<Rightarrow> column list \<Rightarrow> string \<Rightarrow> schema \<Rightarrow> schema option" where
  "create_table t cols key s =
     (case dget s t of Some tbl \<Rightarrow> None | None \<Rightarrow> Some (dset t \<lparr>t_columns = cols,
       t_key = key, t_rows = []\<rparr> s))"

definition drop_table :: "string \<Rightarrow> schema \<Rightarrow> schema option" where
  "drop_table t s = (case dget s t of None \<Rightarrow> None | Some tbl \<Rightarrow> Some (AList.delete t s))"

definition fill :: "int \<Rightarrow> column \<Rightarrow> sql_val" where
  "fill now c = (case c_default c of None \<Rightarrow> VNull | Some d \<Rightarrow> d now)"

definition add_column :: "int \<Rightarrow> string \<Rightarrow> column \<Rightarrow> schema \<Rightarrow> schema option" where
  "add_column now t c s =
     (case dget s t of
        None \<Rightarrow> None
      | Some tbl \<Rightarrow>
          if c_name c \<in> set (map c_name (t_columns tbl)) then None
          else Some (dset t (tbl\<lparr>t_columns := t_columns tbl @ [c],
                                t_rows := map (\<lambda>r. r @ [(c_name c, fill now c)]) (t_rows tbl)\<rparr>) s))"

definition drop_column :: "string \<Rightarrow> string \<Rightarrow> schema \<Rightarrow> schema option" where
  "drop_column t n s =
     (case dget s t of
        None \<Rightarrow> None
      | Some tbl \<Rightarrow>
          if n \<notin> set (map c_name (t_columns tbl)) then None
          else Some (dset t (tbl\<lparr>t_columns := filter (\<lambda>c. c_name c \<noteq> n) (t_columns tbl),
                                t_rows := map (filter (\<lambda>(k, v). k \<noteq> n)) (t_rows tbl)\<rparr>) s))"

definition col :: "string \<Rightarrow> sql_type \<Rightarrow> bool \<Rightarrow> (int \<Rightarrow> sql_val) option \<Rightarrow> column" where
  "col n ty nullable dflt = \<lparr>c_name = n, c_type = ty, c_nullable = nullable, c_default = dflt\<rparr>"

section \<open>Revisions\<close>

definition ingest_job :: string where "ingest_job = ''ingest_job''"

definition upgrade_0001 :: "schema \<Rightarrow> schema option" where
  "upgrade_0001 = create_table ingest_job
     [col ''job_id'' Integer False None, col ''status'' (Varchar 16) False None, col ''bundle'' Json False None,
      col ''result'' Json True None, col ''error'' LongText True None,
      col ''created_at'' Date_Time False (Some VTime), col ''updated_at'' Date_Time False (Some VTime)] ''job_id''"

definition downgrade_0001 :: "schema \<Rightarrow> schema option" where
  "downgrade_0001 = drop_table ingest_job"

definition upgrade_0002 :: "int \<Rightarrow> schema \<Rightarrow> schema option" where
  "upgrade_0002 now = add_column now ingest_job (col ''requeue_count'' Integer False (Some (\<lambda>_. VInt 0)))"

definition downgrade_0002 :: "schema \<Rightarrow> schema option" where
  "downgrade_0002 = drop_column ingest_job ''requeue_count''"

definition upgrade_0003 :: "int \<Rightarrow> schema \<Rightarrow> schema option" where
  "upgrade_0003 now = add_column now ingest_job (col ''signals_path'' (Varchar 255) True None)"

definition downgrade_0003 :: "schema \<Rightarrow> schema option" where
  "downgrade_0003 = drop_column ingest_job ''signals_path''"

text \<open>The columns of the ORM class, as \<open>create_all\<close> would make them.\<close>

definition orm_columns :: "column list" where
  "orm_columns =
     [col ''job_id'' Integer False None, col ''status'' (Varchar 16) False None, col ''bundle'' Json False None,
      col ''signals_path'' (Varchar 255) True None, col ''result'' Json True None, col ''error'' LongText True None,
      col ''requeue_count'' Integer False (Some (\<lambda>_. VInt 0)),
      col ''created_at'' Date_Time False (Some VTime), col ''updated_at'' Date_Time False (Some VTime)]"

text \<open>A row as the ORM reads it.\<close>

definition status_name :: "status \<Rightarrow> pystr" where
  "status_name s =
     (case s of PENDING \<Rightarrow> lit ''PENDING'' | RUNNING \<Rightarrow> lit ''RUNNING'' | DELIVERING \<Rightarrow> lit ''DELIVERING''
      | DONE \<Rightarrow> lit ''DONE'' | FAILED \<Rightarrow> lit ''FAILED'')"

definition status_col :: "sql_val \<Rightarrow> status option" where
  "status_col v = (case v of VStr s \<Rightarrow> find (\<lambda>st. status_name st = s) [PENDING, RUNNING,
    DELIVERING, DONE, FAILED] | _ \<Rightarrow> None)"

fun json_col :: "sql_val \<Rightarrow> (pystr, json) dict option" where
  "json_col (VJson d) = Some d"
| "json_col _ = None"

fun str_col :: "sql_val \<Rightarrow> pystr option" where
  "str_col (VStr s) = Some s"
| "str_col _ = None"

fun int_col :: "sql_val \<Rightarrow> int option" where
  "int_col (VInt n) = Some n"
| "int_col _ = None"

fun time_col :: "sql_val \<Rightarrow> int option" where
  "time_col (VTime n) = Some n"
| "time_col _ = None"

definition job_of_row :: "sql_row \<Rightarrow> job option" where
  "job_of_row r =
     (let get = (\<lambda>n. case dget r n of Some v \<Rightarrow> v | None \<Rightarrow> VNull)
      in case (status_col (get ''status''), json_col (get ''bundle''), int_col (get ''requeue_count''), time_col (get ''updated_at'')) of
           (Some st, Some b, Some n, Some u) \<Rightarrow>
             Some \<lparr>j_status = st, j_bundle = b, j_signals = str_col (get ''signals_path''), j_result = json_col (get ''result''),
                   j_error = str_col (get ''error''), j_requeue = n, j_updated = u\<rparr>
         | _ \<Rightarrow> None)"

definition upgrade_from_0001 :: "int \<Rightarrow> schema \<Rightarrow> schema option" where
  "upgrade_from_0001 now s = Option.bind (upgrade_0002 now s) (upgrade_0003 now)"

definition downgrade_to_0001 :: "schema \<Rightarrow> schema option" where
  "downgrade_to_0001 s = Option.bind (downgrade_0003 s) downgrade_0002"

section \<open>The history is consistent\<close>

text \<open>The migrations and the ORM class agree: the chain of revisions on an empty database makes the one table the
  class declares, with the same columns (name, type, nullability, default), in another order.\<close>

theorem migrations_match_orm:
  "\<exists>tbl. Option.bind (upgrade_0001 []) (upgrade_from_0001 now) = Some [(ingest_job, tbl)] \<and>
     set (t_columns tbl) = set orm_columns \<and> length (t_columns tbl) = length orm_columns \<and>
     t_key tbl = ''job_id'' \<and> t_rows tbl = []"
  by (auto simp: upgrade_0001_def upgrade_from_0001_def upgrade_0002_def upgrade_0003_def create_table_def add_column_def
      ingest_job_def col_def orm_columns_def)

text \<open>Statuses fit their column.\<close>

lemma status_fits: "length (status_name s) \<le> 16"
  by (cases s) (simp_all add: status_name_def)

lemma status_col_name [simp]: "status_col (VStr (status_name s)) = Some s"
  by (cases s) (simp_all add: status_col_def status_name_def lit_eq_iff del: lit_simps)

text \<open>A table as revision 0001 left it.\<close>

definition old_table :: "table \<Rightarrow> bool" where
  "old_table tbl \<longleftrightarrow>
     map c_name (t_columns tbl) = [''job_id'', ''status'', ''bundle'', ''result'', ''error'', ''created_at'',
       ''updated_at''] \<and>
     list_all (\<lambda>r. dkeys r = map c_name (t_columns tbl)) (t_rows tbl)"

lemma upgraded_table:
  assumes "dget s ingest_job = Some tbl" and "old_table tbl" and "upgrade_from_0001 now s = Some s'"
  shows "s' = dset ingest_job (tbl\<lparr>t_columns := t_columns tbl @
    [col ''requeue_count'' Integer False (Some (\<lambda>_. VInt 0)),
      col ''signals_path'' (Varchar 255) True None],
    t_rows := map (\<lambda>r. r @ [(''requeue_count'', VInt 0), (''signals_path'', VNull)]) (t_rows tbl)\<rparr>) s"
  using assms
  by (auto simp: upgrade_from_0001_def upgrade_0002_def upgrade_0003_def add_column_def old_table_def col_def fill_def
      dict_simps comp_def split: if_splits)

text \<open>Dropping an added column undoes the addition.\<close>

lemma drop_added_column:
  assumes "add_column now t c s = Some s'" and "dget s t = Some tbl" and "list_all (\<lambda>r. c_name c \<notin> set (dkeys r)) (t_rows tbl)"
  shows "drop_column t (c_name c) s' = Some s"
proof -
  have fresh: "c_name c \<notin> set (map c_name (t_columns tbl))"
    and s': "s' = dset t (tbl\<lparr>t_columns := t_columns tbl @ [c], t_rows := map (\<lambda>r. r @
      [(c_name c, fill now c)]) (t_rows tbl)\<rparr>) s"
    using assms(1,2) by (auto simp: add_column_def split: if_splits)
  have cols: "filter (\<lambda>d. c_name d \<noteq> c_name c) (t_columns tbl) = t_columns tbl"
    using fresh by (metis (mono_tags, lifting) filter_True imageI set_map)
  have rows: "map (\<lambda>r. filter (\<lambda>(k, v). k \<noteq> c_name c) r) (t_rows tbl) = t_rows tbl"
    using assms(3) by (intro map_idI) (force simp: list_all_iff filter_id_conv)
  have "dset t tbl (dset t x s) = s" for x using assms(2) by (simp add: update_last update_triv)
  then show ?thesis by (simp add: s' drop_column_def dict_simps cols comp_def rows)
qed

lemma old_table_names:
  assumes "old_table tbl" and "n = ''requeue_count'' \<or> n = ''signals_path''"
  shows "n \<notin> set (map c_name (t_columns tbl))" and "list_all (\<lambda>r. n \<notin> set (dkeys r)) (t_rows tbl)"
proof -
  show "n \<notin> set (map c_name (t_columns tbl))" using assms by (auto simp: old_table_def simp del: set_map)
  then show "list_all (\<lambda>r. n \<notin> set (dkeys r)) (t_rows tbl)"
    using assms(1) unfolding old_table_def list_all_iff by metis
qed

lemma downgrade_upgrade:
  assumes tbl: "dget s ingest_job = Some tbl" "old_table tbl" and up: "upgrade_from_0001 now s = Some s'"
  shows "downgrade_to_0001 s' = Some s"
proof -
  let ?c = "col ''requeue_count'' Integer False (Some (\<lambda>_. VInt 0))"
  let ?d = "col ''signals_path'' (Varchar 255) True None"
  obtain s1 where s1: "add_column now ingest_job ?c s = Some s1" "add_column now ingest_job ?d s1 = Some s'"
    using up by (auto simp: upgrade_from_0001_def upgrade_0002_def upgrade_0003_def bind_eq_Some_conv)
  have n: "c_name ?c = ''requeue_count''" "c_name ?d = ''signals_path''" by (simp_all add: col_def)
  have one: "drop_column ingest_job ''requeue_count'' s1 = Some s"
    using drop_added_column [OF s1(1) tbl(1)] old_table_names(2) [OF tbl(2)] by (simp add: n)
  have t1: "dget s1 ingest_job = Some (tbl\<lparr>t_columns := t_columns tbl @ [?c],
      t_rows := map (\<lambda>r. r @ [(''requeue_count'', fill now ?c)]) (t_rows tbl)\<rparr>)"
    using s1(1) tbl(1) by (auto simp: add_column_def dict_simps n split: if_splits)
  have "drop_column ingest_job ''signals_path'' s' = Some s1"
    using drop_added_column [OF s1(2) t1] old_table_names(2) [OF tbl(2)] by (simp add: n list_all_iff)
  with one show ?thesis by (simp add: downgrade_to_0001_def downgrade_0002_def downgrade_0003_def)
qed

text \<open>C37. A deployment over live data: every row of the first revision is still a job afterwards, the same in what it had,
  never requeued and without a signal file, so that its bundle is restored from the row itself; and going back
  down restores the database exactly.\<close>

theorem migration_keeps_jobs:
  assumes tbl: "dget s ingest_job = Some tbl" "old_table tbl" and up: "upgrade_from_0001 now s = Some s'"
    and r: "r \<in> set (t_rows tbl)" "dget r ''status'' = Some (VStr (status_name st))" "dget r ''bundle'' = Some (VJson b)"
      "dget r ''updated_at'' = Some (VTime u)"
  shows "(\<exists>tbl' r' job. dget s' ingest_job = Some tbl' \<and> r' \<in> set (t_rows tbl') \<and> dget r' ''job_id'' = dget r ''job_id'' \<and>
      job_of_row r' = Some job \<and> j_status job = st \<and> j_requeue job = 0 \<and> j_updated job = u \<and>
      restore_bundle lax fs (j_bundle job) (j_signals job) = model_validate lax b) \<and>
    downgrade_to_0001 s' = Some s"
proof -
  note s' = upgraded_table [OF tbl up]
  let ?r = "r @ [(''requeue_count'', VInt 0), (''signals_path'', VNull)]"
  have keys: "dkeys r = [''job_id'', ''status'', ''bundle'', ''result'', ''error'', ''created_at'', ''updated_at'']"
    using tbl(2) r(1) by (auto simp: old_table_def list_all_iff)
  have "fst ` set r = set (dkeys r)" by simp
  then have new: "dget r ''requeue_count'' = None" "dget r ''signals_path'' = None"
    by (simp_all add: map_of_eq_None_iff keys)
  have old: "dget ?r n = dget r n" if "n \<in> set (dkeys r)" for n
    using that by (auto simp: map_add_def map_of_eq_None_iff split: option.split)
  have get: "dget ?r ''status'' = Some (VStr (status_name st))" "dget ?r ''bundle'' = Some (VJson b)"
    "dget ?r ''updated_at'' = Some (VTime u)" "dget ?r ''job_id'' = dget r ''job_id''"
    "dget ?r ''requeue_count'' = Some (VInt 0)" "dget ?r ''signals_path'' = Some VNull"
    using r(2-4) old new by (simp_all add: keys map_add_def)
  obtain job where "job_of_row ?r = Some job" "j_status job = st" "j_requeue job = 0" "j_updated job = u"
    "j_bundle job = b" "j_signals job = None"
    using get by (simp add: job_of_row_def Let_def)
  moreover have "restore_bundle lax fs b None = model_validate lax b" by (simp add: restore_cases)
  ultimately show ?thesis using s' r(1) get(4) downgrade_upgrade [OF tbl up] by (auto simp: dict_simps)
qed

definition sample_row_0001 :: sql_row where
  "sample_row_0001 =
     [(''job_id'', VInt 1), (''status'', VStr (status_name RUNNING)), (''bundle'', VJson []), (''result'', VNull),
      (''error'', VNull), (''created_at'', VTime 5), (''updated_at'', VTime 7)]"

definition sample_db_0001 :: schema where
  "sample_db_0001 = map (\<lambda>(n, t). (n, t\<lparr>t_rows := [sample_row_0001]\<rparr>)) (the (upgrade_0001 []))"

theorem migration_keeps_jobs_witness:
  "\<exists>s'. upgrade_from_0001 9 sample_db_0001 = Some s' \<and> downgrade_to_0001 s' = Some sample_db_0001 \<and>
     (\<exists>tbl' r' job. dget s' ingest_job = Some tbl' \<and> r' \<in> set (t_rows tbl') \<and> job_of_row r' = Some job \<and> j_status job = RUNNING)"
proof -
  obtain tbl where tbl: "dget sample_db_0001 ingest_job = Some tbl" "old_table tbl" "t_rows tbl = [sample_row_0001]"
    by (simp add: sample_db_0001_def upgrade_0001_def create_table_def old_table_def ingest_job_def col_def sample_row_0001_def)
  have names: "map c_name (t_columns tbl) = [''job_id'', ''status'', ''bundle'', ''result'', ''error'',
    ''created_at'', ''updated_at'']"
    using tbl(2) by (simp add: old_table_def)
  obtain s' where up: "upgrade_from_0001 9 sample_db_0001 = Some s'"
    using tbl(1) arg_cong [OF names, of set]
    by (auto simp: upgrade_from_0001_def upgrade_0002_def upgrade_0003_def add_column_def col_def dict_simps)
  show ?thesis
    using migration_keeps_jobs [OF tbl(1,2) up, of sample_row_0001 RUNNING "[]" 7 "\<lambda>_. None" "[]"] up tbl(3)
    by (auto simp: sample_row_0001_def)
qed

end
