(* ===== verification/Llm_Limit.thy ===== *)
theory Llm_Limit
  imports Deployment
begin

text \<open>
  The global limit on simultaneous calls of the language model (\<open>llm_limit\<close> in \<open>app/agents/llm.py\<close>): one
  \<open>asyncio.Semaphore\<close> for the process, created at its first use, entered by every agent around its call. The
  semaphore is the one of the standard library: a counter and a queue of waiting tasks, which it wakes in order; a
  woken task holds its place from the moment it is woken and enters when the event loop resumes it. A task can be
  cancelled while it waits (the deadline of a job does that) and leaves its call by an answer, an exception or a
  cancellation alike.
\<close>

section \<open>The semaphore\<close>

text \<open>A waiting task with whether it has been woken.\<close>

record semaphore =
  sem_value :: nat
  sem_waiters :: "(nat \<times> bool) list"

text \<open>The constructor refuses a negative number.\<close>

definition make_semaphore :: "int \<Rightarrow> semaphore res" where
  "make_semaphore n = (if n < 0 then Inl (ValueError (lit ''Semaphore initial value must be >= 0''))
     else Inr \<lparr>sem_value = nat n, sem_waiters = []\<rparr>)"

definition sem_locked :: "semaphore \<Rightarrow> bool" where
  "sem_locked s \<longleftrightarrow> sem_value s = 0 \<or> sem_waiters s \<noteq> []"

text \<open>\<open>_wake_up_next\<close>: the first waiter not yet woken takes one from the counter.\<close>

fun wake_next :: "(nat \<times> bool) list \<Rightarrow> (nat \<times> bool) list option" where
  "wake_next [] = None"
| "wake_next ((i, True) # ws) = map_option ((#) (i, True)) (wake_next ws)"
| "wake_next ((i, False) # ws) = Some ((i, True) # ws)"

fun wake_while :: "nat \<Rightarrow> (nat \<times> bool) list \<Rightarrow> semaphore" where
  "wake_while 0 ws = \<lparr>sem_value = 0, sem_waiters = ws\<rparr>"
| "wake_while (Suc v) ws =
     (case wake_next ws of None \<Rightarrow> \<lparr>sem_value = Suc v, sem_waiters = ws\<rparr> | Some ws' \<Rightarrow> wake_while v ws')"

definition release :: "semaphore \<Rightarrow> semaphore" where
  "release s =
     (case wake_next (sem_waiters s) of
        None \<Rightarrow> s\<lparr>sem_value := Suc (sem_value s)\<rparr>
      | Some ws \<Rightarrow> s\<lparr>sem_waiters := ws\<rparr>)"

section \<open>The calls of the process\<close>

record call_state =
  cs_semaphore :: "semaphore option"
  cs_inside :: "nat list"

text \<open>\<open>llm_limit\<close>: the one semaphore, created on demand.\<close>

definition llm_limit :: "settings \<Rightarrow> call_state \<Rightarrow> semaphore res" where
  "llm_limit s cs =
     (case cs_semaphore cs of Some sem \<Rightarrow> Inr sem | None \<Rightarrow> make_semaphore (openai_max_concurrency s))"

text \<open>What a task does at \<open>async with llm_limit()\<close>: \<open>Ask\<close> reaches the block, \<open>Resume\<close> is its continuation after it
  was woken, \<open>Give_Up\<close> its cancellation while it waits, \<open>Leave\<close> the end of its call.\<close>

datatype call_event = Ask nat | Resume nat | Give_Up nat | Leave nat

definition known :: "call_state \<Rightarrow> nat set" where
  "known cs = set (cs_inside cs) \<union> (case cs_semaphore cs of None \<Rightarrow> {} | Some sem \<Rightarrow> fst ` set (sem_waiters sem))"

fun call_step :: "settings \<Rightarrow> call_event \<Rightarrow> call_state \<Rightarrow> call_state option" where
  "call_step s (Ask i) cs =
     (if i \<in> known cs then None
      else case llm_limit s cs of
        Inl e \<Rightarrow> Some cs
      | Inr sem \<Rightarrow>
          if sem_locked sem
          then Some (cs\<lparr>cs_semaphore := Some (sem\<lparr>sem_waiters := sem_waiters sem @ [(i,
            False)]\<rparr>)\<rparr>)
          else Some (cs\<lparr>cs_semaphore := Some (sem\<lparr>sem_value := sem_value sem - 1\<rparr>), cs_inside := i # cs_inside cs\<rparr>))"
| "call_step s (Resume i) cs =
     (case cs_semaphore cs of
        None \<Rightarrow> None
      | Some sem \<Rightarrow>
          if (i, True) \<in> set (sem_waiters sem)
          then Some (cs\<lparr>cs_semaphore := Some (wake_while (sem_value sem) (remove1 (i, True) (sem_waiters sem))),
                        cs_inside := i # cs_inside cs\<rparr>)
          else None)"
| "call_step s (Give_Up i) cs =
     (case cs_semaphore cs of
        None \<Rightarrow> None
      | Some sem \<Rightarrow>
          if (i, True) \<in> set (sem_waiters sem)
          then Some (cs\<lparr>cs_semaphore := Some (wake_while (Suc (sem_value sem)) (remove1 (i, True) (sem_waiters sem)))\<rparr>)
          else if (i, False) \<in> set (sem_waiters sem)
          then Some (cs\<lparr>cs_semaphore := Some (wake_while (sem_value sem) (remove1 (i, False) (sem_waiters sem)))\<rparr>)
          else None)"
| "call_step s (Leave i) cs =
     (case cs_semaphore cs of
        None \<Rightarrow> None
      | Some sem \<Rightarrow>
          if i \<in> set (cs_inside cs)
          then Some (cs\<lparr>cs_semaphore := Some (release sem), cs_inside := remove1 i (cs_inside cs)\<rparr>)
          else None)"

fun call_steps :: "settings \<Rightarrow> call_event list \<Rightarrow> call_state \<Rightarrow> call_state option" where
  "call_steps s [] cs = Some cs"
| "call_steps s (ev # evs) cs = Option.bind (call_step s ev cs) (call_steps s evs)"

definition no_calls :: call_state where
  "no_calls = \<lparr>cs_semaphore = None, cs_inside = []\<rparr>"

section \<open>The invariant\<close>

definition woken :: "(nat \<times> bool) list \<Rightarrow> nat" where
  "woken ws = length (filter snd ws)"

text \<open>Woken tasks stand before those that still wait.\<close>

fun in_order :: "(nat \<times> bool) list \<Rightarrow> bool" where
  "in_order [] = True"
| "in_order ((i, w) # ws) = (in_order ws \<and> (\<not> w \<longrightarrow> woken ws = 0))"

definition limit_ok :: "nat \<Rightarrow> semaphore \<Rightarrow> nat \<Rightarrow> bool" where
  "limit_ok n sem inside \<longleftrightarrow>
     sem_value sem + woken (sem_waiters sem) + inside = n \<and> in_order (sem_waiters sem) \<and>
     (sem_value sem > 0 \<and> sem_waiters sem \<noteq> [] \<longrightarrow> woken (sem_waiters sem) > 0)"

lemma woken_simps [simp]:
  "woken [] = 0" "woken ((i, w) # ws) = (if w then Suc (woken ws) else woken ws)"
  "woken (ws @ ws') = woken ws + woken ws'"
  by (simp_all add: woken_def)

text \<open>A task that waits while the counter is positive came while a woken one had not resumed; that one will let it in.\<close>

lemma woken_le: "woken ws \<le> length ws"
  by (simp add: woken_def)

lemma wake_next_None: "wake_next ws = None \<longleftrightarrow> woken ws = length ws"
proof (induction ws rule: wake_next.induct)
  case (3 i ws)
  then show ?case using woken_le [of ws] by simp
qed simp_all

lemma wake_next_Some:
  "wake_next ws = Some ws' \<Longrightarrow> woken ws' = Suc (woken ws) \<and> length ws' = length ws \<and> (in_order ws \<longrightarrow> in_order ws')"
  by (induction ws arbitrary: ws' rule: wake_next.induct) auto

lemma wake_while_ok:
  assumes "in_order ws" and "v + woken ws + inside = n"
  shows "limit_ok n (wake_while v ws) inside"
  using assms
proof (induction v ws rule: wake_while.induct)
  case (2 v ws)
  show ?case
  proof (cases "wake_next ws")
    case None
    then have "woken ws = length ws" by (simp flip: wake_next_None)
    with None show ?thesis using 2(2,3) by (simp add: limit_ok_def)
  next
    case (Some ws')
    from wake_next_Some [OF Some] 2(2,3) have "in_order ws'" "v + woken ws' + inside = n" by simp_all
    from 2(1) [OF Some this] Some show ?thesis by simp
  qed
qed (simp add: limit_ok_def)

lemma release_ok:
  assumes "limit_ok n sem (Suc inside)"
  shows "limit_ok n (release sem) inside"
proof (cases "wake_next (sem_waiters sem)")
  case None
  then have "woken (sem_waiters sem) = length (sem_waiters sem)" by (simp flip: wake_next_None)
  with None show ?thesis using assms by (simp add: release_def limit_ok_def)
next
  case (Some ws)
  then have "woken (sem_waiters sem) \<noteq> length (sem_waiters sem)" by (metis option.distinct(1) wake_next_None)
  with Some show ?thesis using assms wake_next_Some [OF Some] by (simp add: release_def limit_ok_def)
qed

lemma woken_remove:
  "(i, w) \<in> set ws \<Longrightarrow> woken ws = (if w then Suc (woken (remove1 (i, w) ws)) else woken (remove1 (i, w) ws))"
proof (induction ws)
  case (Cons q ws)
  obtain j b where "q = (j, b)" by (cases q)
  with Cons show ?case by (cases b; cases w; cases "i = j") auto
qed simp

lemma in_order_remove: "in_order ws \<Longrightarrow> in_order (remove1 p ws)"
proof (induction ws)
  case (Cons q ws)
  obtain i w where q: "q = (i, w)" by (cases q)
  have "woken (remove1 p ws) \<le> woken ws"
  proof (cases "p \<in> set ws")
    case True
    obtain j b where p: "p = (j, b)" by (cases p)
    with True woken_remove [of j b ws] show ?thesis by (simp split: if_splits)
  qed (simp add: remove1_idem)
  with Cons show ?case by (auto simp: q)
qed simp

lemma in_order_append: "in_order ws \<Longrightarrow> in_order (ws @ [(i, False)])"
  by (induction ws) auto

lemma departed_ok:
  assumes "limit_ok n sem inside" and "(i, w) \<in> set (sem_waiters sem)" and "v + inside' = sem_value sem + of_bool w + inside"
  shows "limit_ok n (wake_while v (remove1 (i, w) (sem_waiters sem))) inside'"
  using assms woken_remove [OF assms(2)]
  by (intro wake_while_ok) (auto simp: limit_ok_def in_order_remove split: if_splits)

text \<open>All states of a process whose limit is \<open>n\<close>.\<close>

definition calls_ok :: "int \<Rightarrow> call_state \<Rightarrow> bool" where
  "calls_ok n cs \<longleftrightarrow>
     (case cs_semaphore cs of
        None \<Rightarrow> cs_inside cs = []
      | Some sem \<Rightarrow> 0 \<le> n \<and> limit_ok (nat n) sem (length (cs_inside cs)))"

lemma call_step_ok:
  assumes ok: "calls_ok (openai_max_concurrency s) cs" and step: "call_step s ev cs = Some cs'"
  shows "calls_ok (openai_max_concurrency s) cs'"
proof (cases ev)
  case (Ask i)
  show ?thesis
  proof (cases "llm_limit s cs")
    case (Inl e)
    then show ?thesis using ok step by (simp add: Ask split: if_splits)
  next
    case (Inr sem)
    have sem: "0 \<le> openai_max_concurrency s" "limit_ok (nat (openai_max_concurrency s)) sem (length (cs_inside cs))"
      using ok Inr by (auto simp: calls_ok_def llm_limit_def make_semaphore_def limit_ok_def split: option.splits if_splits)
    moreover have "woken (sem_waiters sem) = 0" if "sem_waiters sem = []" using that by simp
    ultimately show ?thesis using step
      by (auto simp: Ask Inr calls_ok_def limit_ok_def sem_locked_def in_order_append split: if_splits)
  qed
next
  case (Resume i)
  then show ?thesis using ok step
    by (auto simp: calls_ok_def split: option.splits if_splits intro!: departed_ok)
next
  case (Give_Up i)
  then show ?thesis using ok step
    by (auto simp: calls_ok_def split: option.splits if_splits simp del: wake_while.simps intro!: departed_ok)
next
  case (Leave i)
  then have "length (cs_inside cs) = Suc (length (remove1 i (cs_inside cs)))" if "i \<in> set (cs_inside cs)"
    using length_pos_if_in_set [OF that] that by (simp add: length_remove1)
  then show ?thesis using ok step Leave
    by (auto simp: calls_ok_def split: option.splits if_splits intro!: release_ok)
qed

lemma call_steps_ok:
  "calls_ok (openai_max_concurrency s) cs \<Longrightarrow> call_steps s evs cs = Some cs' \<Longrightarrow> calls_ok (openai_max_concurrency s) cs'"
proof (induction evs arbitrary: cs)
  case (Cons ev evs)
  then obtain h where "call_step s ev cs = Some h" "call_steps s evs h = Some cs'" by (auto simp: bind_eq_Some_conv)
  with Cons show ?case using call_step_ok by blast
qed simp

lemma in_order_split: "in_order ws \<Longrightarrow> list_all snd (take (woken ws) ws) \<and> list_all (\<lambda>p. \<not> snd p) (drop (woken ws) ws)"
proof (induction ws)
  case (Cons p ws)
  obtain i w where p: "p = (i, w)" by (cases p)
  show ?case
  proof (cases w)
    case False
    then have "woken ws = 0" using Cons.prems by (simp add: p)
    with Cons False show ?thesis by (simp add: p)
  qed (use Cons p in simp)
qed simp

text \<open>C26. The limit on model calls holds in every interleaving of calls, answers, exceptions and cancellations: at most
  \<open>openai_max_concurrency\<close> calls are under way, places given to tasks that were woken included; nobody waits for
  nothing, since while a task waits and none is being let in, all places are taken; and places are given in the order
  of arrival. No place is ever lost: when all calls are over, the counter is back at the limit.\<close>

theorem llm_calls_bounded:
  assumes "call_steps s evs no_calls = Some cs" and "cs_semaphore cs = Some sem"
  shows "int (length (cs_inside cs) + woken (sem_waiters sem)) \<le> openai_max_concurrency s \<and>
    (sem_waiters sem \<noteq> [] \<and> woken (sem_waiters sem) = 0 \<longrightarrow> int (length (cs_inside cs)) = openai_max_concurrency s) \<and>
    (\<forall>i j. i < j \<and> j < length (sem_waiters sem) \<and> snd (sem_waiters sem ! j) \<longrightarrow> snd (sem_waiters sem ! i)) \<and>
    (cs_inside cs = [] \<and> sem_waiters sem = [] \<longrightarrow> int (sem_value sem) = openai_max_concurrency s)"
proof -
  have "calls_ok (openai_max_concurrency s) no_calls" by (simp add: calls_ok_def no_calls_def)
  from call_steps_ok [OF this assms(1)] assms(2)
  have n: "0 \<le> openai_max_concurrency s" and ok: "limit_ok (nat (openai_max_concurrency s)) sem (length (cs_inside cs))"
    by (simp_all add: calls_ok_def)
  have "snd (sem_waiters sem ! i)" if order: "i < j" "j < length (sem_waiters sem)" "snd (sem_waiters sem ! j)" for i j
  proof -
    let ?w = "woken (sem_waiters sem)"
    note parts = in_order_split [of "sem_waiters sem"]
    have "j < ?w"
    proof (rule ccontr)
      assume "\<not> j < ?w"
      then have "drop ?w (sem_waiters sem) ! (j - ?w) = sem_waiters sem ! j" "j - ?w < length (drop ?w (sem_waiters sem))"
        using order(2) by simp_all
      with parts ok order(3) show False by (metis limit_ok_def list_all_length)
    qed
    with order(1,2) have "take ?w (sem_waiters sem) ! i = sem_waiters sem ! i" "i < length (take ?w (sem_waiters sem))" by simp_all
    with parts ok show ?thesis by (metis limit_ok_def list_all_length)
  qed
  then show ?thesis using n ok by (auto simp: limit_ok_def)
qed

definition two_calls :: settings where
  "two_calls = default_settings\<lparr>openai_max_concurrency := 2\<rparr>"

text \<open>Four tasks for two places: one that waits is woken by an answer and cancelled before it resumes, so that the
  last one gets the place.\<close>

definition sample_calls :: "call_event list" where
  "sample_calls = [Ask 1, Ask 2, Ask 3, Ask 4, Leave 1, Give_Up 3, Resume 4]"

theorem llm_calls_bounded_witness:
  "\<exists>cs sem. call_steps two_calls sample_calls no_calls = Some cs \<and> cs_semaphore cs = Some sem \<and>
     cs_inside cs = [4, 2] \<and> int (length (cs_inside cs) + woken (sem_waiters sem)) \<le> 2"
proof -
  obtain cs sem where cs: "call_steps two_calls sample_calls no_calls = Some cs" "cs_semaphore cs = Some sem" "cs_inside cs = [4, 2]"
    by (simp add: sample_calls_def two_calls_def no_calls_def known_def llm_limit_def make_semaphore_def sem_locked_def
        release_def default_settings_def)
  from llm_calls_bounded [OF cs(1,2)] have "int (length (cs_inside cs) + woken (sem_waiters sem)) \<le> 2"
    by (simp add: two_calls_def)
  with cs show ?thesis by blast
qed

text \<open>A limit of zero admits nobody (the deadline of the job ends the wait), a negative one fails every call.\<close>

lemma zero_limit:
  assumes "openai_max_concurrency s = 0" and "call_steps s evs no_calls = Some cs"
  shows "cs_inside cs = []"
proof -
  have "calls_ok (openai_max_concurrency s) no_calls" by (simp add: calls_ok_def no_calls_def)
  from call_steps_ok [OF this assms(2)] assms(1) show ?thesis
    by (simp add: calls_ok_def limit_ok_def split: option.splits)
qed

lemma negative_limit:
  "openai_max_concurrency s < 0 \<Longrightarrow> \<exists>why. llm_limit s no_calls = Inl (ValueError why)"
  by (simp add: llm_limit_def no_calls_def make_semaphore_def)

end
