(* ===== verification/Baseline_Profile.thy ===== *)
theory Baseline_Profile
  imports Log_Compression Contract_Laws
begin

text \<open>
  The profile of normal operation: \<open>scripts/analyze_baseline.py\<close> builds it from log files, the log compression
  reads it back (\<open>_load_baseline_profile\<close>). Drain is the argument \<open>mine\<close> as in \<open>Log_Compression\<close>; the files
  come decoded and in the order of \<open>sorted\<close>. The profile is a JSON value here: the rows are written with
  an indentation, which \<open>json.loads\<close> skips.
\<close>

section \<open>Time stamps of log lines\<close>

definition rx_bracketed :: rx where
  "rx_bracketed = rx_seq [AtStart, rx_chr 91, Grp 1 (rx_plus (\<lambda>c. c \<noteq> 93)), rx_chr 93]"

definition month_names :: "string list" where
  "month_names = [''jan'', ''feb'', ''mar'', ''apr'', ''may'', ''jun'', ''jul'', ''aug'', ''sep'', ''oct'',
    ''nov'', ''dec'']"

definition between :: "nat \<Rightarrow> nat \<Rightarrow> rx" where
  "between a b = Cls (\<lambda>c. a \<le> c \<and> c \<le> b)"

text \<open>The pattern \<open>time.strptime\<close> makes of \<open>%Y-%b-%d %H:%M:%S.%f\<close>.\<close>

definition rx_log_ts :: rx where
  "rx_log_ts = rx_seq
     [Grp 1 (rx_times 4 is_digit), rx_chr 45,
      Grp 2 (rx_alt (map rx_word_ci month_names)), rx_chr 45,
      Grp 3 (rx_alt [Seq (rx_chr 51) (between 48 49), Seq (between 49 50) (Cls is_digit),
        Seq (rx_chr 48) (between 49 57),
                     between 49 57, Seq (rx_chr 32) (between 49 57)]),
      rx_plus is_space,
      Grp 4 (rx_alt [Seq (rx_chr 50) (between 48 51), Seq (between 48 49) (Cls is_digit), Cls is_digit]), rx_chr 58,
      Grp 5 (rx_alt [Seq (between 48 53) (Cls is_digit), Cls is_digit]), rx_chr 58,
      Grp 6 (rx_alt [Seq (rx_chr 54) (between 48 49), Seq (between 48 53) (Cls is_digit), Cls is_digit]), rx_chr 46,
      Grp 7 (Seq (Cls is_digit) (rx_seq (replicate 5 (rx_opt (Cls is_digit)))))]"

definition month_number :: "pystr \<Rightarrow> nat" where
  "month_number s = Suc (length (takeWhile (\<lambda>m. lit m \<noteq> str_lower s) month_names))"

text \<open>The first match decides, and it must reach the end of the text; the values must be a date and a time.\<close>

definition strptime :: "pystr \<Rightarrow> datetime option" where
  "strptime s =
     (case re_match rx_log_ts s of
        None \<Rightarrow> None
      | Some h \<Rightarrow>
          if hit_rest h \<noteq> [] then None
          else let num = (\<lambda>n. nat_of_digits (filter is_digit (hit_group n h)));
                   t = \<lparr>dt_year = num 1, dt_month = month_number (hit_group 2 h), dt_day = num 3,
                        dt_hour = num 4, dt_minute = num 5, dt_second = num 6,
                        dt_micro = nat_of_digits (take 6 (hit_group 7 h @ replicate 6 48)), dt_tz = None\<rparr>
               in if wf_datetime t then Some t else None)"

definition parse_log_ts :: "pystr \<Rightarrow> datetime option" where
  "parse_log_ts raw = (case re_match rx_bracketed raw of None \<Rightarrow> None | Some h \<Rightarrow> strptime (hit_group 1 h))"

definition isoformat_naive :: "datetime \<Rightarrow> pystr" where
  "isoformat_naive t =
     pad 4 (dt_year t) @ 45 # pad 2 (dt_month t) @ 45 # pad 2 (dt_day t) @ 84 #
     pad 2 (dt_hour t) @ 58 # pad 2 (dt_minute t) @ 58 # pad 2 (dt_second t) @
     (if dt_micro t = 0 then [] else 46 # pad 6 (dt_micro t))"

lemma parse_log_ts_example:
  "parse_log_ts (lit ''[2025-Nov-03 22:03:13.065368] <info>: x'') =
     Some \<lparr>dt_year = 2025, dt_month = 11, dt_day = 3, dt_hour = 22, dt_minute = 3, dt_second = 13, dt_micro = 65368, dt_tz = None\<rparr>"
  by code_simp

section \<open>Services and lines\<close>

definition service_name_map :: "(string \<times> string) list" where
  "service_name_map =
     [(''UserService'', ''user''), (''MediaService'', ''media''), (''ComposePostService'', ''composepost''),
      (''HomeTimelineService'', ''hometimeline''), (''NginxThrift'', ''nginx''), (''PostStorageService'', ''poststorage''),
      (''SocialGraphService'', ''socialgraph''), (''TextService'', ''text''), (''UniqueIdService'', ''uniqueid''),
      (''UrlShortenService'', ''urlshorten''), (''UserMentionService'', ''usermention''),
      (''UserTimelineService'', ''usertimeline'')]"

text \<open>\<open>path.stem\<close> of a name that ends in \<open>.log\<close>.\<close>

definition log_stem :: "pystr \<Rightarrow> pystr" where
  "log_stem name = (if name = lit ''.log'' then name else take (length name - 4) name)"

definition service_from_filename :: "pystr \<Rightarrow> pystr" where
  "service_from_filename name =
     (let stem = str_rstrip (\<lambda>c. c = 95) (log_stem name)
      in case dget (map (\<lambda>(k, v). (lit k, lit v)) service_name_map) stem of Some s \<Rightarrow> s | None \<Rightarrow> str_lower stem)"

text \<open>A text file read line by line: every newline convention ends a line; empty lines are skipped.\<close>

fun universal_newlines :: "pystr \<Rightarrow> pystr" where
  "universal_newlines [] = []"
| "universal_newlines (c # cs) =
     (if c = 13 then (case cs of d # ds \<Rightarrow> if d = 10 then 10 # universal_newlines ds else 10 # universal_newlines (d # ds)
                      | [] \<Rightarrow> [10])
      else c # universal_newlines cs)"

definition log_lines :: "pystr \<Rightarrow> pystr list" where
  "log_lines content = filter (\<lambda>l. l \<noteq> []) (split_on 10 (universal_newlines content))"

section \<open>The profile\<close>

type_synonym profile_key = "pystr \<times> pystr \<times> pystr"

record profile_group =
  pg_count :: nat
  pg_first :: "pystr option"
  pg_last :: "pystr option"
  pg_sample :: pystr

definition add_baseline :: "profile_key \<Rightarrow> pystr \<Rightarrow> (profile_key, profile_group) dict \<Rightarrow> (profile_key, profile_group) dict" where
  "add_baseline key line groups =
     (let ts = map_option isoformat_naive (parse_log_ts line)
      in dset key (case dget groups key of
           None \<Rightarrow> \<lparr>pg_count = 1, pg_first = ts, pg_last = ts, pg_sample = line\<rparr>
         | Some g \<Rightarrow> g\<lparr>pg_count := pg_count g + 1, pg_last := (case ts of None \<Rightarrow> pg_last g | Some t \<Rightarrow> Some t)\<rparr>) groups)"

fun file_loop :: "miner \<Rightarrow> pystr \<Rightarrow> pystr list \<Rightarrow> pystr list \<Rightarrow> (profile_key, profile_group) dict \<Rightarrow>
    (profile_key, profile_group) dict" where
  "file_loop mine service [] fed groups = groups"
| "file_loop mine service (line # lines) fed groups =
     file_loop mine service lines (fed @ [line])
       (add_baseline (service, level_of line, snd (mine (fed @ [line]))) line groups)"

record profile_row =
  pr_service :: pystr
  pr_level :: pystr
  pr_template :: pystr
  pr_group :: profile_group

definition profile_groups :: "miner \<Rightarrow> (pystr \<times> pystr) list \<Rightarrow> (profile_key, profile_group) dict" where
  "profile_groups mine files =
     fold (\<lambda>(name, content). file_loop mine (service_from_filename name) (log_lines content) []) files []"

definition build_profile :: "miner \<Rightarrow> (pystr \<times> pystr) list \<Rightarrow> profile_row list option" where
  "build_profile mine files =
     (if files = [] then None
      else Some (sort_key (\<lambda>r. (pr_service r, - int (pg_count (pr_group r))))
        (map (\<lambda>((service, level, template), g).
           \<lparr>pr_service = service, pr_level = level, pr_template = template, pr_group = g\<rparr>) (profile_groups mine files))))"

definition opt_text :: "pystr option \<Rightarrow> json" where
  "opt_text t = (case t of None \<Rightarrow> JNull | Some s \<Rightarrow> JStr s)"

definition profile_row_json :: "profile_row \<Rightarrow> json" where
  "profile_row_json r =
     (let g = pr_group r
      in JObj [(lit ''service'', JStr (pr_service r)), (lit ''level'', JStr (pr_level r)), (lit ''template'',
        JStr (pr_template r)),
               (lit ''count'', JInt (int (pg_count g))), (lit ''first'', opt_text (pg_first g)),
               (lit ''last'', opt_text (pg_last g)), (lit ''sample'', JStr (pg_sample g))])"

definition profile_json :: "profile_row list \<Rightarrow> json" where
  "profile_json rows = JArr (map profile_row_json rows)"

definition preview :: "profile_row list \<Rightarrow> profile_row list" where
  "preview rows = take 10 (sort_key (\<lambda>r. (pr_level r \<noteq> lit ''ERROR'', - int (pg_count (pr_group r)))) rows)"

section \<open>Reading it back\<close>

text \<open>A row of the generated file: texts and a number. Other values are not produced and not modelled.\<close>

definition load_row :: "json \<Rightarrow> (profile_key \<times> int) option" where
  "load_row j =
     (case j of
        JObj d \<Rightarrow>
          (case (dget d (lit ''service''), dget d (lit ''level''), dget d (lit ''template''), dget d (lit ''count'')) of
             (Some (JStr s), Some (JStr l), Some (JStr t), Some (JInt n)) \<Rightarrow> Some ((s, l, t), n)
           | _ \<Rightarrow> None)
      | _ \<Rightarrow> None)"

definition load_rows :: "json \<Rightarrow> profile option" where
  "load_rows j =
     (case j of
        JArr rows \<Rightarrow> map_option (\<lambda>es. fold (\<lambda>(k,
          n) p. dset k n p) es []) (v_all load_row rows)
      | _ \<Rightarrow> None)"

text \<open>Without the file, or with one that cannot be read or parsed, the profile is empty.\<close>

definition load_baseline_profile :: "pystr res option \<Rightarrow> profile option" where
  "load_baseline_profile file_text =
     (case file_text of
        None \<Rightarrow> Some []
      | Some (Inl e) \<Rightarrow> Some []
      | Some (Inr t) \<Rightarrow> (case json_loads t of None \<Rightarrow> Some [] | Some j \<Rightarrow> load_rows j))"

section \<open>The profile counts lines\<close>

fun file_keys :: "miner \<Rightarrow> pystr \<Rightarrow> pystr list \<Rightarrow> pystr list \<Rightarrow> profile_key list" where
  "file_keys mine service [] fed = []"
| "file_keys mine service (line # lines) fed =
     (service, level_of line, snd (mine (fed @ [line]))) # file_keys mine service lines (fed @ [line])"

definition baseline_keys :: "miner \<Rightarrow> (pystr \<times> pystr) list \<Rightarrow> profile_key list" where
  "baseline_keys mine files =
     concat (map (\<lambda>(name,
       content). file_keys mine (service_from_filename name) (log_lines content) []) files)"

definition counts_ok :: "profile_key list \<Rightarrow> (profile_key, profile_group) dict \<Rightarrow> bool" where
  "counts_ok ks groups \<longleftrightarrow> wf_dict groups \<and>
     (\<forall>k. map_option pg_count (dget groups k) = (if count_list ks k = 0 then None else Some (count_list ks k)))"

lemma counts_ok_add:
  assumes "counts_ok ks groups"
  shows "counts_ok (ks @ [k]) (add_baseline k line groups)"
proof -
  have c: "map_option pg_count (dget groups x) = (if count_list ks x = 0 then None else Some (count_list ks x))" for x
    using assms unfolding counts_ok_def by blast
  have "map_option pg_count (dget (add_baseline k line groups) x) =
      (if count_list (ks @ [k]) x = 0 then None else Some (count_list (ks @ [k]) x))" for x
    using c [of x] c [of k] by (auto simp: add_baseline_def Let_def dict_simps split: option.splits if_splits)
  moreover have "wf_dict (add_baseline k line groups)"
    using assms by (simp add: counts_ok_def add_baseline_def Let_def dict_simps)
  ultimately show ?thesis unfolding counts_ok_def by blast
qed

lemma file_loop_ok:
  "counts_ok ks groups \<Longrightarrow> counts_ok (ks @ file_keys mine service lines fed) (file_loop mine service lines fed groups)"
proof (induction lines arbitrary: ks fed groups)
  case (Cons line lines)
  show ?case using Cons.IH [OF counts_ok_add [OF Cons.prems]] by simp
qed simp

lemma profile_groups_ok: "counts_ok (baseline_keys mine files) (profile_groups mine files)"
proof -
  have "counts_ok (ks @ baseline_keys mine files)
      (fold (\<lambda>(name,
        content). file_loop mine (service_from_filename name) (log_lines content) []) files groups)"
    if "counts_ok ks groups" for ks groups
    using that
  proof (induction files arbitrary: ks groups)
    case Nil
    then show ?case by (simp add: baseline_keys_def)
  next
    case (Cons f files)
    obtain name content where f: "f = (name, content)" by fastforce
    show ?case using Cons.IH [OF file_loop_ok [OF Cons.prems]] by (simp add: f baseline_keys_def)
  qed
  from this [of "[]" "[]"] show ?thesis by (simp add: profile_groups_def counts_ok_def)
qed

lemma load_row_json: "load_row (profile_row_json r) = Some ((pr_service r, pr_level r, pr_template r), int (pg_count (pr_group r)))"
  by (simp add: load_row_def profile_row_json_def Let_def lit_eq_iff del: lit_simps)

lemma load_rows_json:
  "load_rows (profile_json rows) =
     Some (fold (\<lambda>r p. dset (pr_service r, pr_level r,
       pr_template r) (int (pg_count (pr_group r))) p) rows [])"
proof -
  have "v_all load_row (map profile_row_json rows) =
      Some (map (\<lambda>r. ((pr_service r, pr_level r, pr_template r), int (pg_count (pr_group r)))) rows)"
    by (induction rows) (simp_all add: load_row_json)
  then show ?thesis by (simp add: load_rows_def profile_json_def fold_map comp_def)
qed

lemma dget_fold_dset:
  "distinct (map f xs) \<Longrightarrow> dget (fold (\<lambda>x p. dset (f x) (g x) p) xs d) k =
     (case find (\<lambda>x. f x = k) xs of Some x \<Rightarrow> Some (g x) | None \<Rightarrow> dget d k)"
proof (induction xs arbitrary: d)
  case (Cons x xs)
  have "f y \<noteq> f x" if "y \<in> set xs" for y
    using Cons.prems that by (metis distinct.simps(2) imageI list.simps(9) set_map)
  then have "find (\<lambda>y. f y = f x) xs = None" by (simp add: find_None_iff)
  with Cons show ?case by (auto simp: dict_simps split: option.split)
qed simp

lemma fold_dset_dict:
  assumes "wf_dict d" and "mset xs = mset (map e d)" and "\<And>p. p \<in> set d \<Longrightarrow> f (e p) = fst p \<and> g (e p) = h (snd p)"
  shows "dget (fold (\<lambda>x p. dset (f x) (g x) p) xs []) k = map_option h (dget d k)"
proof -
  have fe: "map f (map e d) = dkeys d" using assms(3) by simp
  have "mset (map f xs) = image_mset f (mset (map e d))" by (simp only: mset_map assms(2))
  also have "\<dots> = mset (dkeys d)" by (simp only: mset_map [symmetric] fe)
  finally have "mset (map f xs) = mset (dkeys d)" .
  then have dist: "distinct (map f xs)" using assms(1) by (metis mset_eq_imp_distinct_iff wf_dict_def)
  have set: "set xs = e ` set d" using arg_cong [OF assms(2), of set_mset] by simp
  show ?thesis
  proof (cases "dget d k")
    case None
    then have "k \<notin> set (dkeys d)" by (simp add: map_of_eq_None_iff)
    then have "find (\<lambda>x. f x = k) xs = None" using assms(3) set by (force simp: find_None_iff)
    with None show ?thesis using dget_fold_dset [OF dist, of g "[]" k] by simp
  next
    case (Some v)
    then have "(k, v) \<in> set d" by (rule dget_SomeD)
    then have x: "e (k, v) \<in> set xs" "f (e (k, v)) = k" "g (e (k, v)) = h v" using assms(3) set by auto
    obtain y where y: "find (\<lambda>x. f x = k) xs = Some y"
      using x(1,2) by (cases "find (\<lambda>x. f x = k) xs") (auto simp: find_None_iff)
    then have "y \<in> set xs" "f y = k" by (auto simp: find_Some_iff)
    with x(1,2) dist have "y = e (k, v)" by (metis distinct_map inj_onD)
    with y x(3) Some show ?thesis using dget_fold_dset [OF dist, of g "[]" k] by simp
  qed
qed

lemma loaded_counts:
  assumes "build_profile mine files = Some rows"
  shows "\<exists>p. load_rows (profile_json rows) = Some p \<and>
    (\<forall>k. dget p k = (let n = count_list (baseline_keys mine files) k in if n = 0 then None else Some (int n)))"
proof -
  let ?e = "\<lambda>((service, level, template), g). \<lparr>pr_service = service, pr_level = level, pr_template = template, pr_group = g\<rparr>"
  have ok: "counts_ok (baseline_keys mine files) (profile_groups mine files)" by (rule profile_groups_ok)
  then have wf: "wf_dict (profile_groups mine files)" by (simp add: counts_ok_def)
  have "rows = sort_key (\<lambda>r. (pr_service r, - int (pg_count (pr_group r)))) (map ?e (profile_groups mine files))"
    using assms by (simp add: build_profile_def split: if_splits)
  then have m: "mset rows = mset (map ?e (profile_groups mine files))" by (simp only: mset_sort)
  have "dget (fold (\<lambda>r p. dset (pr_service r, pr_level r,
    pr_template r) (int (pg_count (pr_group r))) p) rows []) k =
      map_option (\<lambda>g. int (pg_count g)) (dget (profile_groups mine files) k)" for k
    by (rule fold_dset_dict [OF wf m]) auto
  moreover have "map_option (\<lambda>g. int (pg_count g)) (dget (profile_groups mine files) k) =
      map_option int (map_option pg_count (dget (profile_groups mine files) k))" for k
    by (simp add: option.map_comp comp_def)
  ultimately show ?thesis using ok by (simp add: load_rows_json counts_ok_def Let_def)
qed



end
