(* ===== verification/Masking.thy ===== *)
theory Masking
  imports Baseline_Profile
begin

text \<open>
  The masking of log lines in front of the template miner (\<open>_MASKING\<close> of \<open>bundle_compression.py\<close>): the patterns and
  what \<open>re.sub\<close> makes of a line. Drain stays an argument; what the program relies on is that it sees masked
  lines only. From it: lines that differ in their bracketed time stamps fall into the same groups, so a
  profile recorded in one month recognises the lines of another.
\<close>

section \<open>\<open>re.sub\<close>\<close>

text \<open>Matches are replaced from left to right; an empty match leaves the next character in place.\<close>

function re_sub_from :: "rx \<Rightarrow> pystr \<Rightarrow> nat option \<Rightarrow> pystr \<Rightarrow> pystr" where
  "re_sub_from r repl prev s =
     (case rx_search_from r prev s 0 of
        None \<Rightarrow> s
      | Some h \<Rightarrow>
          take (hit_start h) s @ repl @
          (if hit_rest h = [] then []
           else if hit_text h = [] then hd (hit_rest h) # re_sub_from r repl (Some (hd (hit_rest h))) (tl (hit_rest h))
           else re_sub_from r repl (Some (last (hit_text h))) (hit_rest h)))"
  by pat_completeness auto
termination
proof (relation "measure (\<lambda>(r, repl, prev, s). length s)", goal_cases)
  case (2 r repl prev s h)
  with rx_search_from_substring [of r prev s 0 h] show ?case by (cases "hit_rest h") auto
next
  case (3 r repl prev s h)
  with rx_search_from_substring [of r prev s 0 h] show ?case by (cases "hit_text h") auto
qed simp

declare re_sub_from.simps [simp del]

definition re_sub :: "rx \<Rightarrow> pystr \<Rightarrow> pystr \<Rightarrow> pystr" where
  "re_sub r repl s = re_sub_from r repl None s"

section \<open>The masks\<close>

definition is_hex :: "nat \<Rightarrow> bool" where
  "is_hex c \<longleftrightarrow> is_digit c \<or> 97 \<le> c \<and> c \<le> 102 \<or> 65 \<le> c \<and> c \<le> 70"

definition rx_fraction :: rx where
  "rx_fraction = rx_opt (rx_seq [rx_chr 46, rx_plus is_digit])"

definition rx_clock :: rx where
  "rx_clock = rx_seq [rx_times 2 is_digit, rx_chr 58, rx_times 2 is_digit, rx_chr 58, rx_times 2 is_digit,
    rx_fraction]"

definition rx_octet :: rx where
  "rx_octet = Seq (Cls is_digit) (rx_opt (Seq (Cls is_digit) (rx_opt (Cls is_digit))))"

definition rx_stamp :: rx where
  "rx_stamp = rx_seq [rx_chr 91, rx_times 4 is_digit, rx_chr 45, rx_times 3 is_alpha, rx_chr 45, rx_times 2 is_digit,
     rx_plus is_space, rx_clock, rx_chr 93]"

definition rx_iso :: rx where
  "rx_iso = rx_seq [rx_times 4 is_digit, rx_chr 45, rx_times 2 is_digit, rx_chr 45, rx_times 2 is_digit,
     Cls (\<lambda>c. c = 84 \<or> c = 32), rx_clock, rx_opt (rx_chr 90)]"

definition rx_ip :: rx where
  "rx_ip = rx_seq [WordB, rx_octet, rx_seq (replicate 3 (Seq (rx_chr 46) rx_octet)), WordB]"

definition rx_hex :: rx where
  "rx_hex = rx_seq [WordB, rx_times 8 is_hex, Many is_hex, WordB]"

definition rx_long_number :: rx where
  "rx_long_number = rx_seq [WordB, rx_times 4 is_digit, Many is_digit, WordB]"

definition masking :: "(rx \<times> pystr) list" where
  "masking = [(rx_stamp, lit ''TS''), (rx_iso, lit ''TS''), (rx_clock, lit ''TS''), (rx_ip, lit ''IP''),
    (rx_hex, lit ''HEX''), (rx_long_number, lit ''NUM'')]"

text \<open>The instructions apply one after another, each writing its name in angle brackets.\<close>

definition mask_line :: "pystr \<Rightarrow> pystr" where
  "mask_line line = fold (\<lambda>(r, name). re_sub r (60 # name @ [62])) masking line"

lemma mask_line_example:
  "mask_line (lit ''[2025-Nov-03 22:03:13.065368] <info>: 10.0.0.7 took 12345 at 01:02:03'') =
     lit ''<TS> <info>: <IP> took <NUM> at <TS>''"
  by code_simp

section \<open>Time stamps in brackets\<close>

record log_stamp =
  ls_year :: nat
  ls_month :: pystr
  ls_day :: nat
  ls_hour :: nat
  ls_minute :: nat
  ls_second :: nat
  ls_micro :: "nat option"

definition stamp_text :: "log_stamp \<Rightarrow> pystr" where
  "stamp_text t =
     91 # pad 4 (ls_year t) @ 45 # ls_month t @ 45 # pad 2 (ls_day t) @ 32 # pad 2 (ls_hour t) @ 58 # pad 2 (ls_minute t) @
     58 # pad 2 (ls_second t) @ (case ls_micro t of None \<Rightarrow> [] | Some u \<Rightarrow> 46 # pad 6 u) @ [93]"

definition month_name :: "pystr \<Rightarrow> bool" where
  "month_name m \<longleftrightarrow> length m = 3 \<and> list_all is_alpha m"

lemma pad_parts:
  obtains a b where "pad 2 n = [a, b]" "is_digit a" "is_digit b"
proof -
  have "length (pad 2 n) = Suc (Suc 0)" by simp
  then obtain a b where "pad 2 n = [a, b]" by (auto simp only: length_Suc_conv length_0_conv)
  moreover from this have "is_digit a" "is_digit b" using pad_digits [of _ 2 n] by auto
  ultimately show ?thesis by (rule that)
qed

text \<open>The shape of a stamp, character by character.\<close>

lemma stamp_shape:
  assumes "month_name (ls_month t)"
  obtains y1 y2 y3 y4 m1 m2 m3 d1 d2 h1 h2 n1 n2 s1 s2 us where
    "stamp_text t = [91, y1, y2, y3, y4, 45, m1, m2, m3, 45, d1, d2, 32, h1, h2, 58, n1, n2, 58, s1, s2] @ us @ [93]"
    "list_all is_digit [y1, y2, y3, y4, d1, d2, h1, h2, n1, n2, s1, s2]" "list_all is_alpha [m1, m2, m3]"
    "us = [] \<or> (\<exists>a b c d e f. us = [46, a, b, c, d, e, f] \<and> list_all is_digit [a, b, c, d, e, f])"
proof -
  have four: "\<exists>a b c d. pad 4 n = [a, b, c, d] \<and> list_all is_digit [a, b, c, d]" for n
  proof -
    have "length (pad 4 n) = Suc (Suc (Suc (Suc 0)))" by simp
    then obtain a b c d where "pad 4 n = [a, b, c, d]" by (auto simp only: length_Suc_conv length_0_conv)
    moreover from this have "list_all is_digit [a, b, c, d]" using pad_digits [of _ 4 n] by (auto simp: list_all_iff)
    ultimately show ?thesis by blast
  qed
  have six: "\<exists>a b c d e f. pad 6 n = [a, b, c, d, e, f] \<and> list_all is_digit [a, b, c, d, e, f]" for n
  proof -
    have "length (pad 6 n) = Suc (Suc (Suc (Suc (Suc (Suc 0)))))" by simp
    then obtain a b c d e f where "pad 6 n = [a, b, c, d, e, f]" by (auto simp only: length_Suc_conv length_0_conv)
    moreover from this have "list_all is_digit [a, b, c, d, e,
      f]" using pad_digits [of _ 6 n] by (auto simp: list_all_iff)
    ultimately show ?thesis by blast
  qed
  have "length (ls_month t) = Suc (Suc (Suc 0))" using assms by (simp add: month_name_def)
  then obtain m1 m2 m3 where m: "ls_month t = [m1, m2, m3]" by (auto simp only: length_Suc_conv length_0_conv)
  obtain y1 y2 y3 y4 where y: "pad 4 (ls_year t) = [y1, y2, y3, y4]" "list_all is_digit [y1, y2, y3, y4]"
    using four by blast
  obtain d1 d2 where d: "pad 2 (ls_day t) = [d1, d2]" "is_digit d1" "is_digit d2" by (rule pad_parts)
  obtain h1 h2 where h: "pad 2 (ls_hour t) = [h1, h2]" "is_digit h1" "is_digit h2" by (rule pad_parts)
  obtain n1 n2 where n: "pad 2 (ls_minute t) = [n1, n2]" "is_digit n1" "is_digit n2" by (rule pad_parts)
  obtain s1 s2 where s: "pad 2 (ls_second t) = [s1, s2]" "is_digit s1" "is_digit s2" by (rule pad_parts)
  obtain us where us: "us = (case ls_micro t of None \<Rightarrow> [] | Some u \<Rightarrow> 46 # pad 6 u)" by blast
  have shape: "stamp_text t = [91, y1, y2, y3, y4, 45, m1, m2, m3, 45, d1, d2, 32, h1, h2, 58, n1, n2, 58, s1,
    s2] @ us @ [93]"
    by (simp add: stamp_text_def m y(1) d(1) h(1) n(1) s(1) us)
  have micro: "us = [] \<or> (\<exists>a b c d e f. us = [46, a, b, c, d, e, f] \<and> list_all is_digit [a, b,
    c, d, e, f])"
  proof (cases "ls_micro t")
    case (Some u)
    then show ?thesis using six [of u] us by auto
  qed (simp add: us)
  show ?thesis
    by (rule that [OF shape _ _ micro]) (use y(2) d h n s m assms in \<open>simp_all add: month_name_def\<close>)
qed

text \<open>What a digit or a letter is not.\<close>

lemma digit_facts:
  assumes "is_digit c"
  shows "\<not> is_space c" "c \<noteq> 91" "c \<noteq> 93" "c \<noteq> 45" "c \<noteq> 58" "c \<noteq> 46" "c \<noteq> 32"
  using assms by (auto simp: is_digit_def is_space_def)

lemma punctuation:
  "\<not> is_digit 46" "\<not> is_digit 93" "\<not> is_digit 45" "\<not> is_digit 58" "\<not> is_digit 32" "is_space 32"
  by (simp_all add: is_digit_def is_space_def)

lemma times_unfold:
  "rx_times 2 P = Seq (Cls P) (Cls P)" "rx_times 3 P = Seq (Cls P) (Seq (Cls P) (Cls P))"
  "rx_times 4 P = Seq (Cls P) (Seq (Cls P) (Seq (Cls P) (Cls P)))"
  by (simp_all add: rx_times_def eval_nat_numeral)

lemma stamp_match:
  assumes "month_name (ls_month t)"
  shows "rx_at rx_stamp prev (stamp_text t @ rest) i =
    Some \<lparr>hit_start = i, hit_text = stamp_text t, hit_rest = rest, hit_groups = []\<rparr>"
proof -
  obtain y1 y2 y3 y4 m1 m2 m3 d1 d2 h1 h2 n1 n2 s1 s2 us where
    t: "stamp_text t = [91, y1, y2, y3, y4, 45, m1, m2, m3, 45, d1, d2, 32, h1, h2, 58, n1, n2, 58, s1, s2] @
      us @ [93]"
    and ds: "list_all is_digit [y1, y2, y3, y4, d1, d2, h1, h2, n1, n2, s1,
      s2]" and ms: "list_all is_alpha [m1, m2, m3]"
    and us: "us = [] \<or> (\<exists>a b c d e f. us = [46, a, b, c, d, e, f] \<and> list_all is_digit [a, b,
      c, d, e, f])"
    by (rule stamp_shape [OF assms])
  note defs = rx_stamp_def rx_clock_def rx_fraction_def rx_opt_def rx_plus_def times_unfold rx_chr_def rx_take_def
    punctuation
  have "rx_match rx_stamp \<lparr>rx_prev = prev, rx_rest = stamp_text t @ rest, rx_groups = []\<rparr> =
      [\<lparr>rx_prev = Some 93, rx_rest = rest, rx_groups = []\<rparr>]"
    using us
  proof (elim disjE exE conjE)
    assume "us = []"
    then show ?thesis using ds ms by (simp add: t defs digit_facts)
  next
    fix a b c d e f
    assume "us = [46, a, b, c, d, e, f]" "list_all is_digit [a, b, c, d, e, f]"
    then show ?thesis using ds ms by (simp add: t defs digit_facts)
  qed
  then show ?thesis by (simp add: rx_at_def)
qed

lemma last_stamp: "stamp_text t \<noteq> [] \<and> last (stamp_text t) = 93"
  by (simp add: stamp_text_def)

lemma search_here:
  "s \<noteq> [] \<Longrightarrow> rx_at r prev s i = Some h \<Longrightarrow> rx_search_from r prev s i = Some h"
  by (cases s) simp_all

lemma mask_stamp:
  assumes "month_name (ls_month t)"
  shows "re_sub_from rx_stamp repl prev (stamp_text t @ rest) =
    repl @ (if rest = [] then [] else re_sub_from rx_stamp repl (Some 93) rest)"
proof -
  have "stamp_text t @ rest \<noteq> []" by (simp add: last_stamp)
  from search_here [OF this stamp_match [OF assms, of prev rest 0]] show ?thesis
    by (subst re_sub_from.simps) (simp add: last_stamp)
qed

lemma mask_line_stamp:
  assumes "month_name (ls_month s)" and "month_name (ls_month t)"
  shows "mask_line (stamp_text s @ rest) = mask_line (stamp_text t @ rest)"
  using assms by (simp add: mask_line_def masking_def re_sub_def mask_stamp)

section \<open>Levels after a stamp\<close>

lemma search_groups:
  "map_option hit_groups (rx_search_from r prev s i) = map_option hit_groups (rx_search_from r prev s j)"
proof (induction s arbitrary: prev i j)
  case Nil
  show ?case by (auto simp: rx_at_def split: list.split)
next
  case (Cons c s)
  have "map_option hit_groups (rx_at r prev (c # s) i) = map_option hit_groups (rx_at r prev (c # s) j)"
    by (auto simp: rx_at_def split: list.split)
  then show ?case using Cons.IH [of "Some c" "Suc i" "Suc j"]
    by (cases "rx_at r prev (c # s) i"; cases "rx_at r prev (c # s) j") auto
qed

text \<open>Letters of the level names do not match digits or the punctuation of a stamp.\<close>

lemma ci_digit: "is_digit c \<Longrightarrow> is_upper p \<Longrightarrow> \<not> ci_eq p c"
  by (auto simp: ci_eq_def lower_char_def is_digit_def is_upper_def split: if_splits)

lemma ci_punctuation: "c \<in> {45, 46, 58, 32, 91, 93} \<Longrightarrow> is_upper p \<Longrightarrow> \<not> ci_eq p c"
  by (auto simp: ci_eq_def lower_char_def is_upper_def split: if_splits)

lemma level_chars:
  "is_upper 70" "is_upper 65" "is_upper 84" "is_upper 76" "is_upper 67" "is_upper 82" "is_upper 73" "is_upper 69"
  "is_upper 79" "is_upper 87" "is_upper 78" "is_upper 71" "is_upper 68" "is_upper 66" "is_upper 85"
  by (simp_all add: is_upper_def)

lemma no_level_at:
  assumes "\<And>p. is_upper p \<Longrightarrow> \<not> ci_eq p c"
  shows "rx_at rx_level prev (c # s) i = None"
    and "rx_at rx_level prev (m3 # c # s) i = None"
    and "rx_at rx_level prev (m2 # m3 # c # s) i = None"
    and "rx_at rx_level prev (m1 # m2 # m3 # c # s) i = None"
  using assms [OF level_chars(1)] assms [OF level_chars(2)] assms [OF level_chars(3)] assms [OF level_chars(4)]
    assms [OF level_chars(5)] assms [OF level_chars(6)] assms [OF level_chars(7)] assms [OF level_chars(8)]
    assms [OF level_chars(9)] assms [OF level_chars(10)] assms [OF level_chars(11)] assms [OF level_chars(12)]
    assms [OF level_chars(13)] assms [OF level_chars(14)] assms [OF level_chars(15)]
  by (simp_all add: rx_at_def rx_level_def rx_word_ci_def rx_text_ci_def rx_opt_def rx_take_def)

lemma skip_level:
  "rx_at rx_level prev (c # s) i = None \<Longrightarrow>
     map_option hit_groups (rx_search_from rx_level prev (c # s) i) =
       map_option hit_groups (rx_search_from rx_level (Some c) s 0)"
  using search_groups [of rx_level "Some c" s "Suc i" 0] by simp

lemma level_after_stamp:
  assumes "month_name (ls_month t)"
  shows "map_option hit_groups (rx_search_from rx_level prev (stamp_text t @ rest) i) =
    map_option hit_groups (rx_search_from rx_level (Some 93) rest 0)"
proof -
  obtain y1 y2 y3 y4 m1 m2 m3 d1 d2 h1 h2 n1 n2 s1 s2 us where
    t: "stamp_text t = [91, y1, y2, y3, y4, 45, m1, m2, m3, 45, d1, d2, 32, h1, h2, 58, n1, n2, 58, s1, s2] @
      us @ [93]"
    and ds: "list_all is_digit [y1, y2, y3, y4, d1, d2, h1, h2, n1, n2, s1, s2]"
    and us: "us = [] \<or> (\<exists>a b c d e f. us = [46, a, b, c, d, e, f] \<and> list_all is_digit [a, b,
      c, d, e, f])"
    by (rule stamp_shape [OF assms])
  have digit: "rx_at rx_level prev (c # s) i = None" if "is_digit c" for c prev s i
    using no_level_at(1) [of c] ci_digit [OF that] by blast
  have punct: "rx_at rx_level prev (c # s) i = None" if "c \<in> {45, 46, 58, 32, 91, 93}" for c prev s i
    using no_level_at(1) [of c] ci_punctuation [OF that] by blast
  have month: "rx_at rx_level prev (m3 # 45 # s) i = None" "rx_at rx_level prev (m2 # m3 # 45 # s) i = None"
    "rx_at rx_level prev (m1 # m2 # m3 # 45 # s) i = None" for prev s i m1 m2 m3
    using no_level_at(2,3,4) [of 45] ci_punctuation [of 45] by blast+
  show ?thesis
    using us
  proof (elim disjE exE conjE)
    assume "us = []"
    then show ?thesis using ds
      by (simp add: t digit punct month skip_level del: rx_search_from.simps)
  next
    fix a b c d e f
    assume "us = [46, a, b, c, d, e, f]" "list_all is_digit [a, b, c, d, e, f]"
    then show ?thesis using ds
      by (simp add: t digit punct month skip_level del: rx_search_from.simps)
  qed
qed

lemma level_of_stamp:
  assumes "month_name (ls_month s)" and "month_name (ls_month t)"
  shows "level_of (stamp_text s @ rest) = level_of (stamp_text t @ rest)"
proof -
  have "map_option hit_groups (re_search rx_level (stamp_text s @ rest)) =
      map_option hit_groups (re_search rx_level (stamp_text t @ rest))"
    using level_after_stamp [OF assms(1)] level_after_stamp [OF assms(2)] by (simp add: re_search_def)
  then show ?thesis
    by (cases "re_search rx_level (stamp_text s @ rest)"; cases "re_search rx_level (stamp_text t @ rest)")
      (simp_all add: level_of_def hit_group_def)
qed

section \<open>Lines of another month\<close>

definition restamped :: "pystr \<Rightarrow> pystr \<Rightarrow> bool" where
  "restamped a b \<longleftrightarrow> a = b \<or>
     (\<exists>s t rest. month_name (ls_month s) \<and> month_name (ls_month t) \<and> a = stamp_text s @ rest \<and> b = stamp_text t @ rest)"

lemma restamped_alike: "restamped a b \<Longrightarrow> mask_line a = mask_line b \<and> level_of a = level_of b"
  unfolding restamped_def using mask_line_stamp level_of_stamp by blast

text \<open>Drain clusters the masked messages.\<close>

definition clusters_masked :: "miner \<Rightarrow> bool" where
  "clusters_masked mine \<longleftrightarrow> (\<forall>ms ms'. map mask_line ms = map mask_line ms' \<longrightarrow> mine ms = mine ms')"

text \<open>The key a line has in the profile: service, level and the template at that line.\<close>

fun template_keys :: "miner \<Rightarrow> modality_item list \<Rightarrow> (pystr, pystr list) dict \<Rightarrow> profile_key list" where
  "template_keys mine [] fed = []"
| "template_keys mine (item # items) fed =
     (let msgs = (case dget fed (mi_service item) of Some ms \<Rightarrow> ms | None \<Rightarrow> []) @ [mi_raw item]
      in (mi_service item, level_of (mi_raw item), snd (mine msgs)) #
         template_keys mine items (dset (mi_service item) msgs fed))"

definition profile_key_of :: "log_key \<times> log_group \<Rightarrow> profile_key" where
  "profile_key_of entry = (case entry of ((service, level, cluster), g) \<Rightarrow> (service, level, lg_template g))"

definition keyed :: "profile_key set \<Rightarrow> (log_key, log_group) dict \<Rightarrow> bool" where
  "keyed ks groups \<longleftrightarrow> (\<forall>k g. dget groups k = Some g \<longrightarrow> profile_key_of (k, g) \<in> ks)"

lemma keyed_add:
  assumes "keyed ks groups" and "(service, level, template) \<in> ks"
  shows "keyed ks (add_line (service, level, cluster) is_base item template groups)"
  using assms by (auto simp: keyed_def add_line_def dict_simps profile_key_of_def split: option.splits if_splits)

lemma keyed_mono: "keyed ks groups \<Longrightarrow> ks \<subseteq> ks' \<Longrightarrow> keyed ks' groups"
  by (auto simp: keyed_def)

lemma group_loop_keyed:
  "keyed ks groups \<Longrightarrow> group_loop mine trigger items fed groups records = Inr (groups', records') \<Longrightarrow>
     keyed (ks \<union> set (template_keys mine items fed)) groups'"
proof (induction mine trigger items fed groups records arbitrary: ks rule: group_loop.induct)
  case (2 mine trigger item items fed groups records)
  obtain cluster template where m: "mine ((case dget fed (mi_service item) of Some ms \<Rightarrow> ms | None \<Rightarrow> []) @ [mi_raw item]) =
      (cluster, template)" by fastforce
  let ?k = "(mi_service item, level_of (mi_raw item), template)"
  from 2(3) m obtain is_base where "is_base_point trigger (mi_timestamp item) = Inr is_base"
    by (auto simp: Let_def res_simps split: sum.splits)
  moreover have "keyed (insert ?k ks) (add_line (mi_service item, level_of (mi_raw item), cluster) is_base item template groups)"
    by (rule keyed_add [OF keyed_mono [OF 2(2)]]) auto
  ultimately show ?case
    using 2(1) [OF refl refl refl m [symmetric] refl, of "insert ?k ks" is_base] 2(3) m by (simp add: Let_def)
qed simp

text \<open>Items of one service that repeat the lines of a file.\<close>

definition repeats :: "pystr \<Rightarrow> pystr list \<Rightarrow> modality_item list \<Rightarrow> bool" where
  "repeats service lines items \<longleftrightarrow> list_all2 (\<lambda>line item. mi_service item = service \<and> restamped line (mi_raw item)) lines items"

lemma template_keys_file:
  assumes "clusters_masked mine"
  shows "repeats service lines items \<Longrightarrow> map mask_line fed = map mask_line msgs \<Longrightarrow>
    (case dget feds service of Some ms \<Rightarrow> ms | None \<Rightarrow> []) = msgs \<Longrightarrow>
    template_keys mine items feds = file_keys mine service lines fed"
proof (induction lines arbitrary: items fed msgs feds)
  case Nil
  then show ?case by (simp add: repeats_def)
next
  case (Cons line lines)
  obtain item rest where i: "items = item # rest" "mi_service item = service" "restamped line (mi_raw item)"
    "repeats service lines rest"
    using Cons.prems(1) by (auto simp: repeats_def list_all2_Cons1)
  have alike: "mask_line line = mask_line (mi_raw item)" "level_of line = level_of (mi_raw item)"
    using restamped_alike [OF i(3)] by simp_all
  have both: "map mask_line (fed @ [line]) = map mask_line (msgs @
    [mi_raw item])" using Cons.prems(2) alike(1) by simp
  then have same: "mine (fed @ [line]) = mine (msgs @ [mi_raw item])"
    using assms unfolding clusters_masked_def by blast
  have "(case dget (dset service (msgs @
    [mi_raw item]) feds) service of Some ms \<Rightarrow> ms | None \<Rightarrow> []) = msgs @ [mi_raw item]"
    by (simp add: dict_simps)
  from Cons.IH [OF i(4) both this] show ?case using Cons.prems(3) i(2) alike(2) same by (simp add: i(1) Let_def)
qed

lemma file_keys_take: "set (file_keys mine service (take m lines) fed) \<subseteq> set (file_keys mine service lines fed)"
proof (induction lines arbitrary: m fed)
  case (Cons line lines)
  then show ?case by (cases m) auto
qed simp

text \<open>C39. What is normal is recognised in any month: when a bundle's items of a service repeat the beginning of a log file
  the profile was made from, with other time stamps in brackets, every group the compression forms of them has
  a baseline count, which its grade divides by. This is what the first mask is for.\<close>

theorem normal_lines_recognised:
  assumes mine: "clusters_masked mine" and source: "(name, content) \<in> set files"
    and items: "repeats (service_from_filename name) (take m (log_lines content)) items"
    and profile: "build_profile mine files = Some rows" "load_rows (profile_json rows) = Some p"
    and loop: "group_loop mine trigger items [] [] [] = Inr (groups, records)" and g: "dget groups k = Some g"
  shows "\<exists>n > 0. dget p (profile_key_of (k, g)) = Some n \<and>
    (\<exists>surprise. grade p (k, g) = Inr (k, log_group.extend g \<lparr>lg_baseline = Some n, lg_surprise = surprise\<rparr>))"
proof -
  let ?service = "service_from_filename name"
  have "profile_key_of (k, g) \<in> set (template_keys mine items [])"
  proof -
    have "keyed {} []" by (simp add: keyed_def)
    from group_loop_keyed [OF this loop] have "keyed (set (template_keys mine items [])) groups" by simp
    with g show ?thesis unfolding keyed_def by blast
  qed
  also have "template_keys mine items [] = file_keys mine ?service (take m (log_lines content)) []"
    by (rule template_keys_file [OF mine items]) simp_all
  also have "set \<dots> \<subseteq> set (file_keys mine ?service (log_lines content) [])" by (rule file_keys_take)
  also have "\<dots> \<subseteq> set (baseline_keys mine files)" using source by (force simp: baseline_keys_def)
  finally have "profile_key_of (k, g) \<in> set (baseline_keys mine files)" .
  then have "count_list (baseline_keys mine files) (profile_key_of (k, g)) \<noteq> 0" by (simp add: count_list_0_iff)
  moreover define key where "key = profile_key_of (k, g)"
  ultimately have counted: "count_list (baseline_keys mine files) key \<noteq> 0" by simp
  from loaded_counts [OF profile(1)] profile(2)
  have "dget p key = (let n = count_list (baseline_keys mine files) key in if n = 0 then None else Some (int n))"
    by (cases key) auto
  with counted have "\<exists>n > 0. dget p (profile_key_of (k, g)) = Some n" by (simp add: Let_def key_def)
  then obtain n where n: "n > 0" "dget p (profile_key_of (k, g)) = Some n" by blast
  obtain service level cluster where k: "k = (service, level, cluster)" by (cases k)
  have "p \<noteq> []" "int (lg_base g) + n + 1 \<noteq> 0" using n by auto
  then show ?thesis using n by (auto simp: grade_def k profile_key_of_def int_div_def Let_def)
qed

definition sample_stamp :: "pystr \<Rightarrow> log_stamp" where
  "sample_stamp month = \<lparr>ls_year = 2025, ls_month = month, ls_day = 3, ls_hour = 22, ls_minute = 3, ls_second = 13, ls_micro = Some 65368\<rparr>"

definition template_miner :: miner where
  "template_miner ms = (0, mask_line (last ms))"

theorem normal_lines_recognised_witness:
  "\<exists>rows p groups records. build_profile template_miner
       [(lit ''UserService_.log'', lit ''[2025-Nov-03 22:03:13.065368] <info>: up'' @ [10])] = Some rows \<and>
     load_rows (profile_json rows) = Some p \<and>
     group_loop template_miner None
       [\<lparr>mi_timestamp = lit ''2025-07-03T22:03:13'', mi_service = lit ''user'',
         mi_raw = lit ''[2025-Jul-03 22:03:13.065368] <info>: up''\<rparr>] [] [] [] =
       Inr (groups, records) \<and>
     (\<forall>k g. dget groups k = Some g \<longrightarrow> (\<exists>n > 0. dget p (profile_key_of (k, g)) = Some n))"
proof -
  let ?content = "lit ''[2025-Nov-03 22:03:13.065368] <info>: up'' @ [10]"
  let ?items = "[\<lparr>mi_timestamp = lit ''2025-07-03T22:03:13'', mi_service = lit ''user'',
    mi_raw = lit ''[2025-Jul-03 22:03:13.065368] <info>: up''\<rparr>]"
  have mine: "clusters_masked template_miner"
    unfolding clusters_masked_def template_miner_def
    by (metis last_map list.map_disc_iff)
  have lines: "log_lines ?content = [stamp_text (sample_stamp (lit ''Nov'')) @ lit '' <info>: up'']" by code_simp
  have raw: "mi_raw (hd ?items) = stamp_text (sample_stamp (lit ''Jul'')) @ lit '' <info>: up''" by code_simp
  have "month_name (ls_month (sample_stamp (lit ''Nov'')))" "month_name (ls_month (sample_stamp (lit ''Jul'')))" by code_simp+
  then have "restamped (stamp_text (sample_stamp (lit ''Nov'')) @ lit '' <info>: up'') (mi_raw (hd ?items))"
    unfolding restamped_def raw by blast
  moreover have "service_from_filename (lit ''UserService_.log'') = lit ''user''" by code_simp
  ultimately have items: "repeats (service_from_filename (lit ''UserService_.log'')) (take 1 (log_lines ?content)) ?items"
    unfolding lines by (simp add: repeats_def)
  obtain rows where rows: "build_profile template_miner [(lit ''UserService_.log'', ?content)] = Some rows"
    by (simp add: build_profile_def)
  obtain p where p: "load_rows (profile_json rows) = Some p" using loaded_counts [OF rows] by blast
  have "case group_loop template_miner None ?items [] [] [] of Inr x \<Rightarrow> True | Inl e \<Rightarrow> False" by code_simp
  then obtain groups records where loop: "group_loop template_miner None ?items [] [] [] = Inr (groups, records)"
    by (auto split: sum.splits)
  from normal_lines_recognised [OF mine _ items rows p loop] rows p loop show ?thesis by fastforce
qed

end
