(* ===== verification/Upgrades.thy ===== *)
theory Upgrades
  imports Masking Deployment
begin

text \<open>
  The migration run at the start of every container: \<open>alembic upgrade head\<close> through \<open>migrations/env.py\<close>, with the
  identifiers that chain the revisions, and \<open>init_db\<close> of \<open>app/db/session.py\<close>, which makes the tables without
  migrations. Alembic's walk along the revisions is an argument \<open>run\<close> with the property \<open>climbs\<close>: it applies the
  upgrade of the revision that follows the recorded version, records the new version, and goes on until no
  revision follows. The configuration file is Python's \<open>configparser\<close>, whose values may not contain a lone
  percent sign.
\<close>

section \<open>Options of the configuration file\<close>

definition rx_option :: rx where
  "rx_option = rx_seq [rx_chr 37, rx_chr 40, rx_plus (\<lambda>c. c \<noteq> 41), rx_chr 41, rx_chr 115]"

text \<open>\<open>set\<close> refuses a value with a percent sign that is neither doubled nor the start of \<open>%(name)s\<close>.\<close>

definition set_option :: "pystr \<Rightarrow> pystr res" where
  "set_option value =
     (if 37 \<in> set (re_sub rx_option [] (str_replace [37, 37] [] value))
      then Inl (ValueError (lit ''invalid interpolation syntax in '' @ value)) else Inr value)"

text \<open>\<open>get\<close>: a doubled percent sign is read as one, \<open>%(name)s\<close> as the option of that name.\<close>

function get_option :: "(pystr \<Rightarrow> pystr res) \<Rightarrow> pystr \<Rightarrow> pystr res" where
  "get_option vars [] = Inr []"
| "get_option vars (c # cs) =
     (if c \<noteq> 37 then rbind (get_option vars cs) (\<lambda>t. Inr (c # t))
      else if starts_with cs [37] then rbind (get_option vars (tl cs)) (\<lambda>t. Inr (37 # t))
      else let name = takeWhile (\<lambda>c. c \<noteq> 41) (tl cs); rest = drop (length name + 1) cs
           in if starts_with cs [40] \<and> name \<noteq> [] \<and> starts_with rest [41, 115]
              then rbind (vars (str_lower name)) (\<lambda>v. rbind (get_option vars (drop 2 rest)) (\<lambda>t. Inr (v @ t)))
              else Inl (ValueError (lit ''InterpolationSyntaxError'')))"
  by pat_completeness auto
termination by (relation "measure (length \<circ> snd)") (auto simp: Let_def)

section \<open>Revisions\<close>

record revision =
  rev_id :: pystr
  rev_down :: "pystr option"
  rev_up :: "int \<Rightarrow> schema \<Rightarrow> schema option"
  rev_downgrade :: "schema \<Rightarrow> schema option"

definition revision_0001 :: revision where
  "revision_0001 = \<lparr>rev_id = lit ''0001'', rev_down = None, rev_up = (\<lambda>_. upgrade_0001), rev_downgrade = downgrade_0001\<rparr>"

definition revision_0002 :: revision where
  "revision_0002 =
     \<lparr>rev_id = lit ''0002'', rev_down = Some (lit ''0001''), rev_up = upgrade_0002, rev_downgrade = downgrade_0002\<rparr>"

definition revision_0003 :: revision where
  "revision_0003 =
     \<lparr>rev_id = lit ''0003'', rev_down = Some (lit ''0002''), rev_up = upgrade_0003, rev_downgrade = downgrade_0003\<rparr>"

definition versions :: "revision list" where
  "versions = [revision_0001, revision_0002, revision_0003]"

text \<open>The database with the version Alembic records in it.\<close>

record database =
  db_schema :: schema
  db_version :: "pystr option"

definition next_revision :: "pystr option \<Rightarrow> revision option" where
  "next_revision v = find (\<lambda>r. rev_down r = v) versions"

type_synonym migrator = "int \<Rightarrow> database \<Rightarrow> database \<times> exc option"

definition climbs :: "migrator \<Rightarrow> bool" where
  "climbs run \<longleftrightarrow> (\<forall>now s v. v = None \<or> (\<exists>r \<in> set versions. v = Some (rev_id r)) \<longrightarrow>
     (case next_revision v of
        None \<Rightarrow> run now \<lparr>db_schema = s, db_version = v\<rparr> = (\<lparr>db_schema = s, db_version = v\<rparr>, None)
      | Some r \<Rightarrow> (case rev_up r now s of
            Some s' \<Rightarrow> run now \<lparr>db_schema = s, db_version = v\<rparr> = run now \<lparr>db_schema = s', db_version = Some (rev_id r)\<rparr>
          | None \<Rightarrow> (\<exists>e. run now \<lparr>db_schema = s, db_version = v\<rparr> = (\<lparr>db_schema = s, db_version = v\<rparr>, Some e)))))"

section \<open>\<open>env.py\<close>\<close>

text \<open>The calls it makes, in order. An engine made here has no pool: a connection is closed when it is returned.\<close>

datatype env_call =
    File_Config
  | Configure_Url pystr
  | Configure_Connection
  | Begin
  | Run_Migrations
  | Commit
  | Rollback
  | Make_Engine pystr
  | Connect
  | Close
  | Dispose

type_synonym env_run = "env_call list \<times> database \<times> exc option"

text \<open>MySQL commits each change of a table by itself, so what a failing run has done stays.\<close>

definition do_run_migrations :: "migrator \<Rightarrow> int \<Rightarrow> database \<Rightarrow> env_run" where
  "do_run_migrations run now db =
     (case run now db of
        (db', None) \<Rightarrow> ([Configure_Connection, Begin, Run_Migrations, Commit], db', None)
      | (db', Some e) \<Rightarrow> ([Configure_Connection, Begin, Run_Migrations, Rollback], db', Some e))"

text \<open>The engine is not disposed of when the run fails; the process ends then.\<close>

definition run_async_migrations :: "migrator \<Rightarrow> exc option \<Rightarrow> pystr res \<Rightarrow> int \<Rightarrow> database \<Rightarrow> env_run" where
  "run_async_migrations run refused url now db =
     (case url of
        Inl e \<Rightarrow> ([], db, Some e)
      | Inr u \<Rightarrow>
          (case refused of
             Some e \<Rightarrow> ([Make_Engine u, Connect], db, Some e)
           | None \<Rightarrow>
               (case do_run_migrations run now db of
                  (calls, db', Some e) \<Rightarrow> ([Make_Engine u, Connect] @ calls @ [Close], db', Some e)
                | (calls, db', None) \<Rightarrow> ([Make_Engine u, Connect] @ calls @ [Close, Dispose], db',
                  None))))"

text \<open>Offline, the statements are printed and no database is touched.\<close>

definition run_migrations_offline :: "pystr res \<Rightarrow> database \<Rightarrow> env_run" where
  "run_migrations_offline url db =
     (case url of
        Inl e \<Rightarrow> ([], db, Some e)
      | Inr u \<Rightarrow> ([Configure_Url u, Begin, Run_Migrations, Commit], db, None))"

definition run_migrations_online :: "migrator \<Rightarrow> exc option \<Rightarrow> pystr res \<Rightarrow> int \<Rightarrow> database \<Rightarrow> env_run" where
  "run_migrations_online = run_async_migrations"

text \<open>The script: the URL goes into the configuration and comes out of it again.\<close>

definition env_py :: "bool \<Rightarrow> bool \<Rightarrow> (pystr \<Rightarrow> pystr res) \<Rightarrow> pystr option \<Rightarrow> settings \<Rightarrow> migrator \<Rightarrow> exc option \<Rightarrow> int \<Rightarrow>
    database \<Rightarrow> env_run" where
  "env_py offline has_file vars override s run refused now db =
     (case set_option (migration_url override s) of
        Inl e \<Rightarrow> ([], db, Some e)
      | Inr value \<Rightarrow>
          (case (if offline then run_migrations_offline (get_option vars value) db
                 else run_migrations_online run refused (get_option vars value) now db) of
             (calls, db', err) \<Rightarrow> ((if has_file then [File_Config] else []) @ calls, db', err)))"

section \<open>Tables without migrations\<close>

text \<open>\<open>create_all\<close> makes the tables that are missing and leaves the others as they are.\<close>

definition create_all :: "schema \<Rightarrow> schema" where
  "create_all s =
     (case dget s ingest_job of
        Some tbl \<Rightarrow> s
      | None \<Rightarrow> dset ingest_job \<lparr>t_columns = orm_columns, t_key = ''job_id'',
        t_rows = []\<rparr> s)"

definition init_db :: "exc option \<Rightarrow> schema \<Rightarrow> schema res" where
  "init_db refused s = (case refused of Some e \<Rightarrow> Inl e | None \<Rightarrow> Inr (create_all s))"

text \<open>At startup: only when the setting asks for it, and an exception is only logged.\<close>

definition auto_create :: "settings \<Rightarrow> exc option \<Rightarrow> schema \<Rightarrow> schema" where
  "auto_create s refused sch =
     (if db_auto_create s then (case init_db refused sch of Inl e \<Rightarrow> sch | Inr sch' \<Rightarrow> sch') else sch)"

section \<open>Laws\<close>

lemma plain_replace: "37 \<notin> set s \<Longrightarrow> str_replace [37, 37] [] s = s"
proof (induction s)
  case (Cons c cs)
  then show ?case by (cases cs) simp_all
qed simp

lemma plain_search: "37 \<notin> set s \<Longrightarrow> rx_search_from rx_option prev s i = None"
proof (induction s arbitrary: prev i)
  case Nil
  show ?case by (simp add: rx_option_def rx_at_def rx_chr_def)
next
  case (Cons c cs)
  then show ?case by (simp add: rx_at_def rx_option_def rx_chr_def)
qed

lemma plain_option:
  assumes "37 \<notin> set s"
  shows "set_option s = Inr s" and "get_option vars s = Inr s"
proof -
  show "set_option s = Inr s" using assms by (simp add: set_option_def plain_replace re_sub_def re_sub_from.simps plain_search)
  show "get_option vars s = Inr s" using assms by (induction s) auto
qed

text \<open>A schema after the first \<open>n\<close> revisions.\<close>

definition first_columns :: "column list" where
  "first_columns =
     [col ''job_id'' Integer False None, col ''status'' (Varchar 16) False None, col ''bundle'' Json False None,
      col ''result'' Json True None, col ''error'' LongText True None,
      col ''created_at'' Date_Time False (Some VTime), col ''updated_at'' Date_Time False (Some VTime)]"

definition added_columns :: "column list" where
  "added_columns =
     [col ''requeue_count'' Integer False (Some (\<lambda>_. VInt 0)), col ''signals_path'' (Varchar 255) True None]"

fun at_stage :: "nat \<Rightarrow> schema \<Rightarrow> bool" where
  "at_stage 0 s = (dget s ingest_job = None)"
| "at_stage (Suc n) s = (case dget s ingest_job of
     None \<Rightarrow> False | Some tbl \<Rightarrow> t_columns tbl = first_columns @ take n added_columns)"

definition stage_version :: "nat \<Rightarrow> pystr option" where
  "stage_version n = (if n = 0 then None else Some (rev_id (versions ! (n - 1))))"

text \<open>Nothing a row holds is changed, and no row and no table disappears.\<close>

definition row_kept :: "sql_row \<Rightarrow> sql_row \<Rightarrow> bool" where
  "row_kept r r' \<longleftrightarrow> (\<forall>n v. dget r n = Some v \<longrightarrow> dget r' n = Some v)"

definition same_rows :: "table \<Rightarrow> table \<Rightarrow> bool" where
  "same_rows tbl tbl' \<longleftrightarrow> list_all2 row_kept (t_rows tbl) (t_rows tbl')"

definition retains :: "schema \<Rightarrow> schema \<Rightarrow> bool" where
  "retains s s' \<longleftrightarrow> (\<forall>t tbl. dget s t = Some tbl \<longrightarrow> (\<exists>tbl'. dget s' t = Some tbl' \<and> same_rows tbl tbl'))"

lemma same_rows_refl: "same_rows tbl tbl"
  by (simp add: same_rows_def row_kept_def list_all2_refl)

lemma same_rows_trans: "same_rows a b \<Longrightarrow> same_rows b c \<Longrightarrow> same_rows a c"
  using list_all2_trans [of row_kept row_kept row_kept "t_rows a" "t_rows b" "t_rows c"]
  by (simp add: same_rows_def row_kept_def)

lemma retains_refl: "retains s s"
  by (simp add: retains_def same_rows_refl)

lemma retains_trans: "retains a b \<Longrightarrow> retains b c \<Longrightarrow> retains a c"
  unfolding retains_def by (meson same_rows_trans)

lemma add_column_stage:
  assumes "dget s ingest_job = Some tbl" and "c_name c \<notin> set (map c_name (t_columns tbl))"
  shows "\<exists>s' tbl'. add_column now ingest_job c s = Some s' \<and> dget s' ingest_job = Some tbl' \<and>
    t_columns tbl' = t_columns tbl @ [c] \<and> retains s s'"
proof -
  have "list_all2 row_kept rows (map (\<lambda>r. r @ [(c_name c, fill now c)]) rows)"
    for rows by (induction rows) (auto simp: row_kept_def map_add_Some_iff)
  then show ?thesis using assms same_rows_refl
    by (auto simp: add_column_def retains_def same_rows_def dict_simps split: if_splits)
qed

lemma stage_step:
  "at_stage 0 s \<Longrightarrow> \<exists>s'. upgrade_0001 s = Some s' \<and> at_stage (Suc 0) s' \<and> retains s s'"
  "at_stage (Suc 0) s \<Longrightarrow> \<exists>s'. upgrade_0002 now s = Some s' \<and> at_stage (Suc (Suc 0)) s' \<and> retains s s'"
  "at_stage (Suc (Suc 0)) s \<Longrightarrow> \<exists>s'. upgrade_0003 now s = Some s' \<and> at_stage (Suc (Suc (Suc 0))) s' \<and> retains s s'"
proof -
  show "at_stage 0 s \<Longrightarrow> \<exists>s'. upgrade_0001 s = Some s' \<and> at_stage (Suc 0) s' \<and> retains s s'"
    by (auto simp: upgrade_0001_def create_table_def first_columns_def retains_def dict_simps same_rows_refl)
  show "at_stage (Suc 0) s \<Longrightarrow> \<exists>s'. upgrade_0002 now s = Some s' \<and> at_stage (Suc (Suc 0)) s' \<and> retains s s'"
    using add_column_stage [of s _ "hd added_columns" now]
    by (auto simp: upgrade_0002_def added_columns_def first_columns_def col_def split: option.splits) metis?
  show "at_stage (Suc (Suc 0)) s \<Longrightarrow> \<exists>s'. upgrade_0003 now s = Some s' \<and> at_stage (Suc (Suc (Suc 0))) s' \<and> retains s s'"
    using add_column_stage [of s _ "hd (tl added_columns)" now]
    by (auto simp: upgrade_0003_def added_columns_def first_columns_def col_def split: option.splits) metis?
qed

lemma known_versions:
  "next_revision (stage_version 0) = Some revision_0001"
  "next_revision (stage_version (Suc 0)) = Some revision_0002"
  "next_revision (stage_version (Suc (Suc 0))) = Some revision_0003"
  "next_revision (stage_version (Suc (Suc (Suc 0)))) = None"
  by (simp_all add: next_revision_def stage_version_def versions_def revision_0001_def revision_0002_def revision_0003_def)

lemma climb_step:
  assumes "climbs run" and "next_revision (stage_version n) = Some r" and "rev_up r now s = Some s'" and "n < 3"
    and "stage_version (Suc n) = Some (rev_id r)"
  shows "run now \<lparr>db_schema = s, db_version = stage_version n\<rparr> = run now \<lparr>db_schema = s', db_version = stage_version (Suc n)\<rparr>"
proof -
  have "n > 0 \<Longrightarrow> versions ! (n - 1) \<in> set versions" using assms(4) by (intro nth_mem) (simp add: versions_def)
  then have "stage_version n = None \<or> (\<exists>r \<in> set versions. stage_version n = Some (rev_id r))"
    by (auto simp: stage_version_def)
  with assms(1) have "case next_revision (stage_version n) of
      None \<Rightarrow> run now \<lparr>db_schema = s, db_version = stage_version n\<rparr> = (\<lparr>db_schema = s, db_version = stage_version n\<rparr>, None)
    | Some r \<Rightarrow> (case rev_up r now s of
        Some s' \<Rightarrow> run now \<lparr>db_schema = s, db_version = stage_version n\<rparr> =
          run now \<lparr>db_schema = s', db_version = Some (rev_id r)\<rparr>
      | None \<Rightarrow> (\<exists>e. run now \<lparr>db_schema = s, db_version = stage_version n\<rparr> =
          (\<lparr>db_schema = s, db_version = stage_version n\<rparr>, Some e)))"
    unfolding climbs_def by blast
  then show ?thesis by (simp only: assms(2,3,5) option.case)
qed

lemma revision_ids:
  "stage_version (Suc 0) = Some (rev_id revision_0001)" "stage_version (Suc (Suc 0)) = Some (rev_id revision_0002)"
  "stage_version (Suc (Suc (Suc 0))) = Some (rev_id revision_0003)" "stage_version 3 = Some (rev_id revision_0003)"
  by (simp_all add: stage_version_def versions_def)

lemma rev_ups:
  "rev_up revision_0001 now = upgrade_0001" "rev_up revision_0002 now = upgrade_0002 now"
  "rev_up revision_0003 now = upgrade_0003 now"
  by (simp_all add: revision_0001_def revision_0002_def revision_0003_def)

lemma climbs_to_head:
  assumes run: "climbs run" and stage: "at_stage n s" "n \<le> 3"
  shows "\<exists>s'. run now \<lparr>db_schema = s, db_version = stage_version n\<rparr> = (\<lparr>db_schema = s', db_version = stage_version 3\<rparr>, None) \<and>
    at_stage 3 s' \<and> retains s s' \<and> (n = 3 \<longrightarrow> s' = s)"
proof -
  have three: "(3 :: nat) = Suc (Suc (Suc 0))" by simp
  have head: "run now \<lparr>db_schema = s, db_version = stage_version 3\<rparr> = (\<lparr>db_schema = s, db_version = stage_version 3\<rparr>, None)" for s
    using run [unfolded climbs_def, rule_format, of "stage_version 3" now s] known_versions(4)
    by (auto simp: revision_ids three versions_def)
  have two: "\<exists>s'. run now \<lparr>db_schema = s, db_version = stage_version (Suc (Suc 0))\<rparr> =
      (\<lparr>db_schema = s', db_version = stage_version 3\<rparr>, None) \<and> at_stage 3 s' \<and> retains s s'" if "at_stage (Suc (Suc 0)) s" for s
  proof -
    from stage_step(3) [OF that] obtain s' where s': "upgrade_0003 now s = Some s'" "at_stage 3 s'" "retains s s'"
      unfolding three by blast
    from climb_step [OF run known_versions(3), of now s s'] s' head [of s'] show ?thesis
      by (auto simp: revision_ids rev_ups)
  qed
  have one: "\<exists>s'. run now \<lparr>db_schema = s, db_version = stage_version (Suc 0)\<rparr> =
      (\<lparr>db_schema = s', db_version = stage_version 3\<rparr>, None) \<and> at_stage 3 s' \<and> retains s s'" if "at_stage (Suc 0) s" for s
  proof -
    from stage_step(2) [OF that] obtain h where h: "upgrade_0002 now s = Some h" "at_stage (Suc (Suc 0)) h" "retains s h" by blast
    from climb_step [OF run known_versions(2), of now s h] h(1) two [OF h(2)] retains_trans [OF h(3)] show ?thesis
      by (auto simp: revision_ids rev_ups)
  qed
  have zero: "\<exists>s'. run now \<lparr>db_schema = s, db_version = stage_version 0\<rparr> =
      (\<lparr>db_schema = s', db_version = stage_version 3\<rparr>, None) \<and> at_stage 3 s' \<and> retains s s'" if "at_stage 0 s" for s
  proof -
    from stage_step(1) [OF that] obtain h where h: "upgrade_0001 s = Some h" "at_stage (Suc 0) h" "retains s h" by blast
    from climb_step [OF run known_versions(1), of now s h] h(1) one [OF h(2)] retains_trans [OF h(3)] show ?thesis
      by (auto simp: revision_ids rev_ups)
  qed
  from stage(2) consider "n = 0" | "n = Suc 0" | "n = Suc (Suc 0)" | "n = 3" by linarith
  then show ?thesis
    by cases (use stage(1) zero one two head retains_refl in auto)
qed

lemma head_columns: "at_stage 3 s \<Longrightarrow> \<exists>tbl. dget s ingest_job = Some tbl \<and> set (t_columns tbl) = set orm_columns"
  by (auto simp: eval_nat_numeral first_columns_def added_columns_def orm_columns_def split: option.splits)

text \<open>C36. Starting a container brings the database to what the application expects: from an empty database or from any
  earlier revision, the run of \<open>env.py\<close> connects to exactly the configured URL, ends without an exception and with
  its connection closed, at the last revision and with the columns of the ORM class, no table or row lost and no
  value of a row changed; and starting again changes nothing. The URL must not contain a percent sign.\<close>

theorem upgrade_reaches_head:
  assumes run: "climbs run" and stage: "at_stage n (db_schema db)" "n \<le> 3" "db_version db = stage_version n"
    and url: "37 \<notin> set (migration_url override s)"
  shows "\<exists>db'. env_py False has_file vars override s run None now db =
      ((if has_file then [File_Config] else []) @
        [Make_Engine (migration_url override s), Connect, Configure_Connection, Begin, Run_Migrations, Commit,
          Close, Dispose],
       db', None) \<and>
    db_version db' = Some (rev_id revision_0003) \<and> retains (db_schema db) (db_schema db') \<and>
    (\<exists>tbl. dget (db_schema db') ingest_job = Some tbl \<and> set (t_columns tbl) = set orm_columns) \<and>
    create_all (db_schema db') = db_schema db' \<and>
    (\<forall>later. fst (snd (env_py False has_file vars override s run None later db')) = db')"
proof -
  have db: "db = \<lparr>db_schema = db_schema db, db_version = stage_version n\<rparr>" using stage(3) by simp
  from climbs_to_head [OF run stage(1,2), of now] obtain s' where
    s': "run now db = (\<lparr>db_schema = s', db_version = stage_version 3\<rparr>, None)" "at_stage 3 s'" "retains (db_schema db) s'"
    using db by metis
  have again: "run later \<lparr>db_schema = s', db_version = stage_version 3\<rparr> = (\<lparr>db_schema = s', db_version = stage_version 3\<rparr>, None)" for later
    using climbs_to_head [OF run s'(2), of later] by auto
  have env: "env_py False has_file vars override s run None t d =
      ((if has_file then [File_Config] else []) @
        [Make_Engine (migration_url override s), Connect, Configure_Connection, Begin, Run_Migrations, Commit,
          Close, Dispose], d', None)"
    if "run t d = (d', None)" for t d d'
    using that plain_option [OF url]
    by (simp add: env_py_def run_migrations_online_def run_async_migrations_def do_run_migrations_def)
  obtain tbl where "dget s' ingest_job = Some tbl" "set (t_columns tbl) = set orm_columns" using head_columns [OF s'(2)] by blast
  then show ?thesis using env [OF s'(1)] env [OF again] s'(3) revision_ids(3)
    by (simp add: create_all_def numeral_3_eq_3)
qed

text \<open>A walk with the property: one revision after the other, at most as many as there are.\<close>

fun climb :: "nat \<Rightarrow> migrator" where
  "climb 0 now db = (db, None)"
| "climb (Suc k) now db =
     (case next_revision (db_version db) of
        None \<Rightarrow> (db, None)
      | Some r \<Rightarrow>
          (case rev_up r now (db_schema db) of
             Some s \<Rightarrow> climb k now \<lparr>db_schema = s, db_version = Some (rev_id r)\<rparr>
           | None \<Rightarrow> (db, Some (DbError []))))"

definition walk_versions :: migrator where
  "walk_versions now db =
     climb (if db_version db = None then 3 else if db_version db = Some (lit ''0001'') then 2
            else if db_version db = Some (lit ''0002'') then 1 else 0) now db"

lemma walk_climbs: "climbs walk_versions"
  unfolding climbs_def
  by (auto simp: walk_versions_def next_revision_def versions_def revision_0001_def revision_0002_def revision_0003_def
      eval_nat_numeral split: option.splits)

theorem upgrade_reaches_head_witness:
  "\<exists>db'. fst (snd (env_py False True (\<lambda>_. Inl KeyError) None default_settings walk_versions None 9
       \<lparr>db_schema = sample_db_0001, db_version = Some (lit ''0001'')\<rparr>)) = db' \<and>
     db_version db' = Some (lit ''0003'') \<and> retains sample_db_0001 (db_schema db')"
proof -
  let ?db = "\<lparr>db_schema = sample_db_0001, db_version = Some (lit ''0001'')\<rparr>"
  have "at_stage 1 (db_schema ?db)" "db_version ?db = stage_version 1"
    by (simp_all add: sample_db_0001_def upgrade_0001_def create_table_def first_columns_def stage_version_def versions_def
        revision_0001_def)
  moreover have "37 \<notin> set (migration_url None default_settings)" by code_simp
  ultimately show ?thesis
    using upgrade_reaches_head [OF walk_climbs, of 1 ?db None default_settings True "\<lambda>_. Inl KeyError" 9]
    by (auto simp: revision_0003_def)
qed

text \<open>What the percent sign does: a password quoted for URLs stops the migration before it connects.\<close>

lemma percent_sign_stops_migration:
  "\<exists>why. env_py False True vars None (default_settings\<lparr>mysql_password := lit ''p%40ss''\<rparr>) run None now db =
     ([], db, Some (ValueError why))"
proof -
  have "(case set_option (migration_url None (default_settings\<lparr>mysql_password := lit ''p%40ss''\<rparr>)) of
      Inl (ValueError _) \<Rightarrow> True | _ \<Rightarrow> False)" by code_simp
  then show ?thesis unfolding env_py_def by (auto split: sum.splits exc.splits)
qed

text \<open>Tables made by \<open>create_all\<close> have no recorded version: a later migration run fails at the first revision.\<close>

lemma auto_created_not_upgraded:
  assumes run: "climbs run" and auto: "db_auto_create s" and url: "37 \<notin> set (migration_url override s)"
  shows "\<exists>calls e. env_py False has_file vars override s run None now
     \<lparr>db_schema = auto_create s None [], db_version = None\<rparr> =
     (calls, \<lparr>db_schema = auto_create s None [], db_version = None\<rparr>, Some e)"
proof -
  have "next_revision None = Some revision_0001" using known_versions(1) by (simp add: stage_version_def)
  moreover have "upgrade_0001 (auto_create s None []) = None"
    using auto by (simp add: auto_create_def init_db_def create_all_def upgrade_0001_def create_table_def)
  ultimately obtain e where "run now \<lparr>db_schema = auto_create s None [], db_version = None\<rparr> =
      (\<lparr>db_schema = auto_create s None [], db_version = None\<rparr>, Some e)"
    using run [unfolded climbs_def, rule_format,
      of None now "auto_create s None []"] by (auto simp: revision_0001_def)
  then show ?thesis using plain_option [OF url]
    by (simp add: env_py_def run_migrations_online_def run_async_migrations_def do_run_migrations_def)
qed

lemma create_all_twice: "create_all (create_all s) = create_all s"
  by (auto simp: create_all_def dict_simps split: option.split)

end
