(* ===== verification/Lifespan.thy ===== *)
theory Lifespan
  imports Pipeline
begin

text \<open>
  Start and stop of the background tasks (\<open>lifespan\<close> of \<open>app/main.py\<close> and the \<open>start\<close>/\<open>stop\<close> methods it calls). The
  three loops keep their task in a field that is \<open>None\<close> when they are stopped; the code is the same in each, and
  what it relies on is the interface \<open>loop_slot\<close>. The startup recovery is undisturbed here; \<open>Lifecycle\<close> runs it
  between the workers.
\<close>

section \<open>The event loop's tasks\<close>

record runtime =
  rt_next :: nat
  rt_live :: "(nat \<times> pystr) list"
  rt_started :: bool
  rt_workers :: "nat list"
  rt_cleaner :: "nat option"
  rt_reconciler :: "nat option"
  rt_reaper :: "nat option"

definition idle :: "nat \<Rightarrow> runtime" where
  "idle n = \<lparr>rt_next = n, rt_live = [], rt_started = False, rt_workers = [],
     rt_cleaner = None, rt_reconciler = None, rt_reaper = None\<rparr>"

text \<open>\<open>asyncio.create_task\<close>, and \<open>cancel\<close> followed by awaiting the task.\<close>

definition create_task :: "pystr \<Rightarrow> runtime \<Rightarrow> nat \<times> runtime" where
  "create_task name rt =
     (rt_next rt, rt\<lparr>rt_next := Suc (rt_next rt), rt_live := rt_live rt @ [(rt_next rt, name)]\<rparr>)"

definition cancel_task :: "nat \<Rightarrow> runtime \<Rightarrow> runtime" where
  "cancel_task i rt = rt\<lparr>rt_live := filter (\<lambda>(k, name). k \<noteq> i) (rt_live rt)\<rparr>"

section \<open>The loops\<close>

definition start_loop :: "(runtime \<Rightarrow> nat option) \<Rightarrow> (nat option \<Rightarrow> runtime \<Rightarrow> runtime) \<Rightarrow> pystr \<Rightarrow> runtime \<Rightarrow> runtime" where
  "start_loop get put name rt =
     (case get rt of
        Some i \<Rightarrow> rt
      | None \<Rightarrow> (case create_task name rt of (i, rt') \<Rightarrow> put (Some i) rt'))"

definition stop_loop :: "(runtime \<Rightarrow> nat option) \<Rightarrow> (nat option \<Rightarrow> runtime \<Rightarrow> runtime) \<Rightarrow> runtime \<Rightarrow> runtime" where
  "stop_loop get put rt = (case get rt of None \<Rightarrow> rt | Some i \<Rightarrow> put None (cancel_task i rt))"

definition start_cleaner :: "runtime \<Rightarrow> runtime" where
  "start_cleaner = start_loop rt_cleaner (\<lambda>x rt. rt\<lparr>rt_cleaner := x\<rparr>) (lit ''job-cleaner'')"

definition stop_cleaner :: "runtime \<Rightarrow> runtime" where
  "stop_cleaner = stop_loop rt_cleaner (\<lambda>x rt. rt\<lparr>rt_cleaner := x\<rparr>)"

definition start_reconciler :: "runtime \<Rightarrow> runtime" where
  "start_reconciler = start_loop rt_reconciler (\<lambda>x rt. rt\<lparr>rt_reconciler := x\<rparr>) (lit ''delivery-reconciler'')"

definition stop_reconciler :: "runtime \<Rightarrow> runtime" where
  "stop_reconciler = stop_loop rt_reconciler (\<lambda>x rt. rt\<lparr>rt_reconciler := x\<rparr>)"

definition start_reaper :: "runtime \<Rightarrow> runtime" where
  "start_reaper = start_loop rt_reaper (\<lambda>x rt. rt\<lparr>rt_reaper := x\<rparr>) (lit ''stuck-job-reaper'')"

definition stop_reaper :: "runtime \<Rightarrow> runtime" where
  "stop_reaper = stop_loop rt_reaper (\<lambda>x rt. rt\<lparr>rt_reaper := x\<rparr>)"

section \<open>The workers\<close>

definition worker_name :: "nat \<Rightarrow> pystr" where
  "worker_name i = lit ''rca-worker-'' @ str_of_nat i"

fun create_workers :: "nat list \<Rightarrow> runtime \<Rightarrow> runtime" where
  "create_workers [] rt = rt"
| "create_workers (i # is) rt =
     (case create_task (worker_name i) rt of
        (t, rt') \<Rightarrow> create_workers is (rt'\<lparr>rt_workers := rt_workers rt' @ [t]\<rparr>))"

definition start_queue :: "nat \<Rightarrow> runtime \<Rightarrow> runtime" where
  "start_queue concurrency rt =
     (if rt_started rt then rt
      else create_workers [0..<concurrency] (rt\<lparr>rt_started := True, rt_workers := []\<rparr>))"

text \<open>\<open>stop\<close> waits until the queue has been worked off, for ever when nobody works on it (\<open>None\<close>).\<close>

definition stop_queue :: "env \<Rightarrow> (nat \<Rightarrow> answers) \<Rightarrow> runtime \<Rightarrow> world \<Rightarrow> (runtime \<times> world) option" where
  "stop_queue env ans rt w =
     (if \<not> rt_started rt then Some (rt, w)
      else if rt_workers rt = [] \<and> w_queue w \<noteq> [] then None
      else Some ((fold cancel_task (rt_workers rt) rt)\<lparr>rt_workers := [], rt_started := False\<rparr>,
        work_off env ans 0 w))"

section \<open>Startup and shutdown\<close>

definition start_up :: "pystr \<Rightarrow> nat \<Rightarrow> env \<Rightarrow> exc option \<Rightarrow> loop_answers \<Rightarrow> runtime \<Rightarrow> world \<Rightarrow> (runtime \<times> world) res" where
  "start_up openai_api_key concurrency env fault l rt w =
     rbind (startup_check openai_api_key) (\<lambda>_.
       Inr (start_reaper (start_reconciler (start_cleaner (start_queue concurrency rt))),
            snd (recover_on_startup env fault l w)))"

definition shut_down :: "env \<Rightarrow> (nat \<Rightarrow> answers) \<Rightarrow> runtime \<Rightarrow> world \<Rightarrow> (runtime \<times> world) option" where
  "shut_down env ans rt w = stop_queue env ans (stop_cleaner (stop_reconciler (stop_reaper rt))) w"

section \<open>What a loop relies on\<close>

text \<open>The field of one loop: it is read back as written, and nothing else lives in it.\<close>

locale loop_slot =
  fixes get :: "runtime \<Rightarrow> nat option" and put :: "nat option \<Rightarrow> runtime \<Rightarrow> runtime" and name :: pystr
  assumes get_put: "get (put x rt) = x"
    and put_put: "put x (put y rt) = put x rt"
    and put_get: "get rt = x \<Longrightarrow> put x rt = rt"
    and put_live: "put x (rt\<lparr>rt_live := live\<rparr>) = (put x rt)\<lparr>rt_live := live\<rparr>" "rt_live (put x rt) = rt_live rt"
    and put_next: "put x (rt\<lparr>rt_next := n\<rparr>) = (put x rt)\<lparr>rt_next := n\<rparr>" "rt_next (put x rt) = rt_next rt"
    and get_other: "get (rt\<lparr>rt_live := live\<rparr>) = get rt" "get (rt\<lparr>rt_next := n\<rparr>) = get rt"
begin

lemma start_twice: "start_loop get put name (start_loop get put name rt) = start_loop get put name rt"
  by (simp add: start_loop_def create_task_def get_put split: option.split)

lemma stop_stopped: "get rt = None \<Longrightarrow> stop_loop get put rt = rt"
  by (simp add: stop_loop_def)

lemma stop_twice: "stop_loop get put (stop_loop get put rt) = stop_loop get put rt"
  by (simp add: stop_loop_def get_put split: option.split)

text \<open>A loop that was stopped, started and stopped again leaves only a used task number behind.\<close>

lemma stop_started:
  assumes "get rt = None" and "\<forall>(i, n) \<in> set (rt_live rt). i < rt_next rt"
  shows "stop_loop get put (start_loop get put name rt) = rt\<lparr>rt_next := Suc (rt_next rt)\<rparr>"
proof -
  have "filter (\<lambda>(k, n). k \<noteq> rt_next rt) (rt_live rt) = rt_live rt"
    using assms(2) by (intro filter_True) auto
  then show ?thesis
    using assms(1) put_get [of rt None]
    by (simp add: stop_loop_def start_loop_def create_task_def cancel_task_def get_put get_other put_live put_next put_put)
qed

end

interpretation cleaner: loop_slot rt_cleaner "\<lambda>x rt. rt\<lparr>rt_cleaner := x\<rparr>" "lit ''job-cleaner''"
  by unfold_locales auto

interpretation reconciler: loop_slot rt_reconciler "\<lambda>x rt. rt\<lparr>rt_reconciler := x\<rparr>" "lit ''delivery-reconciler''"
  by unfold_locales auto

interpretation reaper: loop_slot rt_reaper "\<lambda>x rt. rt\<lparr>rt_reaper := x\<rparr>" "lit ''stuck-job-reaper''"
  by unfold_locales auto

section \<open>A whole life\<close>

lemma created_workers:
  "rt_started rt' = rt_started rt \<and> rt_cleaner rt' = rt_cleaner rt \<and> rt_reconciler rt' = rt_reconciler rt \<and>
   rt_reaper rt' = rt_reaper rt \<and> rt_next rt' = rt_next rt + length is \<and>
   rt_workers rt' = rt_workers rt @ [rt_next rt..<rt_next rt + length is] \<and>
   rt_live rt' = rt_live rt @ zip [rt_next rt..<rt_next rt + length is] (map worker_name is)"
  if "create_workers is rt = rt'"
  using that
proof (induction "is" arbitrary: rt)
  case (Cons i "is")
  have "[rt_next rt..<rt_next rt + length (i # is)] = rt_next rt # [Suc (rt_next rt)..<Suc (rt_next rt) + length is]"
    by (simp add: upt_conv_Cons del: upt_Suc)
  with Cons.IH [of "rt\<lparr>rt_next := Suc (rt_next rt), rt_live := rt_live rt @ [(rt_next rt, worker_name i)],
      rt_workers := rt_workers rt @ [rt_next rt]\<rparr>"] Cons.prems
  show ?case by (simp add: create_task_def del: upt_Suc)
qed simp

lemma cancelled_workers:
  "fold cancel_task ids rt = rt\<lparr>rt_live := filter (\<lambda>(k, name). k \<notin> set ids) (rt_live rt)\<rparr>"
proof (induction ids arbitrary: rt)
  case (Cons i ids)
  show ?case unfolding fold_Cons comp_apply Cons.IH by (simp add: cancel_task_def case_prod_beta' conj_commute)
qed simp

text \<open>What runs between startup and shutdown.\<close>

definition running :: "nat \<Rightarrow> nat \<Rightarrow> runtime" where
  "running k n =
     \<lparr>rt_next = k + n + 3,
      rt_live = zip [k..<k + n] (map worker_name [0..<n]) @
        [(k + n, lit ''job-cleaner''), (k + n + 1, lit ''delivery-reconciler''), (k + n + 2,
          lit ''stuck-job-reaper'')],
      rt_started = True, rt_workers = [k..<k + n],
      rt_cleaner = Some (k + n), rt_reconciler = Some (k + n + 1), rt_reaper = Some (k + n + 2)\<rparr>"

lemma started: "start_reaper (start_reconciler (start_cleaner (start_queue n (idle k)))) = running k n"
proof -
  obtain rt where rt: "create_workers [0..<n] (idle k\<lparr>rt_started := True,
    rt_workers := []\<rparr>) = rt" by blast
  have "rt = \<lparr>rt_next = k + n, rt_live = zip [k..<k + n] (map worker_name [0..<n]), rt_started = True,
      rt_workers = [k..<k + n], rt_cleaner = None, rt_reconciler = None, rt_reaper = None\<rparr>"
    using created_workers [OF rt] by (simp add: idle_def)
  then show ?thesis using rt
    by (simp add: start_queue_def start_reaper_def start_reconciler_def start_cleaner_def start_loop_def create_task_def
        running_def) (simp add: idle_def)
qed

lemma stopped:
  assumes "0 < n"
  shows "shut_down env ans (running k n) w = Some (idle (k + n + 3), work_off env ans 0 w)"
proof -
  show ?thesis using assms
    by (auto simp: shut_down_def stop_reaper_def stop_reconciler_def stop_cleaner_def stop_loop_def cancel_task_def
        running_def stop_queue_def cancelled_workers idle_def filter_empty_conv dest: set_zip_leftD)
qed

text \<open>C19. A life of the process leaves nothing behind: after a startup with a key for the language model there run
  exactly the configured number of workers and one of each loop, starting anything again changes nothing, and
  a shutdown returns (there being a worker), with no task alive and the queue worked off, whatever happened in
  between. Without a key nothing is started.\<close>

theorem lifespan_leaves_nothing:
  assumes "0 < n"
  shows "(key = [] \<longrightarrow> (\<exists>e. start_up key n env fault l (idle k) w = Inl e)) \<and>
    (key \<noteq> [] \<longrightarrow>
      (\<exists>rt w1. start_up key n env fault l (idle k) w = Inr (rt, w1) \<and>
         map snd (rt_live rt) =
           map worker_name [0..<n] @ [lit ''job-cleaner'', lit ''delivery-reconciler'',
             lit ''stuck-job-reaper''] \<and>
         start_reaper (start_reconciler (start_cleaner (start_queue n rt))) = rt \<and>
         (\<forall>w2. \<exists>rt' w3. shut_down env ans rt w2 = Some (rt',
           w3) \<and> rt_live rt' = [] \<and> w_queue w3 = [])))"
proof -
  have "map snd (rt_live (running k n)) =
      map worker_name [0..<n] @ [lit ''job-cleaner'', lit ''delivery-reconciler'', lit ''stuck-job-reaper'']"
    by (simp add: running_def)
  moreover have "start_reaper (start_reconciler (start_cleaner (start_queue n (running k n)))) = running k n"
    by (simp add: running_def start_queue_def start_reaper_def start_reconciler_def start_cleaner_def start_loop_def)
  moreover have "w_queue (work_off env ans 0 w2) = []" for w2 by (rule work_off_empties)
  ultimately show ?thesis using assms
    by (auto simp: start_up_def startup_check_def started stopped idle_def [of "k + n + 3"])
qed

theorem lifespan_leaves_nothing_witness:
  "\<exists>rt w1. start_up (lit ''key'') 2 sample_env None sample_loop (idle 0) sample_world = Inr (rt, w1) \<and>
     (\<exists>rt' w3. shut_down sample_env (\<lambda>_. sample_answers) rt w1 = Some (rt',
       w3) \<and> w_queue w3 = [])"
proof -
  have "(lit ''key'' :: pystr) \<noteq> []" by simp
  with lifespan_leaves_nothing [of 2 "lit ''key''" sample_env None sample_loop 0 sample_world "\<lambda>_. sample_answers"]
  show ?thesis by fastforce
qed

end
