(* ===== verification/Log_Output.thy ===== *)
theory Log_Output
  imports Lifespan Deployment
begin

text \<open>
  What the process writes to its log and when: the levels \<open>setup_logging\<close> (\<open>app/core/logging_config.py\<close>) puts into
  the loggers of the standard library, and the handler of \<open>app/core/error_handlers.py\<close>, which leaves a line about
  every request that does not fit its schema and answers as the framework would.
\<close>

section \<open>Loggers\<close>

text \<open>Levels set on named loggers; 0 is no level. A logger without one takes that of the next logger above it.\<close>

record loggers =
  lg_root :: int
  lg_levels :: "(pystr, int) dict"

definition level_names :: "(pystr, int) dict" where
  "level_names =
     [(lit ''CRITICAL'', 50), (lit ''FATAL'', 50), (lit ''ERROR'', 40), (lit ''WARN'', 30), (lit ''WARNING'',
       30), (lit ''INFO'', 20), (lit ''DEBUG'', 10), (lit ''NOTSET'', 0)]"

definition check_level :: "pystr \<Rightarrow> int res" where
  "check_level name =
     (case dget level_names name of Some n \<Rightarrow> Inr n | None \<Rightarrow> Inl (ValueError (lit ''Unknown level: '' @ name)))"

text \<open>The name and those above it: a name is a path with dots.\<close>

definition name_chain :: "pystr \<Rightarrow> pystr list" where
  "name_chain name =
     (let parts = split_on 46 name in map (\<lambda>k. str_join [46] (take k parts)) (rev [1..<Suc (length parts)]))"

fun first_level :: "(pystr, int) dict \<Rightarrow> pystr list \<Rightarrow> int \<Rightarrow> int" where
  "first_level levels [] base = base"
| "first_level levels (n # ns) base =
     (case dget levels n of
        Some l \<Rightarrow> if l \<noteq> 0 then l else first_level levels ns base
      | None \<Rightarrow> first_level levels ns base)"

definition effective_level :: "loggers \<Rightarrow> pystr \<Rightarrow> int" where
  "effective_level st name = first_level (lg_levels st) (name_chain name) (lg_root st)"

definition enabled :: "loggers \<Rightarrow> pystr \<Rightarrow> int \<Rightarrow> bool" where
  "enabled st name level \<longleftrightarrow> effective_level st name \<le> level"

definition noisy :: "pystr list" where
  "noisy = [lit ''httpx'', lit ''httpcore'']"

definition resolved_level :: "pystr option \<Rightarrow> pystr \<Rightarrow> pystr" where
  "resolved_level level setting =
     str_upper (case level of None \<Rightarrow> setting | Some l \<Rightarrow> if l = [] then setting else l)"

definition setup_logging :: "pystr option \<Rightarrow> pystr \<Rightarrow> loggers \<Rightarrow> loggers res" where
  "setup_logging level setting st =
     rbind (check_level (resolved_level level setting)) (\<lambda>n.
       Inr (st\<lparr>lg_root := n, lg_levels := fold (\<lambda>name levels. dset name 30 levels) noisy (lg_levels st)\<rparr>))"

text \<open>\<open>lifespan\<close> sets up the log before anything else.\<close>

definition boot :: "settings \<Rightarrow> env \<Rightarrow> exc option \<Rightarrow> loop_answers \<Rightarrow> runtime \<Rightarrow> world \<Rightarrow> loggers \<Rightarrow>
    (loggers \<times> runtime \<times> world) res" where
  "boot s env fault l rt w st =
     rbind (setup_logging None (log_level s) st) (\<lambda>st'.
     rbind (start_up (openai_api_key s) (nat (rca_worker_concurrency s)) env fault l rt w) (\<lambda>(rt', w'). Inr (st', rt', w')))"

section \<open>Requests that do not fit\<close>

record log_entry =
  ll_logger :: pystr
  ll_level :: int
  ll_text :: pystr

text \<open>Method, path and the \<open>content-length\<close> header of a request.\<close>

record request =
  rq_method :: pystr
  rq_path :: pystr
  rq_content_length :: "pystr option"

definition log_request_validation_error :: "(schema_error list \<Rightarrow> 'r) \<Rightarrow> request \<Rightarrow> schema_error list \<Rightarrow> log_entry \<times> 'r" where
  "log_request_validation_error default_reply rq errors =
     (\<lparr>ll_logger = lit ''app.core.error_handlers'', ll_level = 30,
       ll_text = ([50836, 52397, 32, 49828, 53412, 47560, 32, 48520, 51068, 52824] @ lit '' 422: '') @
         rq_method rq @ [32] @ rq_path rq @ [32, 40, 48376, 47928, 32] @
         (case rq_content_length rq of Some n \<Rightarrow> n | None \<Rightarrow> [63]) @ (lit '' bytes) '' @
           [8212, 32]) @
         summarize_validation_errors max_errors errors\<rparr>,
      default_reply errors)"

text \<open>\<open>register_error_handlers\<close>: the application with the handler, the errors being pydantic's.\<close>

definition post_ingest_logged :: "lax_int \<Rightarrow> pystr \<Rightarrow> request \<Rightarrow> schema_error list \<Rightarrow> pystr option \<Rightarrow> pystr \<Rightarrow> reception \<Rightarrow> world \<Rightarrow>
    log_entry list \<times> http_reply \<times> world" where
  "post_ingest_logged lax setting rq errors key body q w =
     (case post_ingest lax setting key body q w of
        (Unprocessable, w') \<Rightarrow>
          (case log_request_validation_error (\<lambda>_. Unprocessable) rq errors of (line,
            reply) \<Rightarrow> ([line], reply, w'))
      | (reply, w') \<Rightarrow> ([], reply, w'))"

section \<open>Laws\<close>

lemma first_level_unset: "\<forall>n \<in> set ns. dget levels n = None \<Longrightarrow> first_level levels ns base = base"
  by (induction ns) simp_all

lemma levels_set: "dget (fold (\<lambda>name levels. dset name 30 levels) ns levels) n = (if n \<in> set ns then Some 30 else dget levels n)"
  for levels :: "(pystr, int) dict"
  by (induction ns arbitrary: levels) (simp_all add: dict_simps)

lemma setup_levels:
  assumes "setup_logging level setting st = Inr st'"
  shows "check_level (resolved_level level setting) = Inr (lg_root st')"
    and "dget (lg_levels st') n = (if n \<in> set noisy then Some 30 else dget (lg_levels st) n)"
  using assms by (auto simp: setup_logging_def res_simps levels_set)

text \<open>After the setup a logger without a level of its own or above it writes what is at least as severe as the
  configured level, the two loggers of the HTTP client write from WARNING on, and a second setup changes nothing.\<close>

theorem logging_as_configured:
  assumes ready: "setup_logging level setting st = Inr st'"
  shows "(\<forall>n \<in> set (name_chain name). n \<notin> set noisy \<and> dget (lg_levels st) n = None) \<longrightarrow>
      (enabled st' name l \<longleftrightarrow> lg_root st' \<le> l)"
    and "n \<in> set noisy \<Longrightarrow> enabled st' n l \<longleftrightarrow> 30 \<le> l"
    and "setup_logging level setting st' = Inr st'"
proof -
  show "(\<forall>n \<in> set (name_chain name). n \<notin> set noisy \<and> dget (lg_levels st) n = None) \<longrightarrow>
      (enabled st' name l \<longleftrightarrow> lg_root st' \<le> l)"
    using first_level_unset [of "name_chain name" "lg_levels st'" "lg_root st'"] setup_levels(2) [OF ready]
    by (simp add: enabled_def effective_level_def)
  show "enabled st' n l \<longleftrightarrow> 30 \<le> l" if n: "n \<in> set noisy"
  proof -
    have "name_chain n = [n]" using n unfolding noisy_def set_simps by (elim insertE) (simp_all add: name_chain_def)
    then show ?thesis using setup_levels(2) [OF ready] n by (simp add: enabled_def effective_level_def)
  qed
  have same: "dset n 30 (lg_levels st') = lg_levels st'" if "n \<in> set noisy" for n
    using setup_levels(2) [OF ready] that by (simp add: update_triv)
  then have "fold (\<lambda>name levels. dset name 30 levels) ns (lg_levels st') = lg_levels st'" if "set ns \<subseteq> set noisy" for ns
    using that by (induction ns) simp_all
  with setup_levels(1) [OF ready] show "setup_logging level setting st' = Inr st'" by (simp add: setup_logging_def)
qed

text \<open>A level that is no name of a level stops the process before anything is started.\<close>

lemma unknown_level_stops:
  "dget level_names (str_upper (log_level s)) = None \<Longrightarrow> \<exists>e. boot s env fault l rt w st = Inl e"
  by (simp add: boot_def setup_logging_def resolved_level_def check_level_def)

text \<open>With the level ERROR the loggers meant to be quieter than the application write more than it.\<close>

lemma noisier_than_the_application:
  "\<exists>st'. setup_logging None (lit ''error'') \<lparr>lg_root = 30, lg_levels = []\<rparr> = Inr st' \<and>
     \<not> enabled st' (lit ''app.main'') 30 \<and> enabled st' (lit ''httpx'') 30"
proof -
  have "(case setup_logging None (lit ''error'') \<lparr>lg_root = 30, lg_levels = []\<rparr> of
      Inr st' \<Rightarrow> \<not> enabled st' (lit ''app.main'') 30 \<and> enabled st' (lit ''httpx'') 30 | Inl e \<Rightarrow> False)" by code_simp
  then show ?thesis by (auto split: sum.splits)
qed

text \<open>The handler leaves reply and state to the framework, and writes one line exactly for the requests answered 422.
  Whatever the body holds, the line has at most the summaries of twenty errors and one more part.\<close>

theorem rejected_request_logged:
  assumes "post_ingest_logged lax setting rq errors key body q w = (lines, reply, w')"
  shows "post_ingest lax setting key body q w = (reply,
    w') \<and> (lines \<noteq> [] \<longleftrightarrow> reply = Unprocessable) \<and>
    (\<forall>line \<in> set lines. \<exists>before. ll_text line = before @ summarize_validation_errors max_errors errors \<and>
       length (summary_parts max_errors errors) \<le> 21)"
  using assms length_summary_parts [of max_errors errors]
  by (auto simp: post_ingest_logged_def log_request_validation_error_def max_errors_def
      split: prod.splits http_reply.splits simp del: lit_simps)

end
