(* ===== verification/Background.thy ===== *)
theory Background
  imports Pipeline
begin

text \<open>
  The background loops over time: the \<open>_loop\<close> of the reconciler and of the reaper, one iteration after another
  with the pause between them, and the proof that the reconciler's persistence pays: a stored result is delivered
  by the first pass in which Spring accepts it.
\<close>

section \<open>The loops\<close>

definition pause :: "int \<Rightarrow> world \<Rightarrow> world" where
  "pause seconds w = w\<lparr>w_now := w_now w + seconds\<rparr>"

text \<open>An iteration's exception is logged and the loop goes on.\<close>

definition reconciler_loop :: "env \<Rightarrow> int \<Rightarrow> loop_answers list \<Rightarrow> world \<Rightarrow> world" where
  "reconciler_loop env interval ls w = fold (\<lambda>l w. pause interval (snd (redeliver_once env l w))) ls w"

definition reaper_loop :: "env \<Rightarrow> int \<Rightarrow> loop_answers list \<Rightarrow> world \<Rightarrow> world" where
  "reaper_loop env interval ls w = fold (\<lambda>l w. pause interval (snd (reap_once env l w))) ls w"

section \<open>What redelivering one result may touch\<close>

definition sends_to :: "nat \<Rightarrow> event \<Rightarrow> bool" where
  "sends_to jid e = (case e of Sent_result i out \<Rightarrow> i = jid | _ \<Rightarrow> False)"

definition frame :: "nat \<Rightarrow> pystr option \<Rightarrow> world \<Rightarrow> world \<Rightarrow> bool" where
  "frame i path w w' \<longleftrightarrow>
     (\<forall>k. k \<noteq> i \<longrightarrow> row w' k = row w k) \<and>
     (\<forall>r. row w' i = Some r \<longrightarrow> (\<exists>r0. row w i = Some r0 \<and> j_signals r = j_signals r0)) \<and>
     w_now w' = w_now w \<and>
     (\<forall>n. map_option base_name path \<noteq> Some n \<longrightarrow> dget (w_files w') n = dget (w_files w) n) \<and>
     (wf_dict (w_jobs w) \<longrightarrow> wf_dict (w_jobs w')) \<and>
     (\<exists>evs. w_log w' = w_log w @ evs \<and> list_all (sends_to i) evs)"

lemma frame_refl: "frame i path w w"
  by (simp add: frame_def)

lemma frame_trans: "frame i path w w1 \<Longrightarrow> frame i path w1 w2 \<Longrightarrow> frame i path w w2"
  unfolding frame_def by (elim conjE exE) (intro conjI; fastforce)

lemma frame_log: "frame i path w (log_event (Sent_result i out) w)"
  by (simp add: frame_def job_simps sends_to_def) (simp add: log_event_def)

lemma frame_drop: "frame i path w (drop_signals stuck path w)"
  by (auto simp: frame_def job_simps dget_discard drop_signals_def row_def)

lemma frame_commit: "frame i path w (snd (commit fault i old new w))"
proof -
  obtain out w' where c: "commit fault i old new w = (out, w')" by fastforce
  show ?thesis using commit_cases [OF c] unfolding c
    by (auto simp: frame_def job_simps write_changes_def row_def set_row_def dict_simps)
qed

lemma frame_mark: "frame i path w (snd (mark_if_delivering select_fault fault i change w))"
proof -
  have "frame i path w (snd (wbind (commit fault i job (change job)) (\<lambda>_. wret True) w))" for job
    using frame_commit [of i path w fault job "change job"]
    by (auto simp: wbind_def wret_def split: prod.splits sum.splits)
  then show ?thesis
    by (auto simp: mark_if_delivering_def wmay_fail_def wbind_def [of "wmay_fail _"] frame_refl
        split: option.split)
qed

lemma frame_after_mark:
  assumes "frame i path w w1"
  shows "frame i path w (snd (wbind (mark_if_delivering sf f i change) (\<lambda>marked.
    wbind (wdo (if marked then drop_signals stuck path else (\<lambda>w. w))) (\<lambda>_. wret (g marked))) w1))"
proof -
  obtain out w2 where m: "mark_if_delivering sf f i change w1 = (out, w2)" by fastforce
  have "frame i path w w2" using frame_trans [OF assms] frame_mark [of i path w1 sf f change] m by simp
  then show ?thesis using frame_trans [OF _ frame_drop, of i path w w2 stuck] m
    by (auto simp: wbind_def wdo_def wret_def split: sum.split)
qed

lemma resend_frame: "frame i path w (snd (resend env l (i, stored_bundle, raw, path) d w))"
  by (auto simp: resend_def send_result_def frame_refl frame_log Let_def split: sum.split option.split)

lemma redeliver_frame: "frame i path w (snd (redeliver_one env l (i, stored_bundle, raw, path) w))"
proof (cases raw)
  case None
  then show ?thesis by (simp add: redeliver_one_def frame_refl)
next
  case (Some d)
  obtain out w1 where s: "resend env l (i, stored_bundle, Some d, path) d w = (out, w1)" by fastforce
  have w1: "frame i path w w1" using resend_frame [of i path w env l stored_bundle "Some d" d] s by simp
  show ?thesis
    using w1 frame_after_mark [OF w1, of "l_mark_select l i" "l_mark l i" _ "l_stuck l" "\<lambda>_. False"]
      frame_after_mark [OF w1, of "l_mark_select l i" "l_mark l i" _ "l_stuck l" "\<lambda>m. m"]
    by (auto simp: redeliver_one_def Some s reconciler_mark_done_def reconciler_mark_failed_def
        split: sum.split exc.split)
qed

section \<open>A pass, seen from one job\<close>

text \<open>Nothing that matters to the job \<open>jid\<close> has changed.\<close>

definition aside :: "nat \<Rightarrow> job \<Rightarrow> world \<Rightarrow> world \<Rightarrow> bool" where
  "aside jid job w w' \<longleftrightarrow>
     row w' jid = row w jid \<and> w_now w' = w_now w \<and> (wf_dict (w_jobs w) \<longrightarrow> wf_dict (w_jobs w')) \<and>
     (\<forall>n. job_file job = Some n \<longrightarrow> dget (w_files w') n = dget (w_files w) n) \<and>
     (\<forall>k r. row w' k = Some r \<longrightarrow> (\<exists>r0. row w k = Some r0 \<and> j_signals r = j_signals r0)) \<and>
     filter (sends_to jid) (w_log w') = filter (sends_to jid) (w_log w)"

lemma aside_refl: "aside jid job w w"
  by (simp add: aside_def)

lemma aside_trans: "aside jid job w w1 \<Longrightarrow> aside jid job w1 w2 \<Longrightarrow> aside jid job w w2"
  unfolding aside_def by (elim conjE) (intro conjI; fastforce)

lemma sends_to_other: "list_all (sends_to i) evs \<Longrightarrow> i \<noteq> jid \<Longrightarrow> filter (sends_to jid) evs = []"
  by (induction evs) (auto simp: sends_to_def split: event.splits)

lemma frame_aside:
  assumes f: "frame i path w w'" and "i \<noteq> jid" and "job_file job = None \<or> map_option base_name path \<noteq> job_file job"
  shows "aside jid job w w'"
proof -
  obtain evs where evs: "w_log w' = w_log w @ evs" "list_all (sends_to i) evs"
    using f unfolding frame_def by auto
  have "\<exists>r0. row w k = Some r0 \<and> j_signals r = j_signals r0" if "row w' k = Some r" for k r
    using f that unfolding frame_def by (cases "k = i") auto
  then show ?thesis
    using f assms(2,3) evs(1) sends_to_other [OF evs(2) assms(2)] unfolding frame_def aside_def by auto
qed

lemma redeliver_total: "loop_works l \<Longrightarrow> \<exists>ok w'. redeliver_one env l u w = (Inr ok, w')"
proof -
  assume ok: "loop_works l"
  obtain jid stored_bundle raw path where u: "u = (jid, stored_bundle, raw, path)" by (cases u)
  show ?thesis
  proof (cases "delivering w jid")
    case True
    then obtain job where "row w jid = Some job" "j_status job = DELIVERING" by (auto simp: delivering_def)
    from redeliver_delivering [OF ok this u, of env] show ?thesis by blast
  next
    case False
    from redeliver_elsewhere [OF ok this, of env stored_bundle raw path] show ?thesis unfolding u by blast
  qed
qed

lemma redeliver_all_aside:
  assumes "\<forall>(i, sb, raw, path) \<in> set us. i \<noteq> jid \<and> (job_file job = None \<or> map_option base_name path \<noteq> job_file job)"
  shows "aside jid job w (snd (redeliver_all env l us n w))"
  using assms
proof (induction us arbitrary: n w)
  case (Cons u us)
  obtain i sb raw path where u: "u = (i, sb, raw, path)" by (cases u)
  obtain out w1 where one: "redeliver_one env l u w = (out, w1)" by fastforce
  have w1: "aside jid job w w1"
    using frame_aside [OF redeliver_frame [of i path w env l sb raw]] Cons.prems one by (simp add: u)
  show ?case using aside_trans [OF w1 Cons.IH] Cons.prems w1
    by (auto simp: one wbind_def split: sum.split)
qed (simp add: aside_refl)

lemma redeliver_all_total: "loop_works l \<Longrightarrow> \<exists>m w'. redeliver_all env l us n w = (Inr m, w')"
proof (induction us arbitrary: n w)
  case (Cons u us)
  obtain ok w1 where "redeliver_one env l u w = (Inr ok, w1)" using redeliver_total [OF Cons.prems] by blast
  with Cons.IH [OF Cons.prems] show ?case by (simp add: wbind_def)
qed simp

lemma redeliver_all_append:
  "redeliver_all env l (us @ vs) n w = wbind (redeliver_all env l us n) (redeliver_all env l vs) w"
  by (induction us arbitrary: n w) (auto simp: wbind_def split: prod.splits sum.splits)

text \<open>The list a pass works on.\<close>

definition alone :: "nat \<Rightarrow> job \<Rightarrow> world \<Rightarrow> bool" where
  "alone jid job w \<longleftrightarrow>
     (\<forall>k r. k \<noteq> jid \<longrightarrow> row w k = Some r \<longrightarrow> job_file job = None \<or> job_file r \<noteq> job_file job)"

lemma selected_others:
  assumes "wf_dict (w_jobs w)" and "alone jid job w" and "(i, sb, raw, path) \<in> set (select_delivering cutoff w)" and "i \<noteq> jid"
  shows "job_file job = None \<or> map_option base_name path \<noteq> job_file job"
  using assms dget_wf_iff [OF assms(1)]
  by (fastforce simp: select_delivering_def alone_def row_def job_file_def)

lemma selected_split:
  assumes wf: "wf_dict (w_jobs w)" and r: "row w jid = Some job" and s: "j_status job = DELIVERING" "j_updated job < cutoff"
  obtains us vs where "select_delivering cutoff w = us @ (jid, j_bundle job, j_result job, j_signals job) # vs"
    and "jid \<notin> fst ` set us" and "jid \<notin> fst ` set vs"
proof -
  have "(jid, job) \<in> set (w_jobs w)" using r dget_wf_iff [OF wf] by (simp add: row_def)
  then obtain pre post where d: "w_jobs w = pre @ (jid, job) # post" by (meson split_list)
  have "(jid, r) \<notin> set pre" "(jid, r) \<notin> set post" for r using wf unfolding wf_dict_def d by force+
  then show ?thesis using s
    by (intro that [of "map (\<lambda>(jid, job). (jid, j_bundle job, j_result job, j_signals job))
        (filter (\<lambda>(jid, job). j_status job = DELIVERING \<and> j_updated job < cutoff) pre)"
      "map (\<lambda>(jid, job). (jid, j_bundle job, j_result job, j_signals job))
        (filter (\<lambda>(jid, job). j_status job = DELIVERING \<and> j_updated job < cutoff) post)"])
      (auto simp: select_delivering_def d)
qed

section \<open>Persistence\<close>

text \<open>A job with a stored result that waits to be sent again, with what the reconciler needs to do it.\<close>

definition waiting :: "env \<Rightarrow> nat \<Rightarrow> job \<Rightarrow> ingest_bundle \<Rightarrow> rca_result \<Rightarrow> world \<Rightarrow> bool" where
  "waiting env jid job b r w \<longleftrightarrow>
     wf_dict (w_jobs w) \<and> row w jid = Some job \<and> j_status job = DELIVERING \<and> j_updated job < w_now w - env_grace env \<and>
     Option.bind (j_result job) (validate_result (env_lax env)) = Some r \<and>
     restore_bundle (env_lax env) (w_files w) (j_bundle job) (j_signals job) = Inr b \<and> alone jid job w"

lemma waiting_aside:
  assumes "waiting env jid job b r w" and a: "aside jid job w w'"
  shows "waiting env jid job b r w'"
proof -
  have "restore_bundle (env_lax env) (w_files w') (j_bundle job) (j_signals job) =
      restore_bundle (env_lax env) (w_files w) (j_bundle job) (j_signals job)"
    using a by (cases "j_signals job") (auto simp: restore_cases aside_def job_file_def intro!: restore_cong)
  moreover have "job_file k' = job_file k''" if "j_signals k' = j_signals k''" for k' k''
    using that by (simp add: job_file_def)
  ultimately show ?thesis using assms unfolding waiting_def alone_def aside_def by metis
qed

lemma one_delivery:
  assumes ok: "loop_works l" and w: "waiting env jid job b r w" and p: "result_payload env b r = Inr p"
  shows "(\<forall>e. classify_reply (l_reply l jid) = Inl e \<longrightarrow> (\<forall>code body. e \<noteq> DeliveryPermanentError code body) \<longrightarrow>
      redeliver_one env l (jid, j_bundle job, j_result job, j_signals job) w =
        (Inr False, log_event (Sent_result jid (Inl e)) w)) \<and>
    (classify_reply (l_reply l jid) = Inr () \<longrightarrow>
      (\<exists>w' job'. redeliver_one env l (jid, j_bundle job, j_result job, j_signals job) w = (Inr True, w') \<and>
        row w' jid = Some job' \<and> j_status job' = DONE \<and> w_log w' = w_log w @ [Sent_result jid (Inr ())]))"
proof -
  obtain d where d: "j_result job = Some d" "validate_result (env_lax env) d = Some r"
    using w by (auto simp: waiting_def bind_eq_Some_conv)
  have rest: "restore_or_light env (w_files w) (j_bundle job) (j_signals job) = Inr b"
    using w by (simp add: waiting_def restore_or_light_def)
  have s: "resend env l (jid, j_bundle job, j_result job, j_signals job) d w =
      (classify_reply (l_reply l jid), log_event (Sent_result jid (classify_reply (l_reply l jid))) w)"
    using d rest p by (simp add: resend_def send_result_def save_result_def Let_def)
  have row: "row (log_event ev w) jid = Some job" "j_status job = DELIVERING" for ev
    using w by (simp_all add: waiting_def job_simps)
  have m: "mark_if_delivering None None jid (\<lambda>job. job\<lparr>j_status := DONE\<rparr>) (log_event ev w) =
      (Inr True, set_row jid (write_changes (w_now w) job (job\<lparr>j_status := DONE\<rparr>) job) (log_event ev w))" for ev
  proof -
    have "j_status (job\<lparr>j_status := DONE\<rparr>) \<noteq> j_status job" using row(2) by simp
    then have "job\<lparr>j_status := DONE\<rparr> \<noteq> job" by metis
    then show ?thesis using row
      by (simp add: mark_if_delivering_def wbind_def wmay_fail_def wret_def commit_def job_simps log_event_def)
  qed
  show ?thesis
  proof (intro conjI allI impI)
    fix e assume "classify_reply (l_reply l jid) = Inl e" "\<forall>code body. e \<noteq> DeliveryPermanentError code body"
    then show "redeliver_one env l (jid, j_bundle job, j_result job, j_signals job) w =
        (Inr False, log_event (Sent_result jid (Inl e)) w)"
      using s d by (simp add: redeliver_one_def split: exc.split)
  next
    assume "classify_reply (l_reply l jid) = Inr ()"
    then show "\<exists>w' job'. redeliver_one env l (jid, j_bundle job, j_result job, j_signals job) w = (Inr True, w') \<and>
        row w' jid = Some job' \<and> j_status job' = DONE \<and> w_log w' = w_log w @ [Sent_result jid (Inr ())]"
      using s d ok m row(2)
      by (simp add: redeliver_one_def reconciler_mark_done_def loop_works_def wbind_def wdo_def wret_def job_simps
          write_changes_def)
  qed
qed

definition outage :: "reply \<Rightarrow> bool" where
  "outage reply = (case classify_reply reply of
     Inl (DeliveryPermanentError code body) \<Rightarrow> False | Inl e \<Rightarrow> True | Inr u \<Rightarrow> False)"

lemma outage_iff: "outage reply \<longleftrightarrow>
    (\<exists>e. classify_reply reply = Inl e \<and> (\<forall>code body. e \<noteq> DeliveryPermanentError code body))"
  by (auto simp: outage_def split: sum.splits exc.splits)

lemma pass_parts:
  assumes ok: "loop_works l" and w: "waiting env jid job b r w"
  obtains w1 w2 w3 where "redeliver_one env l (jid, j_bundle job, j_result job, j_signals job) w1 = w2"
    and "redeliver_once env l w = w3" and "aside jid job w w1" and "waiting env jid job b r w1"
    and "aside jid job (snd w2) (snd w3)"
proof -
  have wf: "wf_dict (w_jobs w)" and row: "row w jid = Some job" "j_status job = DELIVERING"
    "j_updated job < w_now w - env_grace env" and al: "alone jid job w"
    using w by (simp_all add: waiting_def)
  obtain us vs where sel: "select_delivering (w_now w - env_grace env) w = us @ (jid, j_bundle job, j_result job, j_signals job) # vs"
    and "jid \<notin> fst ` set us" "jid \<notin> fst ` set vs"
    by (rule selected_split [OF wf row])
  then have others: "\<forall>(i, sb, raw, path) \<in> set xs. i \<noteq> jid \<and> (job_file job = None \<or> map_option base_name path \<noteq> job_file job)"
    if xs: "xs = us \<or> xs = vs" for xs
  proof clarify
    fix i sb raw path
    assume x: "(i, sb, raw, path) \<in> set xs"
    then have "i \<in> fst ` set xs" by force
    then have ne: "i \<noteq> jid" using \<open>jid \<notin> fst ` set us\<close> \<open>jid \<notin> fst ` set vs\<close> xs by blast
    have "(i, sb, raw, path) \<in> set (select_delivering (w_now w - env_grace env) w)" using x xs unfolding sel by auto
    from ne selected_others [OF wf al this ne]
    show "i \<noteq> jid \<and> (job_file job = None \<or> map_option base_name path \<noteq> job_file job)" by blast
  qed
  obtain m w1 where pre: "redeliver_all env l us 0 w = (Inr m, w1)" using redeliver_all_total [OF ok] by blast
  have a: "aside jid job w w1" using redeliver_all_aside [OF others, of us w env l 0] pre by simp
  let ?w2 = "redeliver_one env l (jid, j_bundle job, j_result job, j_signals job) w1"
  obtain done1 w2 where w2: "?w2 = (Inr done1, w2)" using redeliver_total [OF ok] by blast
  have once: "redeliver_once env l w = redeliver_all env l vs (if done1 then Suc m else m) w2"
    using ok pre w2 by (simp add: redeliver_once_def wbind_def wmay_fail_def loop_works_def sel redeliver_all_append)
  have "aside jid job w2 (snd (redeliver_once env l w))"
    unfolding once by (rule redeliver_all_aside [OF others]) simp
  then show ?thesis using that [of w1 ?w2 "redeliver_once env l w"] a waiting_aside [OF w a] w2 by simp
qed

lemma waiting_log: "waiting env jid job b r (log_event ev w) = waiting env jid job b r w"
  by (simp add: waiting_def alone_def job_simps) (simp add: log_event_def)

lemma waiting_pause: "waiting env jid job b r w \<Longrightarrow> 0 \<le> seconds \<Longrightarrow> waiting env jid job b r (pause seconds w)"
  by (simp add: waiting_def alone_def pause_def row_def)

lemma pass_outage:
  assumes ok: "loop_works l" and w: "waiting env jid job b r w" and p: "result_payload env b r = Inr p"
    and o: "outage (l_reply l jid)"
  shows "waiting env jid job b r (snd (redeliver_once env l w)) \<and>
    filter (sends_to jid) (w_log (snd (redeliver_once env l w))) =
      filter (sends_to jid) (w_log w) @ [Sent_result jid (classify_reply (l_reply l jid))]"
proof -
  obtain w1 w2 w3 where s: "redeliver_one env l (jid, j_bundle job, j_result job, j_signals job) w1 = w2"
    "redeliver_once env l w = w3" "aside jid job w w1" "waiting env jid job b r w1" "aside jid job (snd w2) (snd w3)"
    by (rule pass_parts [OF ok w])
  obtain e where e: "classify_reply (l_reply l jid) = Inl e" "\<forall>code body. e \<noteq> DeliveryPermanentError code body"
    using o by (auto simp: outage_iff)
  have w2: "snd w2 = log_event (Sent_result jid (Inl e)) w1"
    using one_delivery [OF ok s(4) p] e s(1) by auto
  have "waiting env jid job b r (snd w3)" using waiting_aside [OF _ s(5)] s(4) by (simp add: w2 waiting_log)
  then show ?thesis using s(2,3,5) e(1) by (simp add: w2 aside_def job_simps sends_to_def)
qed

lemma pass_accepted:
  assumes ok: "loop_works l" and w: "waiting env jid job b r w" and p: "result_payload env b r = Inr p"
    and acc: "classify_reply (l_reply l jid) = Inr ()"
  shows "\<exists>job'. row (snd (redeliver_once env l w)) jid = Some job' \<and> j_status job' = DONE \<and>
    wf_dict (w_jobs (snd (redeliver_once env l w))) \<and>
    filter (sends_to jid) (w_log (snd (redeliver_once env l w))) =
      filter (sends_to jid) (w_log w) @ [Sent_result jid (classify_reply (l_reply l jid))]"
proof -
  obtain w1 w2 w3 where s: "redeliver_one env l (jid, j_bundle job, j_result job, j_signals job) w1 = w2"
    "redeliver_once env l w = w3" "aside jid job w w1" "waiting env jid job b r w1" "aside jid job (snd w2) (snd w3)"
    by (rule pass_parts [OF ok w])
  obtain job' where w2: "row (snd w2) jid = Some job'" "j_status job' = DONE"
    "w_log (snd w2) = w_log w1 @ [Sent_result jid (Inr ())]"
    using one_delivery [OF ok s(4) p] acc s(1) by auto
  have "wf_dict (w_jobs (snd w2))"
    using redeliver_frame [of jid "j_signals job" w1 env l "j_bundle job" "j_result job"] s(1,4)
    by (simp add: frame_def waiting_def)
  then show ?thesis using s(2,3,5) w2 acc by (simp add: aside_def sends_to_def)
qed

lemma pass_settled:
  assumes wf: "wf_dict (w_jobs w)" and row: "row w jid = Some job" "j_status job \<noteq> DELIVERING"
  shows "row (snd (redeliver_once env l w)) jid = Some job \<and> wf_dict (w_jobs (snd (redeliver_once env l w))) \<and>
    filter (sends_to jid) (w_log (snd (redeliver_once env l w))) = filter (sends_to jid) (w_log w)"
proof -
  let ?us = "select_delivering (w_now w - env_grace env) w"
  let ?job = "job\<lparr>j_signals := None\<rparr>"
  have "i \<noteq> jid" if sel: "(i, sb, raw, path) \<in> set ?us" for i sb raw path
  proof -
    obtain other where "(i, other) \<in> set (w_jobs w)" "j_status other = DELIVERING"
      using sel by (auto simp: select_delivering_def)
    then have "row w i = Some other" using dget_wf_iff [OF wf] by (simp add: row_def)
    then show ?thesis using row \<open>j_status other = DELIVERING\<close> by auto
  qed
  then have "aside jid ?job w (snd (redeliver_all env l ?us 0 w))"
    by (intro redeliver_all_aside) (auto simp: job_file_def)
  then have "aside jid ?job w (snd (redeliver_once env l w))"
    by (auto simp: redeliver_once_def wbind_def wmay_fail_def aside_refl split: option.split)
  then show ?thesis using wf row by (simp add: aside_def)
qed

lemma loop_settled:
  assumes "wf_dict (w_jobs w)" and "row w jid = Some job" and "j_status job \<noteq> DELIVERING"
  shows "row (reconciler_loop env interval ls w) jid = Some job \<and>
    filter (sends_to jid) (w_log (reconciler_loop env interval ls w)) = filter (sends_to jid) (w_log w)"
  using assms(1,2)
proof (induction ls arbitrary: w)
  case (Cons l ls)
  let ?w = "pause interval (snd (redeliver_once env l w))"
  have "wf_dict (w_jobs ?w)" "row ?w jid = Some job"
    "filter (sends_to jid) (w_log ?w) = filter (sends_to jid) (w_log w)"
    using pass_settled [OF Cons.prems assms(3), of env l] by (simp_all add: pause_def row_def)
  then show ?case using Cons.IH [of ?w] by (simp add: reconciler_loop_def)
qed (simp add: reconciler_loop_def)

lemma loop_outages:
  assumes "waiting env jid job b r w" and "result_payload env b r = Inr p" and "0 \<le> interval"
    and "\<forall>l \<in> set ls. loop_works l \<and> outage (l_reply l jid)"
  shows "waiting env jid job b r (reconciler_loop env interval ls w) \<and>
    filter (sends_to jid) (w_log (reconciler_loop env interval ls w)) =
      filter (sends_to jid) (w_log w) @ map (\<lambda>l. Sent_result jid (classify_reply (l_reply l jid))) ls"
  using assms(1,4)
proof (induction ls arbitrary: w)
  case (Cons l ls)
  let ?w = "pause interval (snd (redeliver_once env l w))"
  have "waiting env jid job b r ?w" "filter (sends_to jid) (w_log ?w) =
      filter (sends_to jid) (w_log w) @ [Sent_result jid (classify_reply (l_reply l jid))]"
    using pass_outage [OF _ Cons.prems(1) assms(2), of l] Cons.prems(2) waiting_pause [OF _ assms(3)]
    by (auto simp: pause_def)
  then show ?case using Cons.IH [of ?w] Cons.prems(2) by (simp add: reconciler_loop_def)
qed (simp add: reconciler_loop_def)

text \<open>C8. The reconciler's persistence pays: a stored result waiting for delivery is sent once in every pass until
  the first one in which Spring accepts it; then the job is DONE and stays so, and it is never sent again. Outages
  on the way leave the row as it was, and what happens to other jobs does not matter.\<close>

theorem delivered_when_accepted:
  assumes w: "waiting env jid job b r w" and p: "result_payload env b r = Inr p" and i: "0 \<le> interval"
    and before: "\<forall>l \<in> set ls. loop_works l \<and> outage (l_reply l jid)"
    and ok: "loop_works l" "classify_reply (l_reply l jid) = Inr ()"
  shows "row (reconciler_loop env interval ls w) jid = Some job \<and>
    (\<exists>job'. row (reconciler_loop env interval (ls @ l # later) w) jid = Some job' \<and> j_status job' = DONE) \<and>
    filter (sends_to jid) (w_log (reconciler_loop env interval (ls @ l # later) w)) =
      filter (sends_to jid) (w_log w) @ map (\<lambda>l. Sent_result jid (classify_reply (l_reply l jid))) (ls @ [l])"
proof -
  let ?w1 = "reconciler_loop env interval ls w"
  let ?w2 = "pause interval (snd (redeliver_once env l ?w1))"
  note one = loop_outages [OF w p i before]
  obtain job' where two: "row ?w2 jid = Some job'" "j_status job' = DONE" "wf_dict (w_jobs ?w2)"
    "filter (sends_to jid) (w_log ?w2) = filter (sends_to jid) (w_log ?w1) @ [Sent_result jid (Inr ())]"
    using pass_accepted [OF ok(1) conjunct1 [OF one] p ok(2)] ok(2) by (auto simp: pause_def row_def)
  have three: "reconciler_loop env interval (ls @ l # later) w = reconciler_loop env interval later ?w2"
    by (simp add: reconciler_loop_def)
  show ?thesis
    using one loop_settled [OF two(3,1), of env interval later] two(2,4) ok(2)
    by (simp add: three waiting_def)
qed

definition sample_waiting :: job where
  "sample_waiting = sample_job\<lparr>j_status := DELIVERING, j_result := Some (result_fields sample_result), j_updated := 0\<rparr>"

definition outage_loop :: loop_answers where
  "outage_loop = sample_loop\<lparr>l_reply := (\<lambda>_. Inr (503, []))\<rparr>"

theorem delivered_when_accepted_witness:
  "\<exists>job. row (reconciler_loop sample_env 60 [outage_loop, sample_loop, sample_loop]
       ((set_row 1 sample_waiting sample_world)\<lparr>w_now := 31\<rparr>)) 1 = Some job \<and> j_status job = DONE"
proof -
  let ?w = "(set_row 1 sample_waiting sample_world)\<lparr>w_now := 31\<rparr>"
  obtain p where p: "result_payload sample_env sample_bundle sample_result = Inr p" using sample_payload by blast
  have row: "row ?w k = (if k = 1 then Some sample_waiting else row sample_world k)" for k
    by (simp add: row_def set_row_def dict_simps)
  have files: "w_files ?w = w_files sample_world" by (simp add: set_row_def)
  have parts: "j_bundle sample_waiting = j_bundle sample_job" "j_signals sample_waiting = j_signals sample_job"
    "j_status sample_waiting = DELIVERING" "j_updated sample_waiting = 0"
    "j_result sample_waiting = Some (result_fields sample_result)"
    by (simp_all add: sample_waiting_def)
  have wf: "wf_dict (w_jobs ?w)" by code_simp
  have "list_all (\<lambda>(k, r). k = 1) (w_jobs sample_world)" by code_simp
  then have only: "row sample_world k = None" if "k \<noteq> 1" for k
    using that map_of_SomeD [of "w_jobs sample_world" k] by (cases "row sample_world k") (auto simp: row_def list_all_iff)
  have "waiting sample_env 1 sample_waiting sample_bundle sample_result ?w"
    using wf sample_restore only
    by (simp add: waiting_def row files parts alone_def validate_result_dump sample_env_def del: One_nat_def)
  moreover have "loop_works outage_loop" "loop_works sample_loop" "outage (l_reply outage_loop 1)"
    "classify_reply (l_reply sample_loop 1) = Inr ()"
    by (simp_all add: loop_works_def outage_loop_def sample_loop_def outage_def classify_reply_def is_success_def)
  ultimately show ?thesis
    using delivered_when_accepted [of sample_env 1 sample_waiting sample_bundle sample_result ?w p 60 "[outage_loop]"
      sample_loop "[sample_loop]"] p by simp
qed

end
