(* ===== verification/Wiring.thy ===== *)
theory Wiring
  imports Background Lifespan Deployment
begin

text \<open>
  The components as the modules create them at import: the constructors of the queue, the reaper, the reconciler,
  the cleaner and the client of Spring with what they take from the settings when an argument is missing, the queue
  the reaper finds, and the request the client sends. The parameters the other theories keep in \<open>env\<close> are these.
  Seconds and hours are whole numbers, as the settings and the defaults are.
\<close>

section \<open>Constructors\<close>

text \<open>\<open>x if x is not None else d\<close>, and \<open>x or d\<close>, which also replaces a zero.\<close>

definition given :: "'a option \<Rightarrow> 'a \<Rightarrow> 'a" where
  "given x d = (case x of Some v \<Rightarrow> v | None \<Rightarrow> d)"

definition truthy :: "int option \<Rightarrow> int \<Rightarrow> int" where
  "truthy x d = (case x of Some v \<Rightarrow> if v \<noteq> 0 then v else d | None \<Rightarrow> d)"

record 'q reaper_object =
  ro_interval :: int
  ro_stuck_after :: int
  ro_max_requeue :: int
  ro_queue :: "'q option"

definition make_reaper :: "settings \<Rightarrow> int option \<Rightarrow> int option \<Rightarrow> int option \<Rightarrow> 'q option \<Rightarrow> 'q reaper_object" where
  "make_reaper s interval stuck_after max_requeue queue =
     \<lparr>ro_interval = given interval (stuck_job_interval_seconds s),
      ro_stuck_after = given stuck_after (stuck_job_after_seconds s),
      ro_max_requeue = given max_requeue (Deployment.max_job_requeue s), ro_queue = queue\<rparr>"

text \<open>\<open>_get_queue\<close>: the queue it was given, else the queue of the process.\<close>

definition get_queue :: "'q \<Rightarrow> 'q reaper_object \<Rightarrow> 'q" where
  "get_queue job_queue r = (case ro_queue r of Some q \<Rightarrow> q | None \<Rightarrow> job_queue)"

record reconciler_object =
  co_interval :: int
  co_grace :: int

definition make_reconciler :: "int option \<Rightarrow> int option \<Rightarrow> reconciler_object" where
  "make_reconciler interval grace = \<lparr>co_interval = given interval 60, co_grace = given grace grace_seconds\<rparr>"

record cleaner_object =
  jo_retention :: int
  jo_interval :: int

definition make_cleaner :: "int option \<Rightarrow> int option \<Rightarrow> cleaner_object" where
  "make_cleaner retention interval =
     \<lparr>jo_retention = given retention retention_hours * 3600, jo_interval = given interval 3600\<rparr>"

definition make_queue :: "settings \<Rightarrow> int option \<Rightarrow> int" where
  "make_queue s concurrency = truthy concurrency (rca_worker_concurrency s)"

text \<open>\<open>range(n)\<close> is empty for a negative number.\<close>

definition workers_started :: "settings \<Rightarrow> int option \<Rightarrow> nat" where
  "workers_started s concurrency = nat (make_queue s concurrency)"

definition queue_size :: "world \<Rightarrow> nat" where
  "queue_size w = length (w_queue w)"

section \<open>The request to Spring\<close>

record spring_request =
  sp_url :: pystr
  sp_payload :: "(pystr, json) dict"
  sp_headers :: "(pystr \<times> pystr) list option"
  sp_timeout :: int

definition post_to_spring :: "settings \<Rightarrow> (spring_request \<Rightarrow> reply) \<Rightarrow> (pystr, json) dict \<Rightarrow> unit res" where
  "post_to_spring s http payload =
     classify_reply (http \<lparr>sp_url = spring_url s, sp_payload = payload, sp_headers = spring_headers s, sp_timeout = 10\<rparr>)"

definition send_report :: "settings \<Rightarrow> (spring_request \<Rightarrow> reply) \<Rightarrow> env \<Rightarrow> ingest_bundle \<Rightarrow> rca_result \<Rightarrow> unit res" where
  "send_report s http env b r = rbind (result_payload env b r) (post_to_spring s http)"

section \<open>Restoring for a second delivery\<close>

text \<open>The reconciler's \<open>_restore\<close>: without the file the arrays are left out and the rest is sent.\<close>

definition reconciler_restore :: "lax_int \<Rightarrow> files \<Rightarrow> (pystr, json) dict \<Rightarrow> pystr option \<Rightarrow> ingest_bundle res" where
  "reconciler_restore lax fs stored path =
     (case restore_bundle lax fs stored path of
        Inr b \<Rightarrow> Inr b
      | Inl e \<Rightarrow> (case e of SignalsMissing m \<Rightarrow> model_validate lax stored | _ \<Rightarrow> Inl e))"

section \<open>Laws\<close>

text \<open>The parameters of the model are those of the objects.\<close>

lemma env_is_wired:
  fixes s drain tim lax errors "text" and queue :: "'q option"
  defines "env \<equiv> env_of s drain tim lax errors text"
  shows "env_stuck_after env = ro_stuck_after (make_reaper s None None None queue)"
    and "env_max_requeue env = ro_max_requeue (make_reaper s None None None queue)"
    and "env_grace env = co_grace (make_reconciler None None)"
    and "env_retention env = jo_retention (make_cleaner None None)"
  by (simp_all add: env_def env_of_def make_reaper_def make_reconciler_def make_cleaner_def given_def)

text \<open>An explicit zero is kept by the reaper and replaced by the queue.\<close>

lemma explicit_zero:
  "ro_max_requeue (make_reaper s None None (Some 0) q) = 0"
  "make_queue s (Some 0) = rca_worker_concurrency s"
  by (simp_all add: make_reaper_def make_queue_def given_def truthy_def)

text \<open>With the default settings there is a worker, which a shutdown needs to come to an end.\<close>

lemma default_workers: "workers_started default_settings None = 2"
  by (simp add: workers_started_def make_queue_def truthy_def default_settings_def)

lemma reconciler_restores_alike: "reconciler_restore (env_lax env) fs stored path = restore_or_light env fs stored path"
  by (simp add: reconciler_restore_def restore_or_light_def split: sum.split exc.split)

lemma sends_saved_result:
  "send_report s http env b r =
     (case result_payload env b r of
        Inl e \<Rightarrow> Inl e
      | Inr p \<Rightarrow> save_result env (http \<lparr>sp_url = spring_url s, sp_payload = p, sp_headers = spring_headers s, sp_timeout = 10\<rparr>) b r)"
  by (simp add: send_report_def save_result_def post_to_spring_def split: sum.split)

text \<open>How long a result waits: of passes the pause apart, one falls between the grace period and a pause later.\<close>

lemma pass_in_time:
  fixes start pause u wait :: int
  assumes "0 < pause" and "start \<le> u + wait"
  shows "\<exists>k. u + wait < start + int k * pause \<and> start + int k * pause \<le> u + wait + pause"
proof -
  let ?k = "(u + wait - start) div pause + 1"
  have k: "0 \<le> ?k" using assms by (simp add: pos_imp_zdiv_nonneg_iff)
  have mod: "(u + wait - start) div pause * pause = u + wait - start - (u + wait - start) mod pause"
    by (simp add: minus_mod_eq_div_mult)
  have bounds: "0 \<le> (u + wait - start) mod pause" "(u + wait - start) mod pause < pause" using assms(1) by simp_all
  have "start + int (nat ?k) * pause = u + wait - (u + wait - start) mod pause + pause"
    using k by (simp add: distrib_right mod)
  with bounds show ?thesis by (intro exI [of _ "nat ?k"]) linarith
qed

text \<open>As wired, a result that could not be delivered at \<open>u\<close> is due for another attempt at the latest 90 seconds later,
  and a job that has been running since \<open>u\<close> without end is found at the latest 30 minutes later.\<close>

theorem repaired_in_time:
  fixes drain tim lax errors "text" and queue :: "'q option"
  defines "env \<equiv> env_of default_settings drain tim lax errors text"
    and "reaper \<equiv> make_reaper default_settings None None None queue" and "reconciler \<equiv> make_reconciler None None"
  assumes "started \<le> u"
  shows "\<exists>k. let now = started + int k * co_interval reconciler in u < now - env_grace env \<and> now \<le> u + 90"
    and "\<exists>k. let now = started + int k * ro_interval reaper in taken_for_stuck env now u \<and> now \<le> u + 1800"
proof -
  show "\<exists>k. let now = started + int k * co_interval reconciler in u < now - env_grace env \<and> now \<le> u + 90"
    using pass_in_time [of 60 started u 30] assms(4)
    by (auto simp: env_def reconciler_def env_of_def make_reconciler_def given_def grace_seconds_def Let_def less_diff_eq)
  show "\<exists>k. let now = started + int k * ro_interval reaper in taken_for_stuck env now u \<and> now \<le> u + 1800"
    using pass_in_time [of 300 started u 1500] assms(4)
    by (auto simp: env_def reaper_def env_of_def make_reaper_def given_def taken_for_stuck_def default_settings_def
        Let_def less_diff_eq)
qed

end
