(* ===== verification/Spec2Isabelle.thy ===== *)
theory Spec2Isabelle
  imports Lifecycle_Props Pipeline Eval_Harness Edge_Cases Agent_Graph Llm_Limit Upgrades Log_Output Wiring
begin

text \<open>
  A verification development for the CHOK v2 AI backend: a service that receives bundles of logs, metrics and
  traces around an incident (\<open>POST /ingest\<close>), stores each as a job, has a worker analyse it with language
  model agents, and delivers the report to a Spring server, with loops that repair what a failure or a restart
  leaves behind.

  \<^bold>\<open>The parts and how they interact.\<close> A request passes the key check (\<open>app/core/auth.py\<close>) and the contract
  (\<open>app/schemas/contracts.py\<close>); \<open>app/api/ingest.py\<close> splits the bundle between a file (\<open>bundle_store.py\<close>) and a
  row of the table \<open>ingest_job\<close> (\<open>app/db/models.py\<close>) and puts the job's number into an in-memory queue. A worker
  (\<open>job_queue.py\<close>) takes it, restores the bundle, runs the orchestrator (\<open>app/agents\<close>) up to twice, stores the
  validated result (\<open>rca_validation.py\<close>), sends it (\<open>spring_client.py\<close>, which selects signals with
  \<open>signal_selector.py\<close> and rewrites them with \<open>raw_normalizer.py\<close>) and marks the job. The reaper
  (\<open>stuck_job_reaper.py\<close>), the reconciler (\<open>delivery_reconciler.py\<close>) and the cleaner (\<open>job_cleanup.py\<close>) act on
  the same rows and files at the same time. A job is PENDING, RUNNING, DELIVERING (stored, not yet accepted),
  DONE or FAILED.

  \<^bold>\<open>Theories and code.\<close>
  \<^item> \<open>Prelude\<close>, \<open>Py_Text\<close>, \<open>Floats\<close>, \<open>Json\<close>, \<open>Json_Text\<close>: Python as far as the program uses it. Text is a list
    of code points, a dictionary an insertion-ordered association list, an exception a value of \<open>exc\<close>, a call
    that may raise a value of \<open>'a res\<close>. Regular expressions are terms with a backtracking matcher; floats are
    IEEE doubles with every operation rounded; \<open>json.loads\<close> and the writers are programs over text.
  \<^item> \<open>Timestamps\<close>, \<open>Signal_Fields\<close>: the judgements on one item shared by several modules of \<open>app/services\<close>
    (\<open>parse_ts\<close>, \<open>short_ts\<close>, \<open>_chron\<close>, \<open>_to_spring_ts\<close>, \<open>LEVEL_RE\<close>, \<open>metric_pairs\<close>, \<open>span_fields\<close>).
  \<^item> \<open>Contracts\<close>, \<open>Contract_Laws\<close>: one record per model of \<open>contracts.py\<close>, dumping and validation.
  \<^item> \<open>Round_Robin\<close>, \<open>Signal_Selector\<close>, \<open>Raw_Normalizer\<close>, \<open>Spring_Client\<close>, \<open>Rca_Validation\<close>, \<open>Bundle_Store\<close>: the
    module of the same name each.
  \<^item> \<open>Job_Store\<close>: the table, the units of work of a session and the world the tasks act on (rows, files, queue,
    clock, and the log of calls made). \<open>Job_Queue\<close>, \<open>Recovery\<close>, \<open>Ingest_Api\<close>: the worker's turn, one iteration of
    each loop, the two endpoints, each undisturbed and with everything awaited answered by an argument.
  \<^item> \<open>Lifecycle\<close>: the same code cut at its awaits and interleaved (\<open>app/main.py\<close>): \<open>task_step\<close> is one stretch of
    one task, \<open>sys_step\<close> lets any task move, a request arrive, time pass or the process restart.
  \<^item> \<open>Log_Compression\<close>, \<open>Signal_Compression\<close>, \<open>Bundle_Parser\<close>: \<open>bundle_compression.py\<close>, \<open>bundle_parser.py\<close> and the
    input handling of \<open>agents/llm.py\<close> and \<open>modality_agents.py\<close>. \<open>Agents\<close>: router, modality agents, report,
    assembly and their composition. \<open>Agent_Graph\<close>: the graph of \<open>agents/graph.py\<close> with its state, its edges and the
    schedules of its nodes. \<open>Llm_Limit\<close>: the semaphore around all calls of the language model (\<open>llm_limit\<close>).
  \<^item> \<open>Background\<close>: the loops of the reconciler and the reaper over time. \<open>Lifespan\<close>: startup, shutdown and the
    tasks alive in between (\<open>lifespan\<close> in \<open>app/main.py\<close>, \<open>start\<close> and \<open>stop\<close> of each component).
  \<^item> \<open>Server_Api\<close>: requests with a key and a body, \<open>health.py\<close>, the startup check. \<open>Pipeline\<close>: the whole way of a
    request, and the queue being worked off. \<open>Deployment\<close>: \<open>config.py\<close>, the engine's options and the revisions.
    \<open>Upgrades\<close>: \<open>migrations/env.py\<close>, the chain of the revisions, and \<open>init_db\<close>. \<open>Wiring\<close>: the constructors of the
    components and what they take from the settings. \<open>Log_Output\<close>: \<open>logging_config.py\<close> and \<open>error_handlers.py\<close>.
  \<^item> \<open>Baseline_Profile\<close>: \<open>scripts/analyze_baseline.py\<close> and the reading of its profile. \<open>Masking\<close>: what is masked in a
    log line before it is clustered (\<open>_MASKING\<close> in \<open>bundle_compression.py\<close>). \<open>Eval_Harness\<close>: \<open>eval/scoring.py\<close>,
    \<open>eval/run.py\<close>, \<open>eval/capture_sink.py\<close>.
  \<^item> \<open>Edge_Cases\<close>: inputs the code does not expect, evaluated, and a report that can never be sent.

  \<^bold>\<open>What the lemmas show.\<close>
  \<^item> The running system (\<open>Lifecycle_Inv\<close>, \<open>Lifecycle_Props\<close>): an invariant over rows, calls and the variables of
    every waiting task, kept by every stretch under every interleaving, failure and restart. From it: DONE only
    after Spring accepted or without a product; a DELIVERING job has its result stored, and only stored results
    are sent; no unfinished row is removed; requeueing is bounded. Also a run that reopens a finished job.
  \<^item> Single operations (\<open>Job_Laws\<close>): \<open>final_status\<close>, \<open>calls_of\<close> and \<open>progressed\<close> are a short specification of a
    worker's turn, and \<open>process\<close> refines it; what one pass of each loop changes, exactly; what a refused
    reception leaves. The interleaved worker, left alone, is the sequential one.
  \<^item> The composition (\<open>Pipeline\<close>): an accepted request becomes a delivered report; working off the queue ends and
    settles every job; the reconciler delivers a stored result in the first pass in which Spring accepts it, once
    (\<open>Background\<close>); a shutdown leaves no task and no queued job (\<open>Lifespan\<close>). The runner is the interface
    \<open>rca_runner\<close>, interpreted on the orchestrator; the store is the interface \<open>signal_store\<close>, interpreted on
    \<open>bundle_store.py\<close>; a loop's task field is the interface \<open>loop_slot\<close>, interpreted on the three loops.
  \<^item> Data: nothing of a bundle is lost between file and row; models, JSON files, the profile and the migrations
    round-trip; the selection is exact, bounded, fair among groups and equal to the transposed groups; payloads
    validate against the contract; timestamps keep their instant; normalized texts have the contract's keys.
  \<^item> Agents: which failures fail an analysis, the guardrails of the router, error numbers that are facts, the
    liveness table, inputs that fit the limit, deduplication and aggregation that lose no line or span. Every
    schedule of the graph ends, and ends as the plain composition of its nodes; the calls under way never exceed
    the limit, and no place is lost to an exception or a cancellation. Lines of the baseline are recognised as
    normal in a bundle from any other day, because their time stamps are masked.
  \<^item> Deployment: from any earlier revision a container start reaches the schema of the ORM class and keeps every row;
    what the components take from the settings is what the proofs assume, so that repairs come in time.

  \<^bold>\<open>Bounds, fuel, termination.\<close> \<open>json_loads\<close> runs on fuel, one unit per character, which \<open>p_val_fuel\<close> shows to be
  enough; the other recursions are structural or have a measure (\<open>rr_while\<close>, \<open>re_findall_from\<close>, \<open>re_sub_from\<close>,
  \<open>str_replace\<close>, \<open>get_option\<close>, \<open>work_off\<close>). A run of the graph has at most ten events. The loops of the process do not end; they are steps of \<open>sys_step\<close>. Integers are unbounded as in
  Python; floats are rounded to binary64 and overflow to infinity.

  \<^bold>\<open>Arguments of the model\<close> (code outside the repository): Drain (\<open>drain\<close>, \<open>mine\<close>: the cluster of the last of the
  messages a miner was fed, which depends on the masked lines only where \<open>Masking\<close> says so), Alembic's walk along
  the revisions (\<open>climbs\<close>), what the language model answers to a call,
  the HTTP reply of Spring or its exception, the failures of database and disk, the clock, random names, the
  lax integers and the error list of pydantic, what \<open>sorted\<close> does when a NaN makes the comparison no order,
  SHA-256, and the texts of exceptions.

  \<^bold>\<open>Not modelled.\<close> Cancellation of tasks outside the call limit and the shutdown (the process ends at any point
  instead, by a restart), and the order in which the loops start after the recovery at startup (any order is
  allowed); the database's own rewriting of JSON values (it keeps them) and its locking; CPython's limits on recursion
  and on the digits of an integer; the sign of a zero; letters and digits beyond the blocks listed in \<open>Py_Text\<close>, and
  files that are not UTF-8; a baseline profile other than one the script wrote; the session factory, which is the
  database library's; the texts of most log messages, the handlers that write them, printing and argument
  parsing; the static file server \<open>eval/serve.py\<close> and the socket of \<open>eval/capture_sink.py\<close>, which are the standard
  library's with fixed arguments. What remains of the sources beyond this is declarations (paths, type names, the
  example at the end of \<open>contracts.py\<close>) without behaviour of its own. The tests are read as documentation.
\<close>

end
